(* ===== verification/Prelude.thy ===== *)
theory Prelude
  imports Main "HOL-Library.Word"
begin

text \<open>
  Shared vocabulary of the development: the machine types of the Rust code, the state-and-error
  computations that model methods on \<open>&mut self\<close> returning \<open>Result\<close>, the byte order conversions of
  the standard library, decimal printing and parsing of integers, and the list facts that the
  components share.

  A Rust \<open>str\<close> is its UTF-8 byte sequence, written as an Isabelle \<open>string\<close> (a \<open>char\<close> is one byte),
  so \<open>as_bytes\<close>, \<open>len\<close> and replacements of ASCII characters act byte by byte as they do in Rust.
  A \<open>usize\<close> is a \<open>nat\<close>; where the code checks for overflow the bound \<open>2 ^ 64\<close> is written out.
\<close>

unbundle bit_operations_syntax

section \<open>Machine types\<close>

type_synonym u8 = "8 word"
type_synonym u16 = "16 word"
type_synonym u32 = "32 word"
type_synonym u64 = "64 word"
type_synonym bytes = "8 word list"

named_theorems st_simps \<open>unfolding of the state-and-error combinators\<close>
named_theorems byte_simps \<open>lengths and values of byte encodings\<close>
named_theorems byte_eval \<open>evaluation of byte encodings of concrete numbers\<close>

section \<open>Results and computations on a mutable receiver\<close>

text \<open>
  \<open>bind_res\<close> is the \<open>?\<close> operator on a plain \<open>Result\<close>.  A method on \<open>&mut self\<close> is a function from
  the receiver to its result and the receiver afterwards: the state reached before an early return
  is kept, as it is in Rust.
\<close>

definition bind_res :: "'e + 'a \<Rightarrow> ('a \<Rightarrow> 'e + 'b) \<Rightarrow> 'e + 'b" where
  "bind_res m f = (case m of Inl e \<Rightarrow> Inl e | Inr x \<Rightarrow> f x)"

type_synonym ('s, 'e, 'a) sm = "'s \<Rightarrow> ('e + 'a) \<times> 's"

definition ret :: "'a \<Rightarrow> ('s, 'e, 'a) sm" where
  "ret x s = (Inr x, s)"

definition throw :: "'e \<Rightarrow> ('s, 'e, 'a) sm" where
  "throw e s = (Inl e, s)"

definition bind_st :: "('s, 'e, 'a) sm \<Rightarrow> ('a \<Rightarrow> ('s, 'e, 'b) sm) \<Rightarrow> ('s, 'e, 'b) sm" where
  "bind_st m f s = (case m s of (r, s') \<Rightarrow> (case r of Inl e \<Rightarrow> (Inl e, s') | Inr x \<Rightarrow> f x s'))"

definition lift_res :: "'e + 'a \<Rightarrow> ('s, 'e, 'a) sm" where
  "lift_res r s = (r, s)"

definition get_st :: "('s, 'e, 's) sm" where
  "get_st s = (Inr s, s)"

definition modify_st :: "('s \<Rightarrow> 's) \<Rightarrow> ('s, 'e, unit) sm" where
  "modify_st f s = (Inr (), f s)"

lemmas st_defs [st_simps] =
  ret_def throw_def bind_st_def lift_res_def get_st_def modify_st_def

lemma bind_res_simps [simp]:
  "bind_res (Inl e) f = Inl e"
  "bind_res (Inr x) f = f x"
  by (simp_all add: bind_res_def)

lemma bind_res_Inr_iff: "bind_res m f = Inr y \<longleftrightarrow> (\<exists>x. m = Inr x \<and> f x = Inr y)"
  by (cases m) auto

lemma bind_st_Inr_iff:
  "bind_st m f s = (Inr y, s') \<longleftrightarrow> (\<exists>x s1. m s = (Inr x, s1) \<and> f x s1 = (Inr y, s'))"
  by (auto simp: bind_st_def split: prod.splits sum.splits)

lemma bind_st_Inl_iff:
  "bind_st m f s = (Inl e, s') \<longleftrightarrow>
     m s = (Inl e, s') \<or> (\<exists>x s1. m s = (Inr x, s1) \<and> f x s1 = (Inl e, s'))"
  by (auto simp: bind_st_def split: prod.splits sum.splits)

lemma bind_st_ok: "m s = (Inr x, s1) \<Longrightarrow> bind_st m f s = f x s1"
  by (simp add: bind_st_def)

lemma bind_st_err: "m s = (Inl e, s1) \<Longrightarrow> bind_st m f s = (Inl e, s1)"
  by (simp add: bind_st_def)

text \<open>
  An invariant of the receiver that a computation keeps on every path, errors included; the rules
  below let the components prove theirs method by method.
\<close>

definition keeps :: "('s \<Rightarrow> bool) \<Rightarrow> ('s, 'e, 'a) sm \<Rightarrow> bool" where
  "keeps P m \<longleftrightarrow> (\<forall>s. P s \<longrightarrow> P (snd (m s)))"

lemma keepsI: "(\<And>s. P s \<Longrightarrow> P (snd (m s))) \<Longrightarrow> keeps P m"
  by (simp add: keeps_def)

lemma keepsD: "keeps P m \<Longrightarrow> P s \<Longrightarrow> P (snd (m s))"
  by (simp add: keeps_def)

lemma keeps_ret [intro]: "keeps P (ret x)"
  by (simp add: keeps_def ret_def)

lemma keeps_throw [intro]: "keeps P (throw e)"
  by (simp add: keeps_def throw_def)

lemma keeps_lift_res [intro]: "keeps P (lift_res r)"
  by (simp add: keeps_def lift_res_def)

lemma keeps_get_st [intro]: "keeps P get_st"
  by (simp add: keeps_def get_st_def)

lemma keeps_bind [intro]: "keeps P m \<Longrightarrow> (\<And>x. keeps P (f x)) \<Longrightarrow> keeps P (bind_st m f)"
  by (fastforce simp: keeps_def bind_st_def split: prod.splits sum.splits)

lemma keeps_modify [intro]: "(\<And>s. P s \<Longrightarrow> P (f s)) \<Longrightarrow> keeps P (modify_st f)"
  by (simp add: keeps_def modify_st_def)

section \<open>Bytes and little-endian integers\<close>

definition as_bytes :: "string \<Rightarrow> bytes" where
  "as_bytes s = map (\<lambda>c. word_of_nat (of_char c)) s"

definition from_bytes :: "bytes \<Rightarrow> string" where
  "from_bytes bs = map (\<lambda>b. char_of (unat b)) bs"

fun le_bytes :: "nat \<Rightarrow> nat \<Rightarrow> bytes" where
  "le_bytes 0 v = []"
| "le_bytes (Suc n) v = word_of_nat (v mod 256) # le_bytes n (v div 256)"

fun le_nat :: "bytes \<Rightarrow> nat" where
  "le_nat [] = 0"
| "le_nat (b # bs) = unat b + 256 * le_nat bs"

text \<open>\<open>to_le_bytes\<close> and \<open>from_le_bytes\<close> of the unsigned integer types.\<close>

definition to_le_bytes :: "'a::len word \<Rightarrow> bytes" where
  "to_le_bytes w = le_bytes (LENGTH('a) div 8) (unat w)"

definition from_le_bytes :: "bytes \<Rightarrow> 'a::len word" where
  "from_le_bytes bs = word_of_nat (le_nat bs)"

lemma as_bytes_length [simp]: "length (as_bytes s) = length s"
  by (simp add: as_bytes_def)

lemma as_bytes_append [simp]: "as_bytes (s @ t) = as_bytes s @ as_bytes t"
  by (simp add: as_bytes_def)

lemma as_bytes_eq_Nil [simp]: "as_bytes s = [] \<longleftrightarrow> s = []"
  by (simp add: as_bytes_def)

lemma unat_byte_of_char: "unat (word_of_nat (of_char c) :: u8) = of_char c"
  by (simp add: unat_of_nat)

lemma from_as_bytes [simp]: "from_bytes (as_bytes s) = s"
  by (simp add: from_bytes_def as_bytes_def unat_byte_of_char comp_def)

lemma as_from_bytes [simp]: "as_bytes (from_bytes bs) = bs"
proof -
  have "word_of_nat (unat b mod 256) = b" for b :: u8
    using unsigned_less [of b, where ?'a = nat] by simp
  then show ?thesis by (simp add: from_bytes_def as_bytes_def comp_def)
qed

lemma as_bytes_inject [simp]: "as_bytes s = as_bytes t \<longleftrightarrow> s = t"
  by (metis from_as_bytes)

lemma unat_byte_less [simp]: "unat (b :: u8) < 256"
  using unsigned_less [of b, where ?'a = nat] by simp

lemma le_bytes_length [simp, byte_simps]: "length (le_bytes n v) = n"
  by (induction n arbitrary: v) simp_all

lemma le_bytes_numeral [byte_eval]:
  "le_bytes (numeral k) v = word_of_nat (v mod 256) # le_bytes (pred_numeral k) (v div 256)"
  unfolding numeral_eq_Suc [of k] le_bytes.simps ..

lemma le_nat_bound: "le_nat bs < 256 ^ length bs"
proof (induction bs)
  case (Cons b bs)
  have "unat b + 256 * le_nat bs < 256 + 256 * le_nat bs"
    using unat_byte_less [of b] by simp
  also have "\<dots> = 256 * Suc (le_nat bs)" by simp
  also have "\<dots> \<le> 256 * 256 ^ length bs" using Cons.IH by (intro mult_le_mono) auto
  finally show ?case by simp
qed simp

lemma le_nat_le_bytes: "le_nat (le_bytes n v) = v mod 256 ^ n"
proof (induction n arbitrary: v)
  case (Suc n)
  have "v mod (256 * 256 ^ n) = 256 * (v div 256 mod 256 ^ n) + v mod 256"
    by (rule mod_mult2_eq)
  then show ?case using Suc.IH [of "v div 256"] by (simp add: unat_of_nat)
qed simp

lemma le_bytes_inverse [byte_simps]: "v < 256 ^ n \<Longrightarrow> le_nat (le_bytes n v) = v"
  by (simp add: le_nat_le_bytes)

lemma le_bytes_le_nat: "le_bytes (length bs) (le_nat bs) = bs"
  by (induction bs) simp_all

lemma to_le_bytes_length [byte_simps]:
  "length (to_le_bytes (w :: u16)) = 2" "length (to_le_bytes (x :: u32)) = 4"
  "length (to_le_bytes (y :: u64)) = 8"
  by (simp_all add: to_le_bytes_def)

lemma unat_from_le_bytes:
  assumes "8 * length bs \<le> LENGTH('a)"
  shows "unat (from_le_bytes bs :: 'a::len word) = le_nat bs"
proof -
  have "le_nat bs < 256 ^ length bs" by (rule le_nat_bound)
  also have "(256 :: nat) ^ length bs = 2 ^ (8 * length bs)" by (simp add: power_mult)
  also have "\<dots> \<le> 2 ^ LENGTH('a)" using assms by (rule power_increasing) simp
  finally show ?thesis by (simp add: from_le_bytes_def unat_of_nat)
qed

lemma from_to_le_bytes:
  assumes "8 dvd LENGTH('a)"
  shows "from_le_bytes (to_le_bytes w) = (w :: 'a::len word)"
proof -
  have "(256 :: nat) ^ (LENGTH('a) div 8) = 2 ^ LENGTH('a)"
    using assms by (auto simp: power_mult elim: dvdE)
  then have "unat w < 256 ^ (LENGTH('a) div 8)" by simp
  then show ?thesis by (simp add: from_le_bytes_def to_le_bytes_def le_bytes_inverse)
qed

lemma from_to_le_bytes_u [simp]:
  "from_le_bytes (to_le_bytes w) = (w :: u16)" "from_le_bytes (to_le_bytes x) = (x :: u32)"
  "from_le_bytes (to_le_bytes y) = (y :: u64)"
  by (simp_all add: from_to_le_bytes)

section \<open>Decimal integers\<close>

definition digit_char :: "nat \<Rightarrow> char" where
  "digit_char n = char_of (48 + n)"

definition is_digit :: "char \<Rightarrow> bool" where
  "is_digit c \<longleftrightarrow> 48 \<le> (of_char c :: nat) \<and> (of_char c :: nat) \<le> 57"

definition digit_val :: "char \<Rightarrow> nat" where
  "digit_val c = of_char c - 48"

text \<open>\<open>Display\<close> of an unsigned and of a signed integer.\<close>

fun dec :: "nat \<Rightarrow> string" where
  "dec n = (if n < 10 then [digit_char n] else dec (n div 10) @ [digit_char (n mod 10)])"

declare dec.simps [simp del]

definition dec_int :: "int \<Rightarrow> string" where
  "dec_int i = (if i < 0 then CHR ''-'' # dec (nat (- i)) else dec (nat i))"

definition digits_val :: "string \<Rightarrow> nat" where
  "digits_val s = foldl (\<lambda>n c. 10 * n + digit_val c) 0 s"

text \<open>
  \<open>str::parse\<close> for an unsigned type with maximum \<open>m\<close> and for a signed type with range
  \<open>lo .. hi\<close>: an optional sign (only \<open>+\<close> for unsigned), at least one digit, digits only, in range.
\<close>

definition parse_unsigned :: "nat \<Rightarrow> string \<Rightarrow> nat option" where
  "parse_unsigned m s =
     (let ds = (case s of [] \<Rightarrow> s | c # cs \<Rightarrow> if c = CHR ''+'' then cs else s)
      in if ds \<noteq> [] \<and> list_all is_digit ds \<and> digits_val ds \<le> m then Some (digits_val ds) else None)"

definition parse_signed :: "int \<Rightarrow> int \<Rightarrow> string \<Rightarrow> int option" where
  "parse_signed lo hi s =
     (let neg = (s \<noteq> [] \<and> hd s = CHR ''-'');
          ds = (case s of [] \<Rightarrow> s | c # cs \<Rightarrow> if c = CHR ''+'' \<or> c = CHR ''-'' then cs else s);
          v = (if neg then - int (digits_val ds) else int (digits_val ds))
      in if ds \<noteq> [] \<and> list_all is_digit ds \<and> lo \<le> v \<and> v \<le> hi then Some v else None)"

lemma of_char_digit_char: "n < 10 \<Longrightarrow> of_char (digit_char n) = 48 + (n :: nat)"
  by (simp add: digit_char_def)

lemma digit_char_eval [byte_eval]:
  "digit_char 0 = CHR ''0''" "digit_char (Suc 0) = CHR ''1''" "digit_char 1 = CHR ''1''"
  "digit_char 2 = CHR ''2''" "digit_char 3 = CHR ''3''" "digit_char 4 = CHR ''4''"
  "digit_char 5 = CHR ''5''" "digit_char 6 = CHR ''6''" "digit_char 7 = CHR ''7''"
  "digit_char 8 = CHR ''8''" "digit_char 9 = CHR ''9''"
  by (simp_all add: digit_char_def char_of_eq_iff)

lemma digit_char_facts [simp]:
  assumes "n < 10"
  shows "is_digit (digit_char n)" and "digit_val (digit_char n) = n"
  using assms by (simp_all add: is_digit_def digit_val_def of_char_digit_char)

lemma digits_val_snoc [simp]: "digits_val (s @ [c]) = 10 * digits_val s + digit_val c"
  by (simp add: digits_val_def)

lemma digits_val_Nil [simp]: "digits_val [] = 0"
  by (simp add: digits_val_def)

lemma dec_not_Nil [simp]: "dec n \<noteq> []"
  by (subst dec.simps) simp

lemma dec_digits: "list_all is_digit (dec n)"
proof (induction n rule: dec.induct)
  case (1 n)
  then show ?case by (cases "n < 10") (simp_all add: dec.simps [of n])
qed

lemma digits_val_single [simp]: "digits_val [c] = digit_val c"
  using digits_val_snoc [of "[]" c] by simp

lemma digits_val_dec [simp]: "digits_val (dec n) = n"
proof (induction n rule: dec.induct)
  case (1 n)
  then show ?case by (cases "n < 10") (simp_all add: dec.simps [of n])
qed

lemma is_digit_not_sign: "is_digit c \<Longrightarrow> c \<noteq> CHR ''+'' \<and> c \<noteq> CHR ''-''"
  by (auto simp: is_digit_def)

lemma dec_hd_digit: "is_digit (hd (dec n))"
  using dec_digits [of n] dec_not_Nil [of n] by (cases "dec n") auto

lemma parse_unsigned_dec:
  assumes "n \<le> m"
  shows "parse_unsigned m (dec n) = Some n"
proof -
  obtain c cs where cs: "dec n = c # cs" by (cases "dec n") auto
  with dec_hd_digit [of n] have "c \<noteq> CHR ''+''"
    using is_digit_not_sign by auto
  moreover have "digits_val (c # cs) = n" "list_all is_digit (c # cs)"
    using digits_val_dec [of n] dec_digits [of n] by (simp_all add: cs)
  ultimately show ?thesis using assms by (simp add: parse_unsigned_def cs)
qed

lemma parse_signed_dec_int:
  assumes "lo \<le> i" and "i \<le> hi"
  shows "parse_signed lo hi (dec_int i) = Some i"
proof (cases "i < 0")
  case True
  then show ?thesis using assms dec_digits [of "nat (- i)"]
    by (simp add: parse_signed_def dec_int_def)
next
  case False
  obtain c cs where cs: "dec (nat i) = c # cs" by (cases "dec (nat i)") auto
  with dec_hd_digit [of "nat i"] have c: "c \<noteq> CHR ''+'' \<and> c \<noteq> CHR ''-''"
    using is_digit_not_sign by auto
  have "digits_val (c # cs) = nat i" "list_all is_digit (c # cs)"
    using digits_val_dec [of "nat i"] dec_digits [of "nat i"] by (simp_all add: cs)
  with False c assms cs show ?thesis by (simp add: parse_signed_def dec_int_def)
qed

section \<open>Lists\<close>

text \<open>\<open>position\<close> of the first element that satisfies a predicate, and the slices of Rust.\<close>

fun find_index :: "('a \<Rightarrow> bool) \<Rightarrow> 'a list \<Rightarrow> nat option" where
  "find_index P [] = None"
| "find_index P (x # xs) = (if P x then Some 0 else map_option Suc (find_index P xs))"

lemma find_index_Some:
  "find_index P xs = Some n \<Longrightarrow> n < length xs \<and> P (xs ! n) \<and> (\<forall>k<n. \<not> P (xs ! k))"
proof (induction xs arbitrary: n)
  case (Cons x xs)
  then show ?case by (cases n) (auto split: if_splits simp: less_Suc_eq_0_disj)
qed simp

lemma find_index_None: "find_index P xs = None \<longleftrightarrow> (\<forall>x \<in> set xs. \<not> P x)"
  by (induction xs) auto

lemma find_index_append:
  "find_index P (xs @ ys) =
     (case find_index P xs of
        Some n \<Rightarrow> Some n
      | None \<Rightarrow> map_option (\<lambda>n. length xs + n) (find_index P ys))"
  by (induction xs; cases "find_index P ys"; auto split: option.splits)

definition slice_of :: "nat \<Rightarrow> nat \<Rightarrow> 'a list \<Rightarrow> 'a list" where
  "slice_of i j xs = take (j - i) (drop i xs)"

lemma slice_of_length: "j \<le> length xs \<Longrightarrow> length (slice_of i j xs) = j - i"
  by (simp add: slice_of_def)

lemma slice_of_append_mid:
  "length xs = i \<Longrightarrow> length ys = j - i \<Longrightarrow> slice_of i j (xs @ ys @ zs) = ys"
  by (simp add: slice_of_def)

end
