(* ===== verification/Constants.thy ===== *)
theory Constants
  imports Prelude
begin

text \<open>
  The protocol constants of \<^verbatim>\<open>mysql-core/src/constants\<close>: numerals under the names the code uses.
  They are input abbreviations, so that the simplifier computes with the numbers.
\<close>

section \<open>Capability flags of the client (\<open>constants/client.rs\<close>)\<close>

abbreviation (input) LONG_PASSWORD :: u32 where
  "LONG_PASSWORD \<equiv> 1"

abbreviation (input) FOUND_ROWS :: u32 where
  "FOUND_ROWS \<equiv> 2"

abbreviation (input) LONG_FLAG :: u32 where
  "LONG_FLAG \<equiv> 4"

abbreviation (input) CONNECT_WITH_DB :: u32 where
  "CONNECT_WITH_DB \<equiv> 8"

abbreviation (input) NO_SCHEMA :: u32 where
  "NO_SCHEMA \<equiv> 16"

abbreviation (input) COMPRESS :: u32 where
  "COMPRESS \<equiv> 32"

abbreviation (input) ODBC :: u32 where
  "ODBC \<equiv> 64"

abbreviation (input) LOCAL_FILES :: u32 where
  "LOCAL_FILES \<equiv> 128"

abbreviation (input) IGNORE_SPACE :: u32 where
  "IGNORE_SPACE \<equiv> 256"

abbreviation (input) PROTOCOL_41 :: u32 where
  "PROTOCOL_41 \<equiv> 512"

abbreviation (input) INTERACTIVE :: u32 where
  "INTERACTIVE \<equiv> 1024"

abbreviation (input) SSL :: u32 where
  "SSL \<equiv> 2048"

abbreviation (input) IGNORE_SIGPIPE :: u32 where
  "IGNORE_SIGPIPE \<equiv> 4096"

abbreviation (input) TRANSACTIONS :: u32 where
  "TRANSACTIONS \<equiv> 8192"

abbreviation (input) SECURE_CONNECTION :: u32 where
  "SECURE_CONNECTION \<equiv> 32768"

abbreviation (input) MULTI_STATEMENTS :: u32 where
  "MULTI_STATEMENTS \<equiv> 65536"

abbreviation (input) MULTI_RESULTS :: u32 where
  "MULTI_RESULTS \<equiv> 131072"

abbreviation (input) PS_MULTI_RESULTS :: u32 where
  "PS_MULTI_RESULTS \<equiv> 262144"

abbreviation (input) PLUGIN_AUTH :: u32 where
  "PLUGIN_AUTH \<equiv> 524288"

abbreviation (input) CONNECT_ATTRS :: u32 where
  "CONNECT_ATTRS \<equiv> 1048576"

abbreviation (input) PLUGIN_AUTH_LENENC_CLIENT_DATA :: u32 where
  "PLUGIN_AUTH_LENENC_CLIENT_DATA \<equiv> 2097152"

abbreviation (input) HANDLE_EXPIRED_PASSWORDS :: u32 where
  "HANDLE_EXPIRED_PASSWORDS \<equiv> 4194304"

abbreviation (input) SESSION_TRACK :: u32 where
  "SESSION_TRACK \<equiv> 8388608"

abbreviation (input) DEPRECATE_EOF :: u32 where
  "DEPRECATE_EOF \<equiv> 16777216"

abbreviation (input) CAPABILITIES :: u32 where
  "CAPABILITIES \<equiv> LONG_PASSWORD OR LONG_FLAG OR PROTOCOL_41 OR TRANSACTIONS OR SECURE_CONNECTION
     OR MULTI_RESULTS OR PLUGIN_AUTH OR PLUGIN_AUTH_LENENC_CLIENT_DATA OR CONNECT_ATTRS"

section \<open>Client-side error codes (\<open>constants/client_error.rs\<close>)\<close>

abbreviation (input) CR_UNKNOWN_ERROR :: u16 where
  "CR_UNKNOWN_ERROR \<equiv> 2000"

abbreviation (input) CR_SOCKET_CREATE_ERROR :: u16 where
  "CR_SOCKET_CREATE_ERROR \<equiv> 2001"

abbreviation (input) CR_CONNECTION_ERROR :: u16 where
  "CR_CONNECTION_ERROR \<equiv> 2002"

abbreviation (input) CR_CONN_HOST_ERROR :: u16 where
  "CR_CONN_HOST_ERROR \<equiv> 2003"

abbreviation (input) CR_IPSOCK_ERROR :: u16 where
  "CR_IPSOCK_ERROR \<equiv> 2004"

abbreviation (input) CR_UNKNOWN_HOST :: u16 where
  "CR_UNKNOWN_HOST \<equiv> 2005"

abbreviation (input) CR_SERVER_GONE_ERROR :: u16 where
  "CR_SERVER_GONE_ERROR \<equiv> 2006"

abbreviation (input) CR_VERSION_ERROR :: u16 where
  "CR_VERSION_ERROR \<equiv> 2007"

abbreviation (input) CR_OUT_OF_MEMORY :: u16 where
  "CR_OUT_OF_MEMORY \<equiv> 2008"

abbreviation (input) CR_WRONG_HOST_INFO :: u16 where
  "CR_WRONG_HOST_INFO \<equiv> 2009"

abbreviation (input) CR_LOCALHOST_CONNECTION :: u16 where
  "CR_LOCALHOST_CONNECTION \<equiv> 2010"

abbreviation (input) CR_TCP_CONNECTION :: u16 where
  "CR_TCP_CONNECTION \<equiv> 2011"

abbreviation (input) CR_SERVER_HANDSHAKE_ERR :: u16 where
  "CR_SERVER_HANDSHAKE_ERR \<equiv> 2012"

abbreviation (input) CR_SERVER_LOST :: u16 where
  "CR_SERVER_LOST \<equiv> 2013"

abbreviation (input) CR_COMMANDS_OUT_OF_SYNC :: u16 where
  "CR_COMMANDS_OUT_OF_SYNC \<equiv> 2014"

abbreviation (input) CR_NAMEDPIPE_CONNECTION :: u16 where
  "CR_NAMEDPIPE_CONNECTION \<equiv> 2015"

abbreviation (input) CR_NAMEDPIPEWAIT_ERROR :: u16 where
  "CR_NAMEDPIPEWAIT_ERROR \<equiv> 2016"

abbreviation (input) CR_NAMEDPIPEOPEN_ERROR :: u16 where
  "CR_NAMEDPIPEOPEN_ERROR \<equiv> 2017"

abbreviation (input) CR_NAMEDPIPESETSTATE_ERROR :: u16 where
  "CR_NAMEDPIPESETSTATE_ERROR \<equiv> 2018"

abbreviation (input) CR_CANT_READ_CHARSET :: u16 where
  "CR_CANT_READ_CHARSET \<equiv> 2019"

abbreviation (input) CR_NET_PACKET_TOO_LARGE :: u16 where
  "CR_NET_PACKET_TOO_LARGE \<equiv> 2020"

abbreviation (input) CR_EMBEDDED_CONNECTION :: u16 where
  "CR_EMBEDDED_CONNECTION \<equiv> 2021"

abbreviation (input) CR_PROBE_SLAVE_STATUS :: u16 where
  "CR_PROBE_SLAVE_STATUS \<equiv> 2022"

abbreviation (input) CR_PROBE_SLAVE_HOSTS :: u16 where
  "CR_PROBE_SLAVE_HOSTS \<equiv> 2023"

abbreviation (input) CR_PROBE_SLAVE_CONNECT :: u16 where
  "CR_PROBE_SLAVE_CONNECT \<equiv> 2024"

abbreviation (input) CR_PROBE_MASTER_CONNECT :: u16 where
  "CR_PROBE_MASTER_CONNECT \<equiv> 2025"

abbreviation (input) CR_SSL_CONNECTION_ERROR :: u16 where
  "CR_SSL_CONNECTION_ERROR \<equiv> 2026"

abbreviation (input) CR_MALFORMED_PACKET :: u16 where
  "CR_MALFORMED_PACKET \<equiv> 2027"

abbreviation (input) CR_WRONG_LICENSE :: u16 where
  "CR_WRONG_LICENSE \<equiv> 2028"

abbreviation (input) CR_NULL_POINTER :: u16 where
  "CR_NULL_POINTER \<equiv> 2029"

abbreviation (input) CR_NO_PREPARE_STMT :: u16 where
  "CR_NO_PREPARE_STMT \<equiv> 2030"

abbreviation (input) CR_PARAMS_NOT_BOUND :: u16 where
  "CR_PARAMS_NOT_BOUND \<equiv> 2031"

abbreviation (input) CR_DATA_TRUNCATED :: u16 where
  "CR_DATA_TRUNCATED \<equiv> 2032"

abbreviation (input) CR_NO_PARAMETERS_EXISTS :: u16 where
  "CR_NO_PARAMETERS_EXISTS \<equiv> 2033"

abbreviation (input) CR_INVALID_PARAMETER_NO :: u16 where
  "CR_INVALID_PARAMETER_NO \<equiv> 2034"

abbreviation (input) CR_INVALID_BUFFER_USE :: u16 where
  "CR_INVALID_BUFFER_USE \<equiv> 2035"

abbreviation (input) CR_UNSUPPORTED_PARAM_TYPE :: u16 where
  "CR_UNSUPPORTED_PARAM_TYPE \<equiv> 2036"

abbreviation (input) CR_SHARED_MEMORY_CONNECTION :: u16 where
  "CR_SHARED_MEMORY_CONNECTION \<equiv> 2037"

abbreviation (input) CR_AUTH_PLUGIN_CANNOT_LOAD :: u16 where
  "CR_AUTH_PLUGIN_CANNOT_LOAD \<equiv> 2059"

abbreviation (input) CR_AUTH_PLUGIN_ERR :: u16 where
  "CR_AUTH_PLUGIN_ERR \<equiv> 2061"

abbreviation (input) CR_DEPRECATED_COMPRESSION_NOT_SUPPORTED :: u16 where
  "CR_DEPRECATED_COMPRESSION_NOT_SUPPORTED \<equiv> 2065"

abbreviation (input) CR_LOAD_DATA_LOCAL_INFILE_REJECTED :: u16 where
  "CR_LOAD_DATA_LOCAL_INFILE_REJECTED \<equiv> 2068"

abbreviation (input) CR_NO_RESULT_SET :: u16 where
  "CR_NO_RESULT_SET \<equiv> 2053"

section \<open>Command bytes (\<open>constants/command.rs\<close>)\<close>

abbreviation (input) COM_SLEEP :: u8 where
  "COM_SLEEP \<equiv> 0"

abbreviation (input) COM_QUIT :: u8 where
  "COM_QUIT \<equiv> 1"

abbreviation (input) COM_INIT_DB :: u8 where
  "COM_INIT_DB \<equiv> 2"

abbreviation (input) COM_QUERY :: u8 where
  "COM_QUERY \<equiv> 3"

abbreviation (input) COM_FIELD_LIST :: u8 where
  "COM_FIELD_LIST \<equiv> 4"

abbreviation (input) COM_CREATE_DB :: u8 where
  "COM_CREATE_DB \<equiv> 5"

abbreviation (input) COM_DROP_DB :: u8 where
  "COM_DROP_DB \<equiv> 6"

abbreviation (input) COM_REFRESH :: u8 where
  "COM_REFRESH \<equiv> 7"

abbreviation (input) COM_SHUTDOWN :: u8 where
  "COM_SHUTDOWN \<equiv> 8"

abbreviation (input) COM_STATISTICS :: u8 where
  "COM_STATISTICS \<equiv> 9"

abbreviation (input) COM_PROCESS_INFO :: u8 where
  "COM_PROCESS_INFO \<equiv> 10"

abbreviation (input) COM_CONNECT :: u8 where
  "COM_CONNECT \<equiv> 11"

abbreviation (input) COM_PROCESS_KILL :: u8 where
  "COM_PROCESS_KILL \<equiv> 12"

abbreviation (input) COM_DEBUG :: u8 where
  "COM_DEBUG \<equiv> 13"

abbreviation (input) COM_PING :: u8 where
  "COM_PING \<equiv> 14"

abbreviation (input) COM_TIME :: u8 where
  "COM_TIME \<equiv> 15"

abbreviation (input) COM_DELAYED_INSERT :: u8 where
  "COM_DELAYED_INSERT \<equiv> 16"

abbreviation (input) COM_CHANGE_USER :: u8 where
  "COM_CHANGE_USER \<equiv> 17"

abbreviation (input) COM_BINLOG_DUMP :: u8 where
  "COM_BINLOG_DUMP \<equiv> 18"

abbreviation (input) COM_TABLE_DUMP :: u8 where
  "COM_TABLE_DUMP \<equiv> 19"

abbreviation (input) COM_CONNECT_OUT :: u8 where
  "COM_CONNECT_OUT \<equiv> 20"

abbreviation (input) COM_REGISTER_SLAVE :: u8 where
  "COM_REGISTER_SLAVE \<equiv> 21"

abbreviation (input) COM_STMT_PREPARE :: u8 where
  "COM_STMT_PREPARE \<equiv> 22"

abbreviation (input) COM_STMT_EXECUTE :: u8 where
  "COM_STMT_EXECUTE \<equiv> 23"

abbreviation (input) COM_STMT_SEND_LONG_DATA :: u8 where
  "COM_STMT_SEND_LONG_DATA \<equiv> 24"

abbreviation (input) COM_STMT_CLOSE :: u8 where
  "COM_STMT_CLOSE \<equiv> 25"

abbreviation (input) COM_STMT_RESET :: u8 where
  "COM_STMT_RESET \<equiv> 26"

abbreviation (input) COM_SET_OPTION :: u8 where
  "COM_SET_OPTION \<equiv> 27"

abbreviation (input) COM_STMT_FETCH :: u8 where
  "COM_STMT_FETCH \<equiv> 28"

abbreviation (input) COM_DAEMON :: u8 where
  "COM_DAEMON \<equiv> 29"

abbreviation (input) COM_BINLOG_DUMP_GTID :: u8 where
  "COM_BINLOG_DUMP_GTID \<equiv> 30"

abbreviation (input) COM_END :: u8 where
  "COM_END \<equiv> 31"

section \<open>Column types (\<open>constants/field_type.rs\<close>)\<close>

abbreviation (input) DECIMAL :: u8 where
  "DECIMAL \<equiv> 0"

abbreviation (input) TINY :: u8 where
  "TINY \<equiv> 1"

abbreviation (input) SHORT :: u8 where
  "SHORT \<equiv> 2"

abbreviation (input) LONG :: u8 where
  "LONG \<equiv> 3"

abbreviation (input) FLOAT :: u8 where
  "FLOAT \<equiv> 4"

abbreviation (input) DOUBLE :: u8 where
  "DOUBLE \<equiv> 5"

abbreviation (input) NULL :: u8 where
  "NULL \<equiv> 6"

abbreviation (input) TIMESTAMP :: u8 where
  "TIMESTAMP \<equiv> 7"

abbreviation (input) LONGLONG :: u8 where
  "LONGLONG \<equiv> 8"

abbreviation (input) INT24 :: u8 where
  "INT24 \<equiv> 9"

abbreviation (input) DATE :: u8 where
  "DATE \<equiv> 10"

abbreviation (input) TIME :: u8 where
  "TIME \<equiv> 11"

abbreviation (input) DATETIME :: u8 where
  "DATETIME \<equiv> 12"

abbreviation (input) YEAR :: u8 where
  "YEAR \<equiv> 13"

abbreviation (input) NEWDATE :: u8 where
  "NEWDATE \<equiv> 14"

abbreviation (input) VARCHAR :: u8 where
  "VARCHAR \<equiv> 15"

abbreviation (input) BIT :: u8 where
  "BIT \<equiv> 16"

abbreviation (input) JSON :: u8 where
  "JSON \<equiv> 245"

abbreviation (input) NEWDECIMAL :: u8 where
  "NEWDECIMAL \<equiv> 246"

abbreviation (input) ENUM :: u8 where
  "ENUM \<equiv> 247"

abbreviation (input) SET :: u8 where
  "SET \<equiv> 248"

abbreviation (input) TINY_BLOB :: u8 where
  "TINY_BLOB \<equiv> 249"

abbreviation (input) MEDIUM_BLOB :: u8 where
  "MEDIUM_BLOB \<equiv> 250"

abbreviation (input) LONG_BLOB :: u8 where
  "LONG_BLOB \<equiv> 251"

abbreviation (input) BLOB :: u8 where
  "BLOB \<equiv> 252"

abbreviation (input) VAR_STRING :: u8 where
  "VAR_STRING \<equiv> 253"

abbreviation (input) STRING :: u8 where
  "STRING \<equiv> 254"

abbreviation (input) GEOMETRY :: u8 where
  "GEOMETRY \<equiv> 255"

section \<open>Status flags of the server (\<open>constants/server_status.rs\<close>)\<close>

abbreviation (input) SERVER_STATUS_IN_TRANS :: u16 where
  "SERVER_STATUS_IN_TRANS \<equiv> 1"

abbreviation (input) SERVER_STATUS_AUTOCOMMIT :: u16 where
  "SERVER_STATUS_AUTOCOMMIT \<equiv> 2"

abbreviation (input) SERVER_MORE_RESULTS_EXISTS :: u16 where
  "SERVER_MORE_RESULTS_EXISTS \<equiv> 8"

abbreviation (input) SERVER_QUERY_NO_GOOD_INDEX_USED :: u16 where
  "SERVER_QUERY_NO_GOOD_INDEX_USED \<equiv> 16"

abbreviation (input) SERVER_QUERY_NO_INDEX_USED :: u16 where
  "SERVER_QUERY_NO_INDEX_USED \<equiv> 32"

abbreviation (input) SERVER_STATUS_CURSOR_EXISTS :: u16 where
  "SERVER_STATUS_CURSOR_EXISTS \<equiv> 64"

abbreviation (input) SERVER_STATUS_LAST_ROW_SENT :: u16 where
  "SERVER_STATUS_LAST_ROW_SENT \<equiv> 128"

abbreviation (input) SERVER_STATUS_DB_DROPPED :: u16 where
  "SERVER_STATUS_DB_DROPPED \<equiv> 256"

abbreviation (input) SERVER_STATUS_NO_BACKSLASH_ESCAPES :: u16 where
  "SERVER_STATUS_NO_BACKSLASH_ESCAPES \<equiv> 512"

abbreviation (input) SERVER_STATUS_METADATA_CHANGED :: u16 where
  "SERVER_STATUS_METADATA_CHANGED \<equiv> 1024"

section \<open>Server-side error codes that \<open>error_map\<close> distinguishes (\<open>constants/server_error.rs\<close>)\<close>

abbreviation (input) DB_CREATE_EXISTS :: u16 where
  "DB_CREATE_EXISTS \<equiv> 1007"

abbreviation (input) CON_COUNT_ERROR :: u16 where
  "CON_COUNT_ERROR \<equiv> 1040"

abbreviation (input) DBACCESS_DENIED_ERROR :: u16 where
  "DBACCESS_DENIED_ERROR \<equiv> 1044"

abbreviation (input) ACCESS_DENIED_ERROR :: u16 where
  "ACCESS_DENIED_ERROR \<equiv> 1045"

abbreviation (input) BAD_NULL_ERROR :: u16 where
  "BAD_NULL_ERROR \<equiv> 1048"

abbreviation (input) DUP_ENTRY :: u16 where
  "DUP_ENTRY \<equiv> 1062"

abbreviation (input) PARSE_ERROR :: u16 where
  "PARSE_ERROR \<equiv> 1064"

abbreviation (input) WRONG_DB_NAME :: u16 where
  "WRONG_DB_NAME \<equiv> 1102"

abbreviation (input) WRONG_TABLE_NAME :: u16 where
  "WRONG_TABLE_NAME \<equiv> 1103"

abbreviation (input) FIELD_SPECIFIED_TWICE :: u16 where
  "FIELD_SPECIFIED_TWICE \<equiv> 1110"

abbreviation (input) INVALID_GROUP_FUNC_USE :: u16 where
  "INVALID_GROUP_FUNC_USE \<equiv> 1111"

abbreviation (input) UNSUPPORTED_EXTENSION :: u16 where
  "UNSUPPORTED_EXTENSION \<equiv> 1112"

abbreviation (input) TABLE_MUST_HAVE_COLUMNS :: u16 where
  "TABLE_MUST_HAVE_COLUMNS \<equiv> 1113"

abbreviation (input) TABLEACCESS_DENIED_ERROR :: u16 where
  "TABLEACCESS_DENIED_ERROR \<equiv> 1142"

abbreviation (input) COLUMNACCESS_DENIED_ERROR :: u16 where
  "COLUMNACCESS_DENIED_ERROR \<equiv> 1143"

abbreviation (input) NO_SUCH_TABLE :: u16 where
  "NO_SUCH_TABLE \<equiv> 1146"

abbreviation (input) SYNTAX_ERROR :: u16 where
  "SYNTAX_ERROR \<equiv> 1149"

abbreviation (input) WRONG_COLUMN_NAME :: u16 where
  "WRONG_COLUMN_NAME \<equiv> 1166"

abbreviation (input) PRIMARY_CANT_HAVE_NULL :: u16 where
  "PRIMARY_CANT_HAVE_NULL \<equiv> 1171"

abbreviation (input) CANT_DO_THIS_DURING_AN_TRANSACTION :: u16 where
  "CANT_DO_THIS_DURING_AN_TRANSACTION \<equiv> 1179"

abbreviation (input) WARNING_NOT_COMPLETE_ROLLBACK :: u16 where
  "WARNING_NOT_COMPLETE_ROLLBACK \<equiv> 1196"

abbreviation (input) LOCK_DEADLOCK :: u16 where
  "LOCK_DEADLOCK \<equiv> 1213"

abbreviation (input) CANNOT_ADD_FOREIGN :: u16 where
  "CANNOT_ADD_FOREIGN \<equiv> 1215"

abbreviation (input) NO_REFERENCED_ROW :: u16 where
  "NO_REFERENCED_ROW \<equiv> 1216"

abbreviation (input) ROW_IS_REFERENCED :: u16 where
  "ROW_IS_REFERENCED \<equiv> 1217"

abbreviation (input) NO_DEFAULT :: u16 where
  "NO_DEFAULT \<equiv> 1230"

abbreviation (input) NOT_SUPPORTED_YET :: u16 where
  "NOT_SUPPORTED_YET \<equiv> 1235"

abbreviation (input) WARN_NULL_TO_NOTNULL :: u16 where
  "WARN_NULL_TO_NOTNULL \<equiv> 1263"

abbreviation (input) WARN_DATA_OUT_OF_RANGE :: u16 where
  "WARN_DATA_OUT_OF_RANGE \<equiv> 1264"

abbreviation (input) WARN_DATA_TRUNCATED :: u16 where
  "WARN_DATA_TRUNCATED \<equiv> 1265"

abbreviation (input) UNKNOWN_STORAGE_ENGINE :: u16 where
  "UNKNOWN_STORAGE_ENGINE \<equiv> 1286"

abbreviation (input) FEATURE_DISABLED :: u16 where
  "FEATURE_DISABLED \<equiv> 1289"

abbreviation (input) TRUNCATED_WRONG_VALUE_FOR_FIELD :: u16 where
  "TRUNCATED_WRONG_VALUE_FOR_FIELD \<equiv> 1366"

abbreviation (input) ILLEGAL_VALUE_FOR_TYPE :: u16 where
  "ILLEGAL_VALUE_FOR_TYPE \<equiv> 1367"

abbreviation (input) DATA_TOO_LONG :: u16 where
  "DATA_TOO_LONG \<equiv> 1406"

abbreviation (input) DATETIME_FUNCTION_OVERFLOW :: u16 where
  "DATETIME_FUNCTION_OVERFLOW \<equiv> 1441"

abbreviation (input) ROW_IS_REFERENCED_2 :: u16 where
  "ROW_IS_REFERENCED_2 \<equiv> 1451"

abbreviation (input) NO_REFERENCED_ROW_2 :: u16 where
  "NO_REFERENCED_ROW_2 \<equiv> 1452"

abbreviation (input) CONSTRAINT_FAILED :: u16 where
  "CONSTRAINT_FAILED \<equiv> 4025"

end
