(* ===== verification/Errors.thy ===== *)
theory Errors
  imports Constants
begin

text \<open>
  The error type of \<^verbatim>\<open>mysql-core/src/error.rs\<close>, the decoding of the server's error packets and the
  lossy UTF-8 decoding that it uses (\<open>String::from_utf8_lossy\<close> of the standard library).  A
  computation of the model fails with \<open>Fail e\<close> where the code returns \<open>Err(e)\<close>, with \<open>Panic\<close> where an
  index or a slice is out of range, and with \<open>Blocked\<close> where it awaits data that never arrive.
\<close>

section \<open>Lossy UTF-8 decoding\<close>

definition utf8_get :: "bytes \<Rightarrow> nat \<Rightarrow> u8" where
  "utf8_get bs i = (if i < length bs then bs ! i else 0)"

definition utf8_cont :: "u8 \<Rightarrow> bool" where
  "utf8_cont b \<longleftrightarrow> 128 \<le> b \<and> b \<le> 191"

definition utf8_second3 :: "u8 \<Rightarrow> u8 \<Rightarrow> bool" where
  "utf8_second3 b c \<longleftrightarrow>
     (b = 224 \<and> 160 \<le> c \<and> c \<le> 191) \<or> (225 \<le> b \<and> b \<le> 236 \<and> utf8_cont c) \<or>
     (b = 237 \<and> 128 \<le> c \<and> c \<le> 159) \<or> (238 \<le> b \<and> b \<le> 239 \<and> utf8_cont c)"

definition utf8_second4 :: "u8 \<Rightarrow> u8 \<Rightarrow> bool" where
  "utf8_second4 b c \<longleftrightarrow>
     (b = 240 \<and> 144 \<le> c \<and> c \<le> 191) \<or> (241 \<le> b \<and> b \<le> 243 \<and> utf8_cont c) \<or>
     (b = 244 \<and> 128 \<le> c \<and> c \<le> 143)"

text \<open>The next piece of a byte sequence: is it one encoded character, and how long is it.\<close>

definition utf8_step :: "bytes \<Rightarrow> bool \<times> nat" where
  "utf8_step bs =
     (let b = utf8_get bs 0; c = utf8_get bs 1 in
      if b < 128 then (True, 1)
      else if 194 \<le> b \<and> b \<le> 223 then (if utf8_cont c then (True, 2) else (False, 1))
      else if 224 \<le> b \<and> b \<le> 239 then
        (if \<not> utf8_second3 b c then (False, 1)
         else if \<not> utf8_cont (utf8_get bs 2) then (False, 2) else (True, 3))
      else if 240 \<le> b \<and> b \<le> 244 then
        (if \<not> utf8_second4 b c then (False, 1)
         else if \<not> utf8_cont (utf8_get bs 2) then (False, 2)
         else if \<not> utf8_cont (utf8_get bs 3) then (False, 3) else (True, 4))
      else (False, 1))"

lemma utf8_step_pos: "0 < snd (utf8_step bs)"
  by (simp add: utf8_step_def Let_def)

definition utf8_replacement :: string where
  "utf8_replacement = from_bytes [239, 191, 189]"

function from_utf8_lossy :: "bytes \<Rightarrow> string" where
  "from_utf8_lossy bs =
     (if bs = [] then []
      else (case utf8_step bs of (ok, n) \<Rightarrow>
        (if ok then from_bytes (take n bs) else utf8_replacement) @ from_utf8_lossy (drop n bs)))"
  by pat_completeness auto
termination
  by (relation "measure length") (auto dest: arg_cong [where f = snd] simp: utf8_step_pos
      intro: ccontr)

declare from_utf8_lossy.simps [simp del]

lemma from_utf8_lossy_Nil [simp]: "from_utf8_lossy [] = []"
  by (subst from_utf8_lossy.simps) simp

lemma from_utf8_lossy_ascii_Cons:
  "b < 128 \<Longrightarrow> from_utf8_lossy (b # bs) = char_of (unat b) # from_utf8_lossy bs"
  by (subst from_utf8_lossy.simps) (simp add: utf8_step_def utf8_get_def from_bytes_def)

text \<open>ASCII text is decoded unchanged.\<close>

lemma from_utf8_lossy_ascii: "list_all (\<lambda>b. b < 128) bs \<Longrightarrow> from_utf8_lossy bs = from_bytes bs"
  by (induction bs) (simp_all add: from_utf8_lossy_ascii_Cons from_bytes_def)

definition ascii_str :: "string \<Rightarrow> bool" where
  "ascii_str s \<longleftrightarrow> list_all (\<lambda>c. (of_char c :: nat) < 128) s"

lemma ascii_str_as_bytes: "ascii_str s \<Longrightarrow> list_all (\<lambda>b. b < 128) (as_bytes s)"
  by (simp add: ascii_str_def as_bytes_def list_all_iff word_less_nat_alt unat_byte_of_char)

lemma from_utf8_lossy_as_bytes: "ascii_str s \<Longrightarrow> from_utf8_lossy (as_bytes s) = s"
  by (simp add: from_utf8_lossy_ascii ascii_str_as_bytes)

section \<open>The error type\<close>

datatype error =
    Warning string
  | Error string
  | InterfaceError u16 string
  | DatabaseError u16 string
  | DataError u16 string
  | OperationalError u16 string
  | IntegrityError u16 string
  | InternalError u16 string
  | ProgrammingError u16 string
  | NotSupportedError u16 string
  | NeedMoreData

datatype fail = Fail error | Panic | Blocked

type_synonym ('s, 'a) rs = "('s, fail, 'a) sm"

definition err :: "error \<Rightarrow> ('s, 'a) rs" where
  "err e = throw (Fail e)"

definition panic :: "('s, 'a) rs" where
  "panic = throw Panic"

definition blocked :: "('s, 'a) rs" where
  "blocked = throw Blocked"

lemma err_panic_apply [st_simps]:
  "err e s = (Inl (Fail e), s)" "panic s = (Inl Panic, s)" "blocked s = (Inl Blocked, s)"
  by (simp_all add: err_def panic_def blocked_def throw_def)

lemma keeps_err [intro]: "keeps P (err e)" and keeps_panic [intro]: "keeps P panic"
  by (simp_all add: keeps_def err_panic_apply)

text \<open>A plain \<open>Result\<close> of the code as a computation.\<close>

definition lift_err :: "error + 'a \<Rightarrow> ('s, 'a) rs" where
  "lift_err r = (case r of Inl e \<Rightarrow> err e | Inr x \<Rightarrow> ret x)"

lemma lift_err_apply [st_simps]:
  "lift_err (Inl e) s = (Inl (Fail e), s)" "lift_err (Inr x) s = (Inr x, s)"
  by (simp_all add: lift_err_def err_panic_apply ret_def)

text \<open>The code an error carries, where it carries one.\<close>

fun error_code :: "error \<Rightarrow> u16 option" where
  "error_code (InterfaceError c m) = Some c"
| "error_code (DatabaseError c m) = Some c"
| "error_code (DataError c m) = Some c"
| "error_code (OperationalError c m) = Some c"
| "error_code (IntegrityError c m) = Some c"
| "error_code (InternalError c m) = Some c"
| "error_code (ProgrammingError c m) = Some c"
| "error_code (NotSupportedError c m) = Some c"
| "error_code _ = None"

text \<open>\<open>impl fmt::Display for Error\<close>.\<close>

definition display_coded :: "u16 \<Rightarrow> string \<Rightarrow> string" where
  "display_coded code message = dec (unat code) @ '': '' @ message"

fun fmt :: "error \<Rightarrow> string" where
  "fmt (Warning msg) = msg"
| "fmt (Error msg) = msg"
| "fmt (InterfaceError code message) = display_coded code message"
| "fmt (DatabaseError code message) = display_coded code message"
| "fmt (DataError code message) = display_coded code message"
| "fmt (OperationalError code message) = display_coded code message"
| "fmt (IntegrityError code message) = display_coded code message"
| "fmt (InternalError code message) = display_coded code message"
| "fmt (ProgrammingError code message) = display_coded code message"
| "fmt (NotSupportedError code message) = display_coded code message"
| "fmt NeedMoreData = ''Need more data''"

section \<open>Errors reported by the server\<close>

datatype error_class = Programming | Data | Integrity | NotSupported | Operational | Internal

definition programming_codes :: "u16 list" where
  "programming_codes =
     [DB_CREATE_EXISTS, SYNTAX_ERROR, PARSE_ERROR, NO_SUCH_TABLE, WRONG_DB_NAME, WRONG_TABLE_NAME,
      FIELD_SPECIFIED_TWICE, INVALID_GROUP_FUNC_USE, UNSUPPORTED_EXTENSION,
      TABLE_MUST_HAVE_COLUMNS, CANT_DO_THIS_DURING_AN_TRANSACTION, WRONG_COLUMN_NAME]"

definition data_codes :: "u16 list" where
  "data_codes =
     [WARN_DATA_TRUNCATED, WARN_NULL_TO_NOTNULL, WARN_DATA_OUT_OF_RANGE, NO_DEFAULT,
      PRIMARY_CANT_HAVE_NULL, DATA_TOO_LONG, DATETIME_FUNCTION_OVERFLOW,
      TRUNCATED_WRONG_VALUE_FOR_FIELD, ILLEGAL_VALUE_FOR_TYPE]"

definition integrity_codes :: "u16 list" where
  "integrity_codes =
     [DUP_ENTRY, NO_REFERENCED_ROW, NO_REFERENCED_ROW_2, ROW_IS_REFERENCED, ROW_IS_REFERENCED_2,
      CANNOT_ADD_FOREIGN, BAD_NULL_ERROR]"

definition not_supported_codes :: "u16 list" where
  "not_supported_codes =
     [WARNING_NOT_COMPLETE_ROLLBACK, NOT_SUPPORTED_YET, FEATURE_DISABLED, UNKNOWN_STORAGE_ENGINE]"

definition operational_codes :: "u16 list" where
  "operational_codes =
     [DBACCESS_DENIED_ERROR, ACCESS_DENIED_ERROR, CON_COUNT_ERROR, TABLEACCESS_DENIED_ERROR,
      COLUMNACCESS_DENIED_ERROR, CONSTRAINT_FAILED, LOCK_DEADLOCK]"

definition error_map :: "u16 \<Rightarrow> error_class" where
  "error_map errno =
     (if errno \<in> set programming_codes then Programming
      else if errno \<in> set data_codes then Data
      else if errno \<in> set integrity_codes then Integrity
      else if errno \<in> set not_supported_codes then NotSupported
      else if errno \<in> set operational_codes then Operational
      else if errno < 1000 then Internal else Operational)"

fun class_error :: "error_class \<Rightarrow> u16 \<Rightarrow> string \<Rightarrow> error" where
  "class_error Programming = ProgrammingError"
| "class_error Data = DataError"
| "class_error Integrity = IntegrityError"
| "class_error NotSupported = NotSupportedError"
| "class_error Operational = OperationalError"
| "class_error Internal = InternalError"

definition raise_mysql_exception :: "bytes \<Rightarrow> error" where
  "raise_mysql_exception data =
     (if length data < 3 then
        InternalError CR_MALFORMED_PACKET ''Malformed error packet: too short''
      else
        (let errno = from_le_bytes [data ! 1, data ! 2];
             errval =
               (if 3 < length data \<and> data ! 3 = 0x23
                then from_utf8_lossy (if 9 \<le> length data then drop 9 data else [])
                else from_utf8_lossy (drop 3 data))
         in class_error (error_map errno) errno errval))"

lemma class_error_code [simp]: "error_code (class_error c n m) = Some n"
  by (cases c) simp_all

lemma class_error_not_need_more [simp]: "class_error c n m \<noteq> NeedMoreData"
  by (cases c) simp_all

text \<open>The five groups of codes are disjoint, so the order of the arms of the match is immaterial.\<close>

definition classified_codes :: "u16 list" where
  "classified_codes =
     programming_codes @ data_codes @ integrity_codes @ not_supported_codes @ operational_codes"

lemma classified_codes_distinct: "distinct classified_codes"
  by (simp add: classified_codes_def programming_codes_def data_codes_def integrity_codes_def
      not_supported_codes_def operational_codes_def)

text \<open>An error packet as the server writes it, with and without the SQL state.\<close>

definition err_packet :: "u16 \<Rightarrow> bytes option \<Rightarrow> bytes \<Rightarrow> bytes" where
  "err_packet code state msg =
     0xFF # to_le_bytes code @ (case state of None \<Rightarrow> [] | Some st \<Rightarrow> 0x23 # st) @ msg"

lemma to_le_bytes_16:
  "to_le_bytes (w :: u16) = [word_of_nat (unat w mod 256), word_of_nat (unat w div 256 mod 256)]"
  by (simp add: to_le_bytes_def numeral_2_eq_2)

lemma err_packet_code:
  "from_le_bytes [err_packet c st m ! 1, err_packet c st m ! 2] = c"
  using from_to_le_bytes_u(1) [of c] by (simp add: err_packet_def to_le_bytes_16)

text \<open>C33: An \<open>ERR\<close> packet, with or without the five-character SQL state that follows a \<open>#\<close>, is turned into
  an error of the class that \<open>error_map\<close> assigns to its code, carrying that code and the decoded
  message.\<close>

theorem err_packet_classified:
  assumes "case state of None \<Rightarrow> msg = [] \<or> hd msg \<noteq> 0x23 | Some st \<Rightarrow> length st = 5"
  shows "raise_mysql_exception (err_packet code state msg) =
      class_error (error_map code) code (from_utf8_lossy msg)"
proof -
  obtain a b where e: "err_packet code state msg =
      0xFF # a # b # (case state of None \<Rightarrow> [] | Some st \<Rightarrow> 0x23 # st) @ msg"
    by (simp add: err_packet_def to_le_bytes_16)
  have c: "from_le_bytes [a, b] = code"
    using err_packet_code [of code state msg] by (simp add: e)
  show "raise_mysql_exception (err_packet code state msg) =
      class_error (error_map code) code (from_utf8_lossy msg)"
    unfolding e using assms c by (cases state; cases msg) (auto simp: raise_mysql_exception_def Let_def)
qed

theorem err_packet_classified_witness:
  "raise_mysql_exception (err_packet 1062 (Some (as_bytes ''23000'')) (as_bytes ''Duplicate'')) =
     IntegrityError 1062 ''Duplicate''"
proof -
  have "from_utf8_lossy (as_bytes ''Duplicate'') = ''Duplicate''"
    by (rule from_utf8_lossy_as_bytes) (simp add: ascii_str_def)
  with err_packet_classified [of "as_bytes ''Duplicate''" "Some (as_bytes ''23000'')" 1062]
  show ?thesis
    by (simp add: error_map_def programming_codes_def data_codes_def integrity_codes_def)
qed

end
