(* ===== verification/Charset.thy ===== *)
theory Charset
  imports Errors
begin

text \<open>
  The character set registry of \<^verbatim>\<open>mysql-core/src/charset.rs\<close>: the table that \<open>CHARSETS\<close> is filled with,
  the two hash maps built from it and the lookups.  \<open>str::to_lowercase\<close> is Unicode case mapping; it
  is the parameter \<open>lc\<close>, and \<open>lowercases_ascii\<close> states what the lookups rely on.
\<close>

record charset =
  cs_id :: u16
  cs_name :: string
  cs_collation :: string
  cs_is_default :: bool

definition mk_charset :: "u16 \<Rightarrow> string \<Rightarrow> string \<Rightarrow> bool \<Rightarrow> charset" where
  "mk_charset i n c d = \<lparr>cs_id = i, cs_name = n, cs_collation = c, cs_is_default = d\<rparr>"

definition encoding :: "charset \<Rightarrow> string" where
  "encoding c =
     (if cs_name c = ''utf8mb4'' \<or> cs_name c = ''utf8mb3'' then ''utf8''
      else if cs_name c = ''latin1'' then ''cp1252''
      else if cs_name c = ''koi8r'' then ''koi8_r''
      else if cs_name c = ''koi8u'' then ''koi8_u''
      else cs_name c)"

record charsets =
  by_id_map :: "u16 \<rightharpoonup> charset"
  by_name_map :: "string \<rightharpoonup> charset"

definition charsets_new :: charsets where
  "charsets_new = \<lparr>by_id_map = Map.empty, by_name_map = Map.empty\<rparr>"

definition charsets_add :: "charset \<Rightarrow> charsets \<Rightarrow> charsets" where
  "charsets_add c s =
     (let s' = s\<lparr>by_id_map := (by_id_map s)(cs_id c \<mapsto> c)\<rparr>
      in if cs_is_default c then s'\<lparr>by_name_map := (by_name_map s')(cs_name c \<mapsto> c)\<rparr> else s')"

definition charsets_by_id :: "charsets \<Rightarrow> u16 \<Rightarrow> charset option" where
  "charsets_by_id s i = by_id_map s i"

definition charset_key :: "(string \<Rightarrow> string) \<Rightarrow> string \<Rightarrow> string" where
  "charset_key lc name = (let lowered = lc name in if lowered = ''utf8'' then ''utf8mb4'' else lowered)"

definition charsets_by_name :: "(string \<Rightarrow> string) \<Rightarrow> charsets \<Rightarrow> string \<Rightarrow> charset option" where
  "charsets_by_name lc s name = by_name_map s (charset_key lc name)"

definition charset_table_1 :: "charset list" where
  "charset_table_1 =
     [mk_charset 1 ''big5'' ''big5_chinese_ci'' True,
      mk_charset 2 ''latin2'' ''latin2_czech_cs'' False,
      mk_charset 3 ''dec8'' ''dec8_swedish_ci'' True,
      mk_charset 4 ''cp850'' ''cp850_general_ci'' True,
      mk_charset 5 ''latin1'' ''latin1_german1_ci'' False,
      mk_charset 6 ''hp8'' ''hp8_english_ci'' True,
      mk_charset 7 ''koi8r'' ''koi8r_general_ci'' True,
      mk_charset 8 ''latin1'' ''latin1_swedish_ci'' True,
      mk_charset 9 ''latin2'' ''latin2_general_ci'' True,
      mk_charset 10 ''swe7'' ''swe7_swedish_ci'' True,
      mk_charset 11 ''ascii'' ''ascii_general_ci'' True,
      mk_charset 12 ''ujis'' ''ujis_japanese_ci'' True,
      mk_charset 13 ''sjis'' ''sjis_japanese_ci'' True,
      mk_charset 14 ''cp1251'' ''cp1251_bulgarian_ci'' False,
      mk_charset 15 ''latin1'' ''latin1_danish_ci'' False,
      mk_charset 16 ''hebrew'' ''hebrew_general_ci'' True,
      mk_charset 18 ''tis620'' ''tis620_thai_ci'' True,
      mk_charset 19 ''euckr'' ''euckr_korean_ci'' True,
      mk_charset 20 ''latin7'' ''latin7_estonian_cs'' False,
      mk_charset 21 ''latin2'' ''latin2_hungarian_ci'' False,
      mk_charset 22 ''koi8u'' ''koi8u_general_ci'' True,
      mk_charset 23 ''cp1251'' ''cp1251_ukrainian_ci'' False,
      mk_charset 24 ''gb2312'' ''gb2312_chinese_ci'' True,
      mk_charset 25 ''greek'' ''greek_general_ci'' True,
      mk_charset 26 ''cp1250'' ''cp1250_general_ci'' True]"

definition charset_table_2 :: "charset list" where
  "charset_table_2 =
     [mk_charset 27 ''latin2'' ''latin2_croatian_ci'' False,
      mk_charset 28 ''gbk'' ''gbk_chinese_ci'' True,
      mk_charset 29 ''cp1257'' ''cp1257_lithuanian_ci'' False,
      mk_charset 30 ''latin5'' ''latin5_turkish_ci'' True,
      mk_charset 31 ''latin1'' ''latin1_german2_ci'' False,
      mk_charset 32 ''armscii8'' ''armscii8_general_ci'' True,
      mk_charset 33 ''utf8mb3'' ''utf8mb3_general_ci'' True,
      mk_charset 34 ''cp1250'' ''cp1250_czech_cs'' False,
      mk_charset 36 ''cp866'' ''cp866_general_ci'' True,
      mk_charset 37 ''keybcs2'' ''keybcs2_general_ci'' True,
      mk_charset 38 ''macce'' ''macce_general_ci'' True,
      mk_charset 39 ''macroman'' ''macroman_general_ci'' True,
      mk_charset 40 ''cp852'' ''cp852_general_ci'' True,
      mk_charset 41 ''latin7'' ''latin7_general_ci'' True,
      mk_charset 42 ''latin7'' ''latin7_general_cs'' False,
      mk_charset 43 ''macce'' ''macce_bin'' False,
      mk_charset 44 ''cp1250'' ''cp1250_croatian_ci'' False,
      mk_charset 45 ''utf8mb4'' ''utf8mb4_general_ci'' True,
      mk_charset 46 ''utf8mb4'' ''utf8mb4_bin'' False,
      mk_charset 47 ''latin1'' ''latin1_bin'' False,
      mk_charset 48 ''latin1'' ''latin1_general_ci'' False,
      mk_charset 49 ''latin1'' ''latin1_general_cs'' False,
      mk_charset 50 ''cp1251'' ''cp1251_bin'' False,
      mk_charset 51 ''cp1251'' ''cp1251_general_ci'' True,
      mk_charset 52 ''cp1251'' ''cp1251_general_cs'' False]"

definition charset_table_3 :: "charset list" where
  "charset_table_3 =
     [mk_charset 53 ''macroman'' ''macroman_bin'' False,
      mk_charset 57 ''cp1256'' ''cp1256_general_ci'' True,
      mk_charset 58 ''cp1257'' ''cp1257_bin'' False,
      mk_charset 59 ''cp1257'' ''cp1257_general_ci'' True,
      mk_charset 63 ''binary'' ''binary'' True,
      mk_charset 64 ''armscii8'' ''armscii8_bin'' False,
      mk_charset 65 ''ascii'' ''ascii_bin'' False,
      mk_charset 66 ''cp1250'' ''cp1250_bin'' False,
      mk_charset 67 ''cp1256'' ''cp1256_bin'' False,
      mk_charset 68 ''cp866'' ''cp866_bin'' False,
      mk_charset 69 ''dec8'' ''dec8_bin'' False,
      mk_charset 70 ''greek'' ''greek_bin'' False,
      mk_charset 71 ''hebrew'' ''hebrew_bin'' False,
      mk_charset 72 ''hp8'' ''hp8_bin'' False,
      mk_charset 73 ''keybcs2'' ''keybcs2_bin'' False,
      mk_charset 74 ''koi8r'' ''koi8r_bin'' False,
      mk_charset 75 ''koi8u'' ''koi8u_bin'' False,
      mk_charset 76 ''utf8mb3'' ''utf8mb3_tolower_ci'' False,
      mk_charset 77 ''latin2'' ''latin2_bin'' False,
      mk_charset 78 ''latin5'' ''latin5_bin'' False,
      mk_charset 79 ''latin7'' ''latin7_bin'' False,
      mk_charset 80 ''cp850'' ''cp850_bin'' False,
      mk_charset 81 ''cp852'' ''cp852_bin'' False,
      mk_charset 82 ''swe7'' ''swe7_bin'' False,
      mk_charset 83 ''utf8mb3'' ''utf8mb3_bin'' False]"

definition charset_table_4 :: "charset list" where
  "charset_table_4 =
     [mk_charset 84 ''big5'' ''big5_bin'' False,
      mk_charset 85 ''euckr'' ''euckr_bin'' False,
      mk_charset 86 ''gb2312'' ''gb2312_bin'' False,
      mk_charset 87 ''gbk'' ''gbk_bin'' False,
      mk_charset 88 ''sjis'' ''sjis_bin'' False,
      mk_charset 89 ''tis620'' ''tis620_bin'' False,
      mk_charset 91 ''ujis'' ''ujis_bin'' False,
      mk_charset 92 ''geostd8'' ''geostd8_general_ci'' True,
      mk_charset 93 ''geostd8'' ''geostd8_bin'' False,
      mk_charset 94 ''latin1'' ''latin1_spanish_ci'' False,
      mk_charset 95 ''cp932'' ''cp932_japanese_ci'' True,
      mk_charset 96 ''cp932'' ''cp932_bin'' False,
      mk_charset 97 ''eucjpms'' ''eucjpms_japanese_ci'' True,
      mk_charset 98 ''eucjpms'' ''eucjpms_bin'' False,
      mk_charset 99 ''cp1250'' ''cp1250_polish_ci'' False,
      mk_charset 192 ''utf8mb3'' ''utf8mb3_unicode_ci'' False,
      mk_charset 193 ''utf8mb3'' ''utf8mb3_icelandic_ci'' False,
      mk_charset 194 ''utf8mb3'' ''utf8mb3_latvian_ci'' False,
      mk_charset 195 ''utf8mb3'' ''utf8mb3_romanian_ci'' False,
      mk_charset 196 ''utf8mb3'' ''utf8mb3_slovenian_ci'' False,
      mk_charset 197 ''utf8mb3'' ''utf8mb3_polish_ci'' False,
      mk_charset 198 ''utf8mb3'' ''utf8mb3_estonian_ci'' False,
      mk_charset 199 ''utf8mb3'' ''utf8mb3_spanish_ci'' False,
      mk_charset 200 ''utf8mb3'' ''utf8mb3_swedish_ci'' False,
      mk_charset 201 ''utf8mb3'' ''utf8mb3_turkish_ci'' False]"

definition charset_table_5 :: "charset list" where
  "charset_table_5 =
     [mk_charset 202 ''utf8mb3'' ''utf8mb3_czech_ci'' False,
      mk_charset 203 ''utf8mb3'' ''utf8mb3_danish_ci'' False,
      mk_charset 204 ''utf8mb3'' ''utf8mb3_lithuanian_ci'' False,
      mk_charset 205 ''utf8mb3'' ''utf8mb3_slovak_ci'' False,
      mk_charset 206 ''utf8mb3'' ''utf8mb3_spanish2_ci'' False,
      mk_charset 207 ''utf8mb3'' ''utf8mb3_roman_ci'' False,
      mk_charset 208 ''utf8mb3'' ''utf8mb3_persian_ci'' False,
      mk_charset 209 ''utf8mb3'' ''utf8mb3_esperanto_ci'' False,
      mk_charset 210 ''utf8mb3'' ''utf8mb3_hungarian_ci'' False,
      mk_charset 211 ''utf8mb3'' ''utf8mb3_sinhala_ci'' False,
      mk_charset 212 ''utf8mb3'' ''utf8mb3_german2_ci'' False,
      mk_charset 213 ''utf8mb3'' ''utf8mb3_croatian_ci'' False,
      mk_charset 214 ''utf8mb3'' ''utf8mb3_unicode_520_ci'' False,
      mk_charset 215 ''utf8mb3'' ''utf8mb3_vietnamese_ci'' False,
      mk_charset 223 ''utf8mb3'' ''utf8mb3_general_mysql500_ci'' False,
      mk_charset 224 ''utf8mb4'' ''utf8mb4_unicode_ci'' False,
      mk_charset 225 ''utf8mb4'' ''utf8mb4_icelandic_ci'' False,
      mk_charset 226 ''utf8mb4'' ''utf8mb4_latvian_ci'' False,
      mk_charset 227 ''utf8mb4'' ''utf8mb4_romanian_ci'' False,
      mk_charset 228 ''utf8mb4'' ''utf8mb4_slovenian_ci'' False,
      mk_charset 229 ''utf8mb4'' ''utf8mb4_polish_ci'' False,
      mk_charset 230 ''utf8mb4'' ''utf8mb4_estonian_ci'' False,
      mk_charset 231 ''utf8mb4'' ''utf8mb4_spanish_ci'' False,
      mk_charset 232 ''utf8mb4'' ''utf8mb4_swedish_ci'' False,
      mk_charset 233 ''utf8mb4'' ''utf8mb4_turkish_ci'' False]"

definition charset_table_6 :: "charset list" where
  "charset_table_6 =
     [mk_charset 234 ''utf8mb4'' ''utf8mb4_czech_ci'' False,
      mk_charset 235 ''utf8mb4'' ''utf8mb4_danish_ci'' False,
      mk_charset 236 ''utf8mb4'' ''utf8mb4_lithuanian_ci'' False,
      mk_charset 237 ''utf8mb4'' ''utf8mb4_slovak_ci'' False,
      mk_charset 238 ''utf8mb4'' ''utf8mb4_spanish2_ci'' False,
      mk_charset 239 ''utf8mb4'' ''utf8mb4_roman_ci'' False,
      mk_charset 240 ''utf8mb4'' ''utf8mb4_persian_ci'' False,
      mk_charset 241 ''utf8mb4'' ''utf8mb4_esperanto_ci'' False,
      mk_charset 242 ''utf8mb4'' ''utf8mb4_hungarian_ci'' False,
      mk_charset 243 ''utf8mb4'' ''utf8mb4_sinhala_ci'' False,
      mk_charset 244 ''utf8mb4'' ''utf8mb4_german2_ci'' False,
      mk_charset 245 ''utf8mb4'' ''utf8mb4_croatian_ci'' False,
      mk_charset 246 ''utf8mb4'' ''utf8mb4_unicode_520_ci'' False,
      mk_charset 247 ''utf8mb4'' ''utf8mb4_vietnamese_ci'' False,
      mk_charset 248 ''gb18030'' ''gb18030_chinese_ci'' True,
      mk_charset 249 ''gb18030'' ''gb18030_bin'' False,
      mk_charset 250 ''gb18030'' ''gb18030_unicode_520_ci'' False,
      mk_charset 255 ''utf8mb4'' ''utf8mb4_0900_ai_ci'' False]"

definition charset_table :: "charset list" where
  "charset_table =
     charset_table_1 @ charset_table_2 @ charset_table_3 @
     charset_table_4 @ charset_table_5 @ charset_table_6"

definition CHARSETS :: charsets where
  "CHARSETS = fold charsets_add charset_table charsets_new"

definition charset_by_id :: "u16 \<Rightarrow> charset option" where
  "charset_by_id i = charsets_by_id CHARSETS i"

definition charset_by_name :: "(string \<Rightarrow> string) \<Rightarrow> string \<Rightarrow> charset option" where
  "charset_by_name lc name = charsets_by_name lc CHARSETS name"

definition mblength :: "u16 \<Rightarrow> nat" where
  "mblength charsetnr =
     (if charsetnr \<in> set [255, 248] then 4
      else if charsetnr \<in> set [97, 98, 91] then 3
      else if charsetnr \<in> set [28, 87, 24, 86, 1, 19, 85, 95, 96, 13] then 2
      else 1)"

section \<open>Lowercasing\<close>

definition ascii_lower :: "char \<Rightarrow> char" where
  "ascii_lower c =
     (let n = (of_char c :: nat) in if 65 \<le> n \<and> n \<le> 90 then char_of (n + 32) else c)"

definition lowercases_ascii :: "(string \<Rightarrow> string) \<Rightarrow> bool" where
  "lowercases_ascii lc \<longleftrightarrow> (\<forall>s. ascii_str s \<longrightarrow> lc s = map ascii_lower s)"

lemma lowercases_ascii_map: "lowercases_ascii (map ascii_lower)"
  by (simp add: lowercases_ascii_def)

section \<open>What the registry holds\<close>

lemma fold_add_by_id:
  "by_id_map (fold charsets_add cs s) = by_id_map s ++ map_of (rev (map (\<lambda>c. (cs_id c, c)) cs))"
  by (induction cs arbitrary: s) (auto simp: charsets_add_def Let_def fun_eq_iff map_add_def
      split: option.splits)

lemma fold_add_by_name:
  "by_name_map (fold charsets_add cs s) =
     by_name_map s ++ map_of (rev (map (\<lambda>c. (cs_name c, c)) (filter cs_is_default cs)))"
  by (induction cs arbitrary: s) (auto simp: charsets_add_def Let_def fun_eq_iff map_add_def
      split: option.splits)

lemma map_of_keyed:
  "distinct (map f cs) \<Longrightarrow> map_of (rev (map (\<lambda>c. (f c, c)) cs)) k = Some c \<longleftrightarrow> c \<in> set cs \<and> f c = k"
proof -
  assume d: "distinct (map f cs)"
  have "distinct (map fst (rev (map (\<lambda>c. (f c, c)) cs)))"
    using d by (simp add: rev_map [symmetric] comp_def)
  then have "map_of (rev (map (\<lambda>c. (f c, c)) cs)) k = Some c \<longleftrightarrow>
      (k, c) \<in> set (rev (map (\<lambda>c. (f c, c)) cs))"
    by (rule map_of_eq_Some_iff)
  then show ?thesis by auto
qed

lemmas charset_table_defs =
  charset_table_1_def charset_table_2_def charset_table_3_def charset_table_4_def
  charset_table_5_def charset_table_6_def

text \<open>The table is in increasing order of identifiers, so no identifier is entered twice.\<close>

lemma charset_table_ids_sorted: "sorted_wrt (<) (map cs_id charset_table)"
  by (simp add: charset_table_def charset_table_defs mk_charset_def sorted_wrt2 sorted_wrt1
      del: sorted_wrt.simps(2))

lemma charset_table_ids_distinct: "distinct (map cs_id charset_table)"
  using charset_table_ids_sorted by (rule strict_sorted_iff [THEN iffD1, THEN conjunct2])

lemma charset_defaults:
  "map cs_name (filter cs_is_default charset_table) =
     [''big5'', ''dec8'', ''cp850'', ''hp8'', ''koi8r'', ''latin1'', ''latin2'', ''swe7'', ''ascii'',
      ''ujis'', ''sjis'', ''hebrew'', ''tis620'', ''euckr'', ''koi8u'', ''gb2312'', ''greek'',
      ''cp1250'', ''gbk'', ''latin5'', ''armscii8'', ''utf8mb3'', ''cp866'', ''keybcs2'', ''macce'',
      ''macroman'', ''cp852'', ''latin7'', ''utf8mb4'', ''cp1251'', ''cp1256'', ''cp1257'', ''binary'',
      ''geostd8'', ''cp932'', ''eucjpms'', ''gb18030'']"
  by (simp add: charset_table_def charset_table_defs mk_charset_def)

lemma charset_default_names_distinct: "distinct (map cs_name (filter cs_is_default charset_table))"
  unfolding charset_defaults by simp

section \<open>The lookups\<close>

lemma charset_names_default:
  "list_all (\<lambda>c. cs_name c \<in> set (map cs_name (filter cs_is_default charset_table))) charset_table"
  unfolding charset_defaults by code_simp

lemma default_names_lower:
  assumes "lowercases_ascii lc" and "n \<in> set (map cs_name (filter cs_is_default charset_table))"
  shows "charset_key lc n = n"
proof -
  have "list_all (\<lambda>n. ascii_str n \<and> map ascii_lower n = n \<and> n \<noteq> ''utf8'')
      (map cs_name (filter cs_is_default charset_table))"
    unfolding charset_defaults by (simp add: ascii_str_def ascii_lower_def)
  with assms show ?thesis
    by (auto simp: list_all_iff lowercases_ascii_def charset_key_def)
qed

lemma charset_by_name_iff:
  "charset_by_name lc name = Some c \<longleftrightarrow>
     c \<in> set charset_table \<and> cs_is_default c \<and> cs_name c = charset_key lc name"
  using map_of_keyed [OF charset_default_names_distinct, of "charset_key lc name" c]
  by (auto simp: charset_by_name_def charsets_by_name_def CHARSETS_def fold_add_by_name charsets_new_def)

lemma utf8mb4_found:
  "charset_by_name (map ascii_lower) ''utf8mb4'' = Some (mk_charset 45 ''utf8mb4'' ''utf8mb4_general_ci'' True)"
  unfolding charset_by_name_iff
  by (simp add: charset_key_def ascii_lower_def charset_table_def charset_table_2_def mk_charset_def)

text \<open>Looking a collation up by its identifier finds exactly the row of the table with that
  identifier.\<close>

lemma charset_by_id_correct:
  "charset_by_id i = Some c \<longleftrightarrow> c \<in> set charset_table \<and> cs_id c = i"
  using map_of_keyed [OF charset_table_ids_distinct, of i c]
  by (simp add: charset_by_id_def charsets_by_id_def CHARSETS_def fold_add_by_id charsets_new_def)

text \<open>Looking a character set up by its name finds exactly the default collation of that name, the
  name being lowercased first and \<open>utf8\<close> standing for \<open>utf8mb4\<close>.\<close>

lemma charset_by_name_correct:
  "charset_by_name lc name = Some c \<longleftrightarrow>
     c \<in> set charset_table \<and> cs_is_default c \<and> cs_name c = charset_key lc name"
  by (rule charset_by_name_iff)

text \<open>Every character set named in the table has a default collation, so the name of any row can be
  used to connect.\<close>

lemma charset_names_resolve:
  assumes "lowercases_ascii lc" and "c \<in> set charset_table"
  shows "\<exists>d. charset_by_name lc (cs_name c) = Some d \<and> cs_name d = cs_name c \<and> cs_is_default d"
proof -
  have mem: "cs_name c \<in> set (map cs_name (filter cs_is_default charset_table))"
    using assms(2) charset_names_default by (simp add: list_all_iff)
  then obtain d where d: "d \<in> set charset_table" "cs_is_default d" "cs_name d = cs_name c" by auto
  then have "charset_by_name lc (cs_name c) = Some d"
    using default_names_lower [OF assms(1) mem] by (simp add: charset_by_name_iff)
  with d show ?thesis by auto
qed

lemma charset_names_resolve_instance:
  "\<exists>d. charset_by_name (map ascii_lower) ''utf8mb4'' = Some d \<and> cs_name d = ''utf8mb4'' \<and> cs_is_default d"
proof -
  have "mk_charset 255 ''utf8mb4'' ''utf8mb4_0900_ai_ci'' False \<in> set charset_table"
    by (simp add: charset_table_def charset_table_6_def)
  from charset_names_resolve [OF lowercases_ascii_map this] show ?thesis
    by (simp add: mk_charset_def)
qed

end
