(* ===== verification/Protocol.thy ===== *)
theory Protocol
  imports Charset
begin

text \<open>
  The packet cursor of \<^verbatim>\<open>mysql-core/src/protocol.rs\<close> with its readers, the packet classifiers and the
  wrappers that decode column definitions and OK, EOF and LOAD LOCAL packets, together with
  \<open>lenenc_int\<close> of \<^verbatim>\<open>mysql-core/src/connection.rs\<close>, the encoder of the same integers.

  The character decoders of \<open>encoding_rs\<close> are a parameter (record \<open>encodings\<close>).
\<close>

section \<open>The packet cursor\<close>

record mysql_packet =
  pkt_position :: nat
  pkt_data :: bytes

definition packet_new :: "bytes \<Rightarrow> mysql_packet" where
  "packet_new d = \<lparr>pkt_position = 0, pkt_data = d\<rparr>"

definition get_all_data :: "mysql_packet \<Rightarrow> bytes" where
  "get_all_data p = pkt_data p"

text \<open>\<open>{:?}\<close> of a byte vector, for the error message of \<open>read\<close>.\<close>

fun join_with :: "string \<Rightarrow> string list \<Rightarrow> string" where
  "join_with sep [] = []"
| "join_with sep [x] = x"
| "join_with sep (x # xs) = x @ sep @ join_with sep xs"

definition debug_bytes :: "bytes \<Rightarrow> string" where
  "debug_bytes bs = ''['' @ join_with '', '' (map (\<lambda>b. dec (unat b)) bs) @ '']''"

definition usize_max :: nat where
  "usize_max = 2 ^ 64 - 1"

definition read :: "nat \<Rightarrow> (mysql_packet, bytes) rs" where
  "read sz p =
     (let end_pos = pkt_position p + sz in
      if usize_max < end_pos then
        err (InternalError CR_MALFORMED_PACKET
          (''Read size overflow: Position='' @ dec (pkt_position p) @ '', Size='' @ dec sz)) p
      else if length (pkt_data p) < end_pos then
        err (InternalError CR_MALFORMED_PACKET
          (''Result length not requested length: Expected='' @ dec sz @
           '', Actual='' @ dec (length (pkt_data p) - pkt_position p) @
           '', Position='' @ dec (pkt_position p) @
           '', Data Length='' @ dec (length (pkt_data p)) @
           '', Data='' @ debug_bytes (pkt_data p))) p
      else (Inr (slice_of (pkt_position p) end_pos (pkt_data p)), p\<lparr>pkt_position := end_pos\<rparr>))"

definition read_all :: "(mysql_packet, bytes) rs" where
  "read_all p =
     (if length (pkt_data p) < pkt_position p then panic p
      else (Inr (drop (pkt_position p) (pkt_data p)), p\<lparr>pkt_position := length (pkt_data p)\<rparr>))"

definition advance :: "nat \<Rightarrow> (mysql_packet, unit) rs" where
  "advance len p =
     (let new_position = pkt_position p + len in
      if usize_max < new_position then
        err (InternalError CR_MALFORMED_PACKET
          (''Advance amount overflow: Position='' @ dec (pkt_position p) @ '', Length='' @ dec len)) p
      else if length (pkt_data p) < new_position then
        err (InternalError CR_MALFORMED_PACKET
          (''Invalid advance amount ('' @ dec len @ '') for cursor. Position='' @ dec new_position)) p
      else (Inr (), p\<lparr>pkt_position := new_position\<rparr>))"

definition rewind :: "nat \<Rightarrow> (mysql_packet, unit) rs" where
  "rewind pos p =
     (if length (pkt_data p) < pos then
        err (InternalError CR_MALFORMED_PACKET
          (''Invalid position to rewind cursor to: '' @ dec pos)) p
      else (Inr (), p\<lparr>pkt_position := pos\<rparr>))"

definition read_uint8 :: "(mysql_packet, u8) rs" where
  "read_uint8 = bind_st (read 1) (\<lambda>bs. ret (bs ! 0))"

definition read_uint16 :: "(mysql_packet, u16) rs" where
  "read_uint16 = bind_st (read 2) (\<lambda>bs. ret (from_le_bytes [bs ! 0, bs ! 1]))"

definition read_uint24 :: "(mysql_packet, u32) rs" where
  "read_uint24 = bind_st (read 3) (\<lambda>bs. ret (from_le_bytes [bs ! 0, bs ! 1, bs ! 2, 0]))"

definition read_uint32 :: "(mysql_packet, u32) rs" where
  "read_uint32 = bind_st (read 4) (\<lambda>bs. ret (from_le_bytes [bs ! 0, bs ! 1, bs ! 2, bs ! 3]))"

definition read_uint64 :: "(mysql_packet, u64) rs" where
  "read_uint64 = bind_st (read 8) (\<lambda>bs. ret (from_le_bytes
     [bs ! 0, bs ! 1, bs ! 2, bs ! 3, bs ! 4, bs ! 5, bs ! 6, bs ! 7]))"

definition read_string :: "(mysql_packet, bytes option) rs" where
  "read_string p =
     (if length (pkt_data p) < pkt_position p then panic p
      else (case find_index (\<lambda>b. b = 0) (drop (pkt_position p) (pkt_data p)) of
        Some k \<Rightarrow> (let end_pos = pkt_position p + k in
          (Inr (Some (slice_of (pkt_position p) end_pos (pkt_data p))),
           p\<lparr>pkt_position := end_pos + 1\<rparr>))
      | None \<Rightarrow> (Inr None, p)))"

abbreviation (input) NULL_COLUMN :: u8 where
  "NULL_COLUMN \<equiv> 251"

abbreviation (input) UNSIGNED_CHAR_COLUMN :: u8 where
  "UNSIGNED_CHAR_COLUMN \<equiv> 251"

abbreviation (input) UNSIGNED_SHORT_COLUMN :: u8 where
  "UNSIGNED_SHORT_COLUMN \<equiv> 252"

abbreviation (input) UNSIGNED_INT24_COLUMN :: u8 where
  "UNSIGNED_INT24_COLUMN \<equiv> 253"

abbreviation (input) UNSIGNED_INT64_COLUMN :: u8 where
  "UNSIGNED_INT64_COLUMN \<equiv> 254"

definition read_length_encoded_integer :: "(mysql_packet, u64 option) rs" where
  "read_length_encoded_integer = bind_st read_uint8 (\<lambda>c.
     if c = NULL_COLUMN then ret None
     else if c < UNSIGNED_CHAR_COLUMN then ret (Some (ucast c))
     else if c = UNSIGNED_SHORT_COLUMN then bind_st read_uint16 (\<lambda>v. ret (Some (ucast v)))
     else if c = UNSIGNED_INT24_COLUMN then bind_st read_uint24 (\<lambda>v. ret (Some (ucast v)))
     else if c = UNSIGNED_INT64_COLUMN then bind_st read_uint64 (\<lambda>v. ret (Some v))
     else err (InternalError CR_MALFORMED_PACKET
       (''Invalid length encoded integer header: '' @ dec (unat c))))"

definition read_length_coded_string :: "(mysql_packet, bytes option) rs" where
  "read_length_coded_string = bind_st read_length_encoded_integer (\<lambda>len.
     case len of
       None \<Rightarrow> ret None
     | Some n \<Rightarrow> bind_st (read (unat n)) (\<lambda>bs. ret (Some bs)))"

text \<open>\<open>lenenc_int\<close> of \<^verbatim>\<open>connection.rs\<close>.\<close>

definition lenenc_int :: "nat \<Rightarrow> bytes" where
  "lenenc_int i =
     (if i < 0xFB then [word_of_nat i]
      else if i < 2 ^ 16 then 0xFC # le_bytes 2 i
      else if i < 2 ^ 24 then 0xFD # le_bytes 3 i
      else 0xFE # le_bytes 8 i)"

section \<open>Packet kinds\<close>

definition first_byte :: "bytes \<Rightarrow> u8 option" where
  "first_byte d = (case d of [] \<Rightarrow> None | b # _ \<Rightarrow> Some b)"

definition is_ok_packet :: "mysql_packet \<Rightarrow> bool" where
  "is_ok_packet p \<longleftrightarrow> first_byte (pkt_data p) = Some 0 \<and> 7 \<le> length (pkt_data p)"

definition is_eof_packet :: "mysql_packet \<Rightarrow> bool" where
  "is_eof_packet p \<longleftrightarrow> first_byte (pkt_data p) = Some 0xFE \<and> length (pkt_data p) < 9"

definition is_auth_switch_request :: "mysql_packet \<Rightarrow> bool" where
  "is_auth_switch_request p \<longleftrightarrow> first_byte (pkt_data p) = Some 0xFE \<and> 8 \<le> length (pkt_data p)"

definition is_extra_auth_data :: "mysql_packet \<Rightarrow> bool" where
  "is_extra_auth_data p \<longleftrightarrow> first_byte (pkt_data p) = Some 1"

definition is_resultset_packet :: "mysql_packet \<Rightarrow> bool" where
  "is_resultset_packet p \<longleftrightarrow>
     (case first_byte (pkt_data p) of Some n \<Rightarrow> 1 \<le> n \<and> n \<le> 250 | None \<Rightarrow> False)"

definition is_load_local_packet :: "mysql_packet \<Rightarrow> bool" where
  "is_load_local_packet p \<longleftrightarrow> first_byte (pkt_data p) = Some 0xFB"

definition is_error_packet :: "mysql_packet \<Rightarrow> bool" where
  "is_error_packet p \<longleftrightarrow> first_byte (pkt_data p) = Some 0xFF"

definition check_error :: "mysql_packet \<Rightarrow> fail + unit" where
  "check_error p =
     (if is_error_packet p then Inl (Fail (raise_mysql_exception (pkt_data p))) else Inr ())"

definition raise_for_error :: "mysql_packet \<Rightarrow> error" where
  "raise_for_error p = raise_mysql_exception (pkt_data p)"

section \<open>Column definitions\<close>

record column_description =
  cd_name :: string
  cd_type_code :: u8
  cd_internal_size :: u32
  cd_precision :: u32
  cd_scale :: u8
  cd_null_ok :: bool

record field_descriptor_packet =
  fd_catalog :: "bytes option"
  fd_db :: "bytes option"
  fd_table_name :: string
  fd_org_table :: string
  fd_name :: string
  fd_org_name :: string
  fd_charsetnr :: u16
  fd_length :: u32
  fd_type_code :: u8
  fd_flags :: u16
  fd_scale :: u8

text \<open>
  \<open>encoding_rs\<close>: the encoding a label names, the UTF-8 encoding, and the decoding of bytes with
  replacement of malformed sequences.
\<close>

record encodings =
  for_label :: "bytes \<Rightarrow> nat option"
  utf8_encoding :: nat
  decode :: "nat \<Rightarrow> bytes \<Rightarrow> string"

definition decode_label :: "encodings \<Rightarrow> string \<Rightarrow> bytes \<Rightarrow> string" where
  "decode_label C label bs =
     decode C (case for_label C (as_bytes label) of Some e \<Rightarrow> e | None \<Rightarrow> utf8_encoding C) bs"

definition decode_or_empty :: "encodings \<Rightarrow> bytes option \<Rightarrow> string \<Rightarrow> string" where
  "decode_or_empty C d label = (case d of Some bs \<Rightarrow> decode_label C label bs | None \<Rightarrow> [])"

text \<open>\<open>{:02x}\<close> of a byte.\<close>

definition hex_lower :: "nat \<Rightarrow> char" where
  "hex_lower n = (if n < 10 then char_of (48 + n) else char_of (87 + n))"

definition hex02 :: "u8 \<Rightarrow> string" where
  "hex02 b = [hex_lower (unat b div 16), hex_lower (unat b mod 16)]"

definition parse_fields :: "encodings \<Rightarrow> string \<Rightarrow> (mysql_packet, field_descriptor_packet) rs" where
  "parse_fields C enc =
     bind_st read_length_coded_string (\<lambda>catalog.
     bind_st read_length_coded_string (\<lambda>db.
     bind_st read_length_coded_string (\<lambda>table_name.
     bind_st read_length_coded_string (\<lambda>org_table.
     bind_st read_length_coded_string (\<lambda>name.
     bind_st read_length_coded_string (\<lambda>org_name.
     bind_st read_uint8 (\<lambda>filler.
     if filler \<noteq> 0x0c then
       err (InternalError CR_MALFORMED_PACKET
         (''Invalid field descriptor filler: expected 0x0c, got 0x'' @ hex02 filler))
     else
     bind_st read_uint16 (\<lambda>charsetnr.
     bind_st read_uint32 (\<lambda>len.
     bind_st read_uint8 (\<lambda>type_code.
     bind_st read_uint16 (\<lambda>flags.
     bind_st read_uint8 (\<lambda>scale.
     ret \<lparr>fd_catalog = catalog, fd_db = db,
          fd_table_name = decode_or_empty C table_name enc,
          fd_org_table = decode_or_empty C org_table enc,
          fd_name = decode_or_empty C name enc,
          fd_org_name = decode_or_empty C org_name enc,
          fd_charsetnr = charsetnr, fd_length = len, fd_type_code = type_code,
          fd_flags = flags, fd_scale = scale\<rparr>))))))))))))"

definition field_parse :: "encodings \<Rightarrow> bytes \<Rightarrow> string \<Rightarrow> fail + field_descriptor_packet" where
  "field_parse C d enc = fst (parse_fields C enc (packet_new d))"

definition get_column_length :: "field_descriptor_packet \<Rightarrow> u32" where
  "get_column_length f =
     (if fd_type_code f = VAR_STRING
      then fd_length f div word_of_nat (mblength (fd_charsetnr f))
      else fd_length f)"

definition description :: "field_descriptor_packet \<Rightarrow> column_description" where
  "description f =
     (let column_length = get_column_length f in
      \<lparr>cd_name = fd_name f, cd_type_code = fd_type_code f, cd_internal_size = column_length,
       cd_precision = column_length, cd_scale = fd_scale f, cd_null_ok = even (unat (fd_flags f))\<rparr>)"

section \<open>OK, EOF and LOAD LOCAL packets\<close>

record ok_packet_wrapper =
  ok_affected_rows :: "u64 option"
  ok_insert_id :: "u64 option"
  ok_server_status :: u16
  ok_warning_count :: u16
  ok_message :: bytes
  ok_has_next :: bool

definition ok_from_packet :: "(mysql_packet, ok_packet_wrapper) rs" where
  "ok_from_packet p =
     (if \<not> is_ok_packet p then
        err (InternalError CR_MALFORMED_PACKET
          ''Cannot create OkPacketWrapper from invalid packet type'') p
      else
        (bind_st (advance 1) (\<lambda>_.
         bind_st read_length_encoded_integer (\<lambda>affected_rows.
         bind_st read_length_encoded_integer (\<lambda>insert_id.
         bind_st read_uint16 (\<lambda>server_status.
         bind_st read_uint16 (\<lambda>warning_count.
         bind_st read_all (\<lambda>message.
         ret \<lparr>ok_affected_rows = affected_rows, ok_insert_id = insert_id,
              ok_server_status = server_status, ok_warning_count = warning_count,
              ok_message = message,
              ok_has_next = (server_status AND SERVER_MORE_RESULTS_EXISTS \<noteq> 0)\<rparr>)))))))  p)"

record eof_packet_wrapper =
  eof_warning_count :: u16
  eof_server_status :: u16
  eof_has_next :: bool

definition eof_from_packet :: "(mysql_packet, eof_packet_wrapper) rs" where
  "eof_from_packet p =
     (if \<not> is_eof_packet p then
        err (InternalError CR_MALFORMED_PACKET
          ''Cannot create EofPacketWrapper from invalid packet type'') p
      else
        (bind_st (advance 1) (\<lambda>_.
         bind_st read_uint16 (\<lambda>warning_count.
         bind_st read_uint16 (\<lambda>server_status.
         ret \<lparr>eof_warning_count = warning_count, eof_server_status = server_status,
              eof_has_next = (server_status AND SERVER_MORE_RESULTS_EXISTS \<noteq> 0)\<rparr>)))) p)"

definition load_local_from_packet :: "mysql_packet \<Rightarrow> fail + bytes" where
  "load_local_from_packet p =
     (if \<not> is_load_local_packet p then
        Inl (Fail (InternalError CR_MALFORMED_PACKET
          ''Cannot create LoadLocalPacketWrapper from invalid packet type''))
      else Inr (drop 1 (get_all_data p)))"

section \<open>Readers are safe\<close>

text \<open>
  The cursor never leaves the packet: a reader keeps the data, only moves forward, ends inside the
  packet and does not panic.  The rules follow the combinators, so the composite readers need no
  proof of their own.
\<close>

definition pkt_wf :: "mysql_packet \<Rightarrow> bool" where
  "pkt_wf p \<longleftrightarrow> pkt_position p \<le> length (pkt_data p)"

definition safe_reader :: "(mysql_packet, 'a) rs \<Rightarrow> bool" where
  "safe_reader m \<longleftrightarrow> (\<forall>p. pkt_wf p \<longrightarrow>
     pkt_data (snd (m p)) = pkt_data p \<and> pkt_position p \<le> pkt_position (snd (m p)) \<and>
     pkt_wf (snd (m p)) \<and> fst (m p) \<noteq> Inl Panic)"

named_theorems safe_intros \<open>readers that keep the cursor inside the packet\<close>

lemma safe_ret [safe_intros]: "safe_reader (ret x)"
  by (simp add: safe_reader_def ret_def)

lemma safe_err [safe_intros]: "safe_reader (err e)"
  by (simp add: safe_reader_def err_panic_apply)

lemma safe_bind [safe_intros]:
  assumes m: "safe_reader m" and f: "\<And>x. safe_reader (f x)"
  shows "safe_reader (bind_st m f)"
  unfolding safe_reader_def
proof (intro allI impI)
  fix p assume "pkt_wf p"
  obtain r p1 where mp: "m p = (r, p1)" by fastforce
  have p1: "pkt_data p1 = pkt_data p" "pkt_position p \<le> pkt_position p1"
      "pkt_wf p1" "r \<noteq> Inl Panic"
    using m [unfolded safe_reader_def, rule_format, OF \<open>pkt_wf p\<close>] by (simp_all add: mp)
  show "pkt_data (snd (bind_st m f p)) = pkt_data p \<and>
      pkt_position p \<le> pkt_position (snd (bind_st m f p)) \<and>
      pkt_wf (snd (bind_st m f p)) \<and> fst (bind_st m f p) \<noteq> Inl Panic"
  proof (cases r)
    case (Inl e)
    with mp p1 show ?thesis by (simp add: bind_st_def)
  next
    case (Inr x)
    from f [unfolded safe_reader_def, rule_format, OF p1(3), of x] p1 show ?thesis
      by (simp add: bind_st_def mp Inr)
  qed
qed

lemma safe_if [safe_intros]:
  "safe_reader a \<Longrightarrow> safe_reader b \<Longrightarrow> safe_reader (if c then a else b)"
  by simp

lemma safe_case_option [safe_intros]:
  "safe_reader a \<Longrightarrow> (\<And>x. safe_reader (f x)) \<Longrightarrow>
     safe_reader (case v of None \<Rightarrow> a | Some x \<Rightarrow> f x)"
  by (simp split: option.splits)

lemma safe_read [safe_intros]: "safe_reader (read n)"
  by (simp add: safe_reader_def read_def Let_def err_panic_apply pkt_wf_def)

lemma safe_read_all [safe_intros]: "safe_reader read_all"
  by (simp add: safe_reader_def read_all_def pkt_wf_def err_panic_apply)

lemma safe_advance [safe_intros]: "safe_reader (advance n)"
  by (simp add: safe_reader_def advance_def Let_def err_panic_apply pkt_wf_def)

lemma safe_read_string [safe_intros]: "safe_reader read_string"
  by (auto simp: safe_reader_def read_string_def Let_def pkt_wf_def
      split: option.splits dest!: find_index_Some)

lemma safe_uints [safe_intros]:
  "safe_reader read_uint8" "safe_reader read_uint16" "safe_reader read_uint24"
  "safe_reader read_uint32" "safe_reader read_uint64"
  unfolding read_uint8_def read_uint16_def read_uint24_def read_uint32_def read_uint64_def
  by (intro safe_intros)+

lemma safe_lenenc [safe_intros]:
  "safe_reader read_length_encoded_integer" "safe_reader read_length_coded_string"
  unfolding read_length_encoded_integer_def read_length_coded_string_def
  by (intro safe_intros)+

lemma safe_parse_fields: "safe_reader (parse_fields C enc)"
  unfolding parse_fields_def by (intro safe_intros)

lemma safe_guarded:
  "safe_reader a \<Longrightarrow> safe_reader b \<Longrightarrow> safe_reader (\<lambda>p. if c p then a p else b p)"
  by (simp add: safe_reader_def)

lemma safe_wrappers: "safe_reader ok_from_packet" "safe_reader eof_from_packet"
  unfolding ok_from_packet_def eof_from_packet_def by (intro safe_guarded safe_intros)+

lemma pkt_wf_new [simp]: "pkt_wf (packet_new d)"
  by (simp add: pkt_wf_def packet_new_def)

section \<open>Wire fields\<close>

text \<open>
  A wire field is an encoder with the reader that inverts it: whatever precedes and follows it in
  the packet, the reader returns the value and stands behind the field.
\<close>

definition cursor_at :: "bytes \<Rightarrow> bytes \<Rightarrow> mysql_packet" where
  "cursor_at pre rest = \<lparr>pkt_position = length pre, pkt_data = pre @ rest\<rparr>"

definition fits :: "bytes \<Rightarrow> bytes \<Rightarrow> bool" where
  "fits pre rest \<longleftrightarrow> length pre + length rest \<le> usize_max"

lemma packet_new_cursor: "packet_new d = cursor_at [] d"
  by (simp add: packet_new_def cursor_at_def)

lemma fits_shift [simp]: "fits (pre @ a) rest \<longleftrightarrow> fits pre (a @ rest)"
  by (simp add: fits_def add.assoc)

lemma read_cursor_at:
  assumes "fits pre (a @ rest)" and "length a = n"
  shows "read n (cursor_at pre (a @ rest)) = (Inr a, cursor_at (pre @ a) rest)"
  using assms by (simp add: read_def cursor_at_def fits_def Let_def slice_of_def)

lemma read_then:
  assumes "fits pre (a @ rest)" and "length a = n"
  shows "bind_st (read n) f (cursor_at pre (a @ rest)) = f a (cursor_at (pre @ a) rest)"
  using read_cursor_at [OF assms] by (rule bind_st_ok)

locale wire_field =
  fixes enc :: "'a \<Rightarrow> bytes"
    and rd :: "(mysql_packet, 'b) rs"
    and val :: "'a \<Rightarrow> 'b"
    and dom_ok :: "'a \<Rightarrow> bool"
  assumes rd_enc: "dom_ok x \<Longrightarrow> fits pre (enc x @ rest) \<Longrightarrow>
    rd (cursor_at pre (enc x @ rest)) = (Inr (val x), cursor_at (pre @ enc x) rest)"
begin

lemma rd_then:
  assumes "dom_ok x" and "fits pre (enc x @ rest)"
  shows "bind_st rd f (cursor_at pre (enc x @ rest)) = f (val x) (cursor_at (pre @ enc x) rest)"
  using rd_enc [OF assms] by (rule bind_st_ok)

lemma enc_inj:
  assumes "dom_ok x" "dom_ok y" and "fits [] (enc x @ r)" and "enc x @ r = enc y @ r'"
  shows "val x = val y \<and> r = r'"
  using rd_enc [of x "[]" r] rd_enc [of y "[]" r'] assms
  by (auto simp: cursor_at_def)

end

lemma of_byte [simp]: "from_le_bytes [b] = (ucast b :: 'a::len word)"
  by (simp add: from_le_bytes_def)

interpretation u8f: wire_field "\<lambda>b. [b]" read_uint8 "\<lambda>b. b" "\<lambda>_. True"
  using read_cursor_at [of _ "[_]"]
  by unfold_locales (simp add: read_uint8_def bind_st_def ret_def)

lemma list_of_length:
  "length xs = 2 \<Longrightarrow> [xs ! 0, xs ! Suc 0] = xs"
  "length xs = 3 \<Longrightarrow> [xs ! 0, xs ! Suc 0, xs ! 2] = xs"
  "length xs = 4 \<Longrightarrow> [xs ! 0, xs ! Suc 0, xs ! 2, xs ! 3] = xs"
  "length xs = 8 \<Longrightarrow> [xs ! 0, xs ! Suc 0, xs ! 2, xs ! 3, xs ! 4, xs ! 5, xs ! 6, xs ! 7] = xs"
  by (auto simp: numeral_eq_Suc length_Suc_conv)

interpretation u16f: wire_field "to_le_bytes :: u16 \<Rightarrow> bytes" read_uint16 "\<lambda>v. v" "\<lambda>_. True"
  by unfold_locales
    (simp add: read_uint16_def bind_st_def ret_def read_cursor_at byte_simps list_of_length)

interpretation u32f: wire_field "to_le_bytes :: u32 \<Rightarrow> bytes" read_uint32 "\<lambda>v. v" "\<lambda>_. True"
  by unfold_locales
    (simp add: read_uint32_def bind_st_def ret_def read_cursor_at byte_simps list_of_length)

interpretation u64f: wire_field "to_le_bytes :: u64 \<Rightarrow> bytes" read_uint64 "\<lambda>v. v" "\<lambda>_. True"
  by unfold_locales
    (simp add: read_uint64_def bind_st_def ret_def read_cursor_at byte_simps list_of_length)

lemma u24_bytes:
  "length xs = 3 \<Longrightarrow> from_le_bytes [xs ! 0, xs ! Suc 0, xs ! 2, 0] = (word_of_nat (le_nat xs) :: u32)"
proof -
  assume "length xs = 3"
  then obtain a b c where "xs = [a, b, c]" by (auto simp: numeral_eq_Suc length_Suc_conv)
  then show ?thesis by (simp add: from_le_bytes_def)
qed

interpretation u24f: wire_field "le_bytes 3" read_uint24 word_of_nat "\<lambda>i. i < 2 ^ 24"
  by unfold_locales
    (simp add: read_uint24_def bind_st_def ret_def read_cursor_at u24_bytes le_bytes_inverse)

lemmas u8_then = u8f.rd_then [simplified]

lemma le_bytes_to_le:
  "i < 2 ^ 16 \<Longrightarrow> le_bytes 2 i = to_le_bytes (word_of_nat i :: u16)"
  "i < 2 ^ 64 \<Longrightarrow> le_bytes 8 i = to_le_bytes (word_of_nat i :: u64)"
  by (simp_all add: to_le_bytes_def unat_of_nat)

lemma ucast_word_of_nat:
  "i < 2 ^ 16 \<Longrightarrow> ucast (word_of_nat i :: u16) = (word_of_nat i :: u64)"
  "i < 2 ^ 24 \<Longrightarrow> ucast (word_of_nat i :: u32) = (word_of_nat i :: u64)"
  "i < 2 ^ 8 \<Longrightarrow> ucast (word_of_nat i :: u8) = (word_of_nat i :: u64)"
  by (simp_all add: unsigned_of_nat take_bit_nat_eq_self)

lemma byte_lt_iff: "n < 256 \<Longrightarrow> k < 256 \<Longrightarrow> (word_of_nat n :: u8) < word_of_nat k \<longleftrightarrow> n < k"
  by (simp add: word_less_nat_alt unat_of_nat)

lemma read_lenenc_cursor_at:
  assumes i: "i < 2 ^ 64" and fit: "fits pre (lenenc_int i @ rest)"
  shows "read_length_encoded_integer (cursor_at pre (lenenc_int i @ rest)) =
    (Inr (Some (word_of_nat i)), cursor_at (pre @ lenenc_int i) rest)"
proof -
  consider "i < 0xFB" | "0xFB \<le> i" "i < 2 ^ 16" | "2 ^ 16 \<le> i" "i < 2 ^ 24" | "2 ^ 24 \<le> i"
    by linarith
  then show ?thesis
  proof cases
    case 1
    have lt: "(word_of_nat i :: u8) < 251"
      using byte_lt_iff [of i 251] 1 by simp
    from 1 fit lt show ?thesis
      by (auto simp: lenenc_int_def read_length_encoded_integer_def u8_then ret_def
          ucast_word_of_nat)
  next
    case 2
    with fit show ?thesis
      by (simp add: lenenc_int_def read_length_encoded_integer_def u8_then le_bytes_to_le
          u16f.rd_then ret_def ucast_word_of_nat)
  next
    case 3
    with fit show ?thesis
      by (simp add: lenenc_int_def read_length_encoded_integer_def u8_then
          u24f.rd_then ret_def ucast_word_of_nat)
  next
    case 4
    with fit i show ?thesis
      by (simp add: lenenc_int_def read_length_encoded_integer_def u8_then le_bytes_to_le
          u64f.rd_then ret_def)
  qed
qed

interpretation lenencf: wire_field lenenc_int read_length_encoded_integer
    "\<lambda>i. Some (word_of_nat i)" "\<lambda>i. i < 2 ^ 64"
  by unfold_locales (rule read_lenenc_cursor_at)

text \<open>Length-coded strings, with the NULL marker, and NUL-terminated strings.\<close>

definition lenenc_string :: "bytes option \<Rightarrow> bytes" where
  "lenenc_string v = (case v of None \<Rightarrow> [NULL_COLUMN] | Some bs \<Rightarrow> lenenc_int (length bs) @ bs)"

interpretation lenstrf: wire_field lenenc_string read_length_coded_string "\<lambda>v. v" "\<lambda>_. True"
proof unfold_locales
  fix v :: "bytes option" and pre rest :: bytes
  assume fit: "fits pre (lenenc_string v @ rest)"
  show "read_length_coded_string (cursor_at pre (lenenc_string v @ rest)) =
    (Inr v, cursor_at (pre @ lenenc_string v) rest)"
  proof (cases v)
    case None
    with fit show ?thesis
      by (simp add: lenenc_string_def read_length_coded_string_def
          read_length_encoded_integer_def bind_st_def u8f.rd_enc [simplified] ret_def)
  next
    case (Some bs)
    with fit have fit': "fits pre (lenenc_int (length bs) @ bs @ rest)"
      by (simp add: lenenc_string_def)
    then have len: "length bs < 2 ^ 64" by (simp add: fits_def usize_max_def)
    with fit' Some show ?thesis
      by (simp add: lenenc_string_def read_length_coded_string_def lenencf.rd_then unat_of_nat
          read_then ret_def)
  qed
qed

interpretation nulstrf: wire_field "\<lambda>s. s @ [0]" read_string Some "\<lambda>s. 0 \<notin> set s"
proof unfold_locales
  fix s pre rest :: bytes
  assume "0 \<notin> set s"
  then have "find_index (\<lambda>b. b = 0) s = None" by (auto simp: find_index_None)
  then have "find_index (\<lambda>b. b = 0) (s @ 0 # rest) = Some (length s)"
    by (simp add: find_index_append)
  then show "read_string (cursor_at pre ((s @ [0]) @ rest)) =
    (Inr (Some s), cursor_at (pre @ s @ [0]) rest)"
    by (simp add: read_string_def cursor_at_def slice_of_def)
qed

lemmas wire_then =
  u8_then u16f.rd_then [simplified] u32f.rd_then [simplified] lenencf.rd_then
  lenstrf.rd_then [simplified] nulstrf.rd_then [simplified]

section \<open>What the server writes\<close>

text \<open>The packets of the protocol, as reference encoders for the decoders above.\<close>

definition ok_packet :: "nat \<Rightarrow> nat \<Rightarrow> u16 \<Rightarrow> u16 \<Rightarrow> bytes \<Rightarrow> bytes" where
  "ok_packet affected insert_id status warnings msg =
     0 # lenenc_int affected @ lenenc_int insert_id @ to_le_bytes status @ to_le_bytes warnings @ msg"

definition eof_packet :: "u16 \<Rightarrow> u16 \<Rightarrow> bytes" where
  "eof_packet warnings status = 0xFE # to_le_bytes warnings @ to_le_bytes status"

definition column_packet :: "bytes option list \<Rightarrow> u16 \<Rightarrow> u32 \<Rightarrow> u8 \<Rightarrow> u16 \<Rightarrow> u8 \<Rightarrow> bytes \<Rightarrow> bytes" where
  "column_packet names charsetnr len type_code flags scale tail =
     concat (map lenenc_string names) @ 0x0c # to_le_bytes charsetnr @ to_le_bytes len @
     type_code # to_le_bytes flags @ scale # tail"

lemma lenenc_int_not_Nil [simp]: "lenenc_int i \<noteq> []"
  by (simp add: lenenc_int_def)

lemma advance_one: "fits pre (b # rest) \<Longrightarrow>
    bind_st (advance (Suc 0)) f (cursor_at pre (b # rest)) = f () (cursor_at (pre @ [b]) rest)"
  by (simp add: bind_st_def advance_def cursor_at_def fits_def)

lemma read_all_then: "bind_st read_all f (cursor_at pre rest) = f rest (cursor_at (pre @ rest) [])"
  by (simp add: bind_st_def read_all_def cursor_at_def)

lemma is_ok_packet_ok: "is_ok_packet (packet_new (ok_packet a i s w msg))"
  using lenenc_int_not_Nil [of a] lenenc_int_not_Nil [of i]
  by (cases "lenenc_int a"; cases "lenenc_int i")
    (simp_all add: is_ok_packet_def packet_new_def ok_packet_def first_byte_def to_le_bytes_length)

lemma more_results_bit: "status AND SERVER_MORE_RESULTS_EXISTS \<noteq> 0 \<longleftrightarrow> bit (status :: u16) 3"
  using and_exp_eq_0_iff_not_bit [of status 3] by simp

lemma ok_packet_decodes:
  assumes "affected < 2 ^ 64" and "insert_id < 2 ^ 64"
    and "length (ok_packet affected insert_id status warnings msg) \<le> usize_max"
  shows "fst (ok_from_packet (packet_new (ok_packet affected insert_id status warnings msg))) =
    Inr \<lparr>ok_affected_rows = Some (word_of_nat affected), ok_insert_id = Some (word_of_nat insert_id),
         ok_server_status = status, ok_warning_count = warnings, ok_message = msg,
         ok_has_next = bit status 3\<rparr>"
proof -
  let ?d = "ok_packet affected insert_id status warnings msg"
  show ?thesis
    using assms is_ok_packet_ok [of affected insert_id status warnings msg]
    by (simp add: ok_from_packet_def packet_new_cursor ok_packet_def advance_one wire_then
        read_all_then ret_def more_results_bit fits_def add.assoc)
qed

lemma is_eof_packet_eof: "is_eof_packet (packet_new (eof_packet w s))"
  by (simp add: is_eof_packet_def packet_new_def eof_packet_def first_byte_def to_le_bytes_length)

lemma eof_packet_decodes:
  "fst (eof_from_packet (packet_new (eof_packet w s))) =
     Inr \<lparr>eof_warning_count = w, eof_server_status = s, eof_has_next = bit s 3\<rparr>"
  using is_eof_packet_eof [of w s]
  by (simp add: eof_from_packet_def packet_new_cursor eof_packet_def advance_one wire_then
      u16f.rd_then [where rest = "[]", simplified]
      ret_def more_results_bit fits_def to_le_bytes_length usize_max_def)

lemma column_packet_decodes:
  assumes "length (column_packet [catalog, db, tab, org_tab, nm, org_nm] cs len ty fl sc tail) \<le> usize_max"
  shows "field_parse C (column_packet [catalog, db, tab, org_tab, nm, org_nm] cs len ty fl sc tail) enc =
    Inr \<lparr>fd_catalog = catalog, fd_db = db, fd_table_name = decode_or_empty C tab enc,
         fd_org_table = decode_or_empty C org_tab enc, fd_name = decode_or_empty C nm enc,
         fd_org_name = decode_or_empty C org_nm enc, fd_charsetnr = cs, fd_length = len,
         fd_type_code = ty, fd_flags = fl, fd_scale = sc\<rparr>"
proof -
  show ?thesis
    using assms
    by (simp add: field_parse_def parse_fields_def packet_new_cursor column_packet_def wire_then
        ret_def fits_def add.assoc)
qed

section \<open>Properties\<close>

text \<open>The length-encoded integers that the client writes (\<open>lenenc_int\<close>, used for every length it
  sends) are read back by the reader it applies to the server's packets, for every 64-bit value, in any
  context of the packet; the cursor ends exactly behind the integer.\<close>

lemma lenenc_int_roundtrip:
  assumes "i < 2 ^ 64" and "length pre + length (lenenc_int i) + length rest \<le> usize_max"
  shows "read_length_encoded_integer
      \<lparr>pkt_position = length pre, pkt_data = pre @ lenenc_int i @ rest\<rparr> =
    (Inr (Some (word_of_nat i)),
     \<lparr>pkt_position = length pre + length (lenenc_int i), pkt_data = pre @ lenenc_int i @ rest\<rparr>)"
  using lenencf.rd_enc [of i pre rest] assms by (simp add: cursor_at_def fits_def)

lemma lenenc_int_roundtrip_instance:
  "read_length_encoded_integer \<lparr>pkt_position = 1, pkt_data = [7, 0xFD, 0, 0, 1, 9]\<rparr> =
    (Inr (Some 65536), \<lparr>pkt_position = 5, pkt_data = [7, 0xFD, 0, 0, 1, 9]\<rparr>)"
proof -
  have enc: "lenenc_int 65536 = [0xFD, 0, 0, 1]"
    by (simp add: lenenc_int_def byte_eval)
  show ?thesis
    using lenenc_int_roundtrip [of 65536 "[7]" "[9]"] by (simp add: enc usize_max_def)
qed

text \<open>The length encoding is unambiguous: if two encoded integers start the same byte sequence,
  the integers and what follows them are the same.\<close>

lemma lenenc_int_unambiguous:
  assumes "i < 2 ^ 64" and "j < 2 ^ 64" and "length (lenenc_int i @ r) \<le> usize_max"
    and "lenenc_int i @ r = lenenc_int j @ r'"
  shows "i = j \<and> r = r'"
proof -
  have "Some (word_of_nat i :: u64) = Some (word_of_nat j) \<and> r = r'"
    using assms by (intro lenencf.enc_inj) (simp_all add: fits_def)
  then show ?thesis
    using assms by (auto dest: arg_cong [where f = unat] simp: unat_of_nat)
qed

lemma lenenc_int_unambiguous_instance:
  "lenenc_int 300 @ [1] = [0xFC, 44, 1, 1] \<and> (300 :: nat) = 300 \<and> [1 :: u8] = [1]"
proof -
  have enc: "lenenc_int 300 = [0xFC, 44, 1]" by (simp add: lenenc_int_def byte_eval)
  then show ?thesis
    using lenenc_int_unambiguous [of 300 300 "[1]" "[1]"] by (simp add: usize_max_def)
qed

text \<open>No decoder of a packet panics, whatever bytes the server sends: column definitions, OK and
  EOF packets are decoded or refused with an error, and the cursor stays inside the packet.\<close>

lemma packet_decoders_never_panic:
  "field_parse C d enc \<noteq> Inl Panic \<and>
   fst (ok_from_packet (packet_new d)) \<noteq> Inl Panic \<and>
   fst (eof_from_packet (packet_new d)) \<noteq> Inl Panic \<and>
   pkt_wf (snd (ok_from_packet (packet_new d))) \<and> pkt_wf (snd (eof_from_packet (packet_new d)))"
  using safe_parse_fields [of C enc] safe_wrappers
  by (simp add: safe_reader_def field_parse_def)

text \<open>An OK packet is decoded to the row count, insert id, status, warning count and message the
  server wrote, and \<open>has_next\<close> is the server's more-results flag.\<close>

lemma ok_packet_roundtrip:
  assumes "affected < 2 ^ 64" and "insert_id < 2 ^ 64"
    and "length (ok_packet affected insert_id status warnings msg) \<le> usize_max"
  shows "fst (ok_from_packet (packet_new (ok_packet affected insert_id status warnings msg))) =
    Inr \<lparr>ok_affected_rows = Some (word_of_nat affected), ok_insert_id = Some (word_of_nat insert_id),
         ok_server_status = status, ok_warning_count = warnings, ok_message = msg,
         ok_has_next = bit status 3\<rparr>"
  using assms by (rule ok_packet_decodes)

lemma ok_packet_roundtrip_instance:
  "fst (ok_from_packet (packet_new [0, 1, 5, 10, 0, 2, 0, 104])) =
    Inr \<lparr>ok_affected_rows = Some 1, ok_insert_id = Some 5, ok_server_status = 10,
         ok_warning_count = 2, ok_message = [104], ok_has_next = True\<rparr>"
proof -
  have enc: "ok_packet 1 5 10 2 [104] = [0, 1, 5, 10, 0, 2, 0, 104]"
    by (simp add: ok_packet_def lenenc_int_def to_le_bytes_16)
  show ?thesis
    using ok_packet_roundtrip [of 1 5 10 2 "[104]", unfolded enc]
    by (simp add: usize_max_def bit_iff_odd)
qed

text \<open>A column definition packet is decoded to exactly the names, character set, length, type,
  flags and scale that the server wrote, whatever optional bytes follow them.\<close>

lemma column_packet_roundtrip:
  assumes "length (column_packet [catalog, db, tab, org_tab, nm, org_nm] cs len ty fl sc tail) \<le> usize_max"
  shows "field_parse C (column_packet [catalog, db, tab, org_tab, nm, org_nm] cs len ty fl sc tail) enc =
    Inr \<lparr>fd_catalog = catalog, fd_db = db, fd_table_name = decode_or_empty C tab enc,
         fd_org_table = decode_or_empty C org_tab enc, fd_name = decode_or_empty C nm enc,
         fd_org_name = decode_or_empty C org_nm enc, fd_charsetnr = cs, fd_length = len,
         fd_type_code = ty, fd_flags = fl, fd_scale = sc\<rparr>"
  using assms by (rule column_packet_decodes)

lemma column_packet_roundtrip_instance:
  "\<exists>C. field_parse C [3, 100, 101, 102, 0, 1, 116, 251, 1, 97, 1, 97,
      12, 33, 0, 8, 0, 0, 0, 253, 1, 0, 0, 0, 0] ''utf8'' =
    Inr \<lparr>fd_catalog = Some [100, 101, 102], fd_db = Some [], fd_table_name = ''t'',
         fd_org_table = [], fd_name = ''a'', fd_org_name = ''a'', fd_charsetnr = 33, fd_length = 8,
         fd_type_code = 253, fd_flags = 1, fd_scale = 0\<rparr>"
proof -
  let ?C = "\<lparr>for_label = \<lambda>_. None, utf8_encoding = 0, decode = \<lambda>_. from_utf8_lossy\<rparr>"
  have enc: "column_packet [Some [100, 101, 102], Some [], Some [116], None, Some [97], Some [97]]
      33 8 253 1 0 [0, 0] = [3, 100, 101, 102, 0, 1, 116, 251, 1, 97, 1, 97,
      12, 33, 0, 8, 0, 0, 0, 253, 1, 0, 0, 0, 0]"
    by (simp add: column_packet_def lenenc_string_def lenenc_int_def to_le_bytes_def byte_eval)
  show ?thesis
    using column_packet_roundtrip [of "Some [100, 101, 102]" "Some []" "Some [116]" None
        "Some [97]" "Some [97]" 33 8 253 1 0 "[0, 0]" ?C "''utf8''", unfolded enc]
    by (intro exI [of _ ?C]) (simp add: usize_max_def decode_or_empty_def decode_label_def
        from_utf8_lossy_ascii from_bytes_def char_of_eq_iff)
qed

end
