(* ===== verification/Converters.thy ===== *)
theory Converters
  imports Protocol
begin

text \<open>
  The values of \<^verbatim>\<open>mysql-core/src/converters.rs\<close>: their SQL literals and the decoders of the text protocol.

  The types of \<open>chrono\<close> and \<open>rust_decimal\<close> are opaque (type variable \<open>'x\<close>) and their operations are
  parameters (record \<open>externs\<close>), as are the printing and parsing of \<open>f64\<close>; a float itself is its bit
  pattern.  An \<open>i64\<close> is an \<open>int\<close>, with the saturation of the code written out.  A \<open>HashSet\<close> is the list of
  its elements in iteration order.
\<close>

section \<open>Values and the libraries they come from\<close>

datatype 'x mysql_value =
    VNull
  | VBool bool
  | VInt int
  | VFloat u64
  | VString string
  | VBytes bytes
  | VDate 'x
  | VTime 'x
  | VDateTime 'x
  | VTimeSpan 'x
  | VDecimal 'x
  | VList "'x mysql_value list"
  | VSet "'x mysql_value list"

record 'x externs =
  float_debug :: "u64 \<Rightarrow> string"
  float_parse :: "string \<Rightarrow> u64 option"
  date_format :: "'x \<Rightarrow> string"
  date_parse :: "string \<Rightarrow> 'x option"
  time_format :: "'x \<Rightarrow> string"
  datetime_format :: "'x \<Rightarrow> string"
  datetime_parse :: "string \<Rightarrow> 'x option"
  datetime_add_micros :: "'x \<Rightarrow> int \<Rightarrow> 'x"
  datetime_in_range :: "'x \<Rightarrow> int \<Rightarrow> bool"
  td_microseconds :: "int \<Rightarrow> 'x"
  td_num_seconds :: "'x \<Rightarrow> int"
  td_subsec_micros :: "'x \<Rightarrow> int"
  decimal_parse :: "string \<Rightarrow> 'x option"
  decimal_to_string :: "'x \<Rightarrow> string"

abbreviation (input) i64_min :: int where
  "i64_min \<equiv> - (2 ^ 63)"

abbreviation (input) i64_max :: int where
  "i64_max \<equiv> 2 ^ 63 - 1"

definition sat_i64 :: "int \<Rightarrow> int" where
  "sat_i64 i = max i64_min (min i64_max i)"

section \<open>Strings\<close>

text \<open>\<open>str::replace\<close> of one character, the trims and splits that the code uses.\<close>

definition replace_char :: "char \<Rightarrow> string \<Rightarrow> string \<Rightarrow> string" where
  "replace_char c r s = concat (map (\<lambda>x. if x = c then r else [x]) s)"

definition trim_end_char :: "char \<Rightarrow> string \<Rightarrow> string" where
  "trim_end_char c s = rev (dropWhile ((=) c) (rev s))"

definition trim_start_char :: "char \<Rightarrow> string \<Rightarrow> string" where
  "trim_start_char c s = dropWhile ((=) c) s"

definition split_once :: "char \<Rightarrow> string \<Rightarrow> string \<times> string option" where
  "split_once c s =
     (let pre = takeWhile ((\<noteq>) c) s
      in if length pre < length s then (pre, Some (drop (Suc (length pre)) s)) else (s, None))"

fun split_char :: "char \<Rightarrow> string \<Rightarrow> string list" where
  "split_char c [] = [[]]"
| "split_char c (x # xs) =
     (if x = c then [] # split_char c xs
      else (case split_char c xs of [] \<Rightarrow> [[x]] | p # ps \<Rightarrow> (x # p) # ps))"

text \<open>The first \<open>n\<close> characters and the number of characters of a UTF-8 string.\<close>

definition utf8_inner :: "char \<Rightarrow> bool" where
  "utf8_inner c \<longleftrightarrow> 128 \<le> (of_char c :: nat) \<and> (of_char c :: nat) \<le> 191"

fun take_chars :: "nat \<Rightarrow> string \<Rightarrow> string" where
  "take_chars n [] = []"
| "take_chars n (c # cs) =
     (if utf8_inner c then c # take_chars n cs
      else (case n of 0 \<Rightarrow> [] | Suc m \<Rightarrow> c # take_chars m cs))"

definition count_chars :: "string \<Rightarrow> nat" where
  "count_chars s = length (filter (\<lambda>c. \<not> utf8_inner c) s)"

definition pad0 :: "nat \<Rightarrow> string \<Rightarrow> string" where
  "pad0 n s = replicate (n - length s) CHR ''0'' @ s"

section \<open>SQL literals\<close>

abbreviation (input) QUOTE :: char where
  "QUOTE \<equiv> CHR 0x27"

abbreviation (input) BACKSLASH :: char where
  "BACKSLASH \<equiv> CHR 0x5C"

definition escape_string :: "string \<Rightarrow> string" where
  "escape_string s =
     replace_char (CHR 0x22) [BACKSLASH, CHR 0x22]
      (replace_char (CHR 0x1A) [BACKSLASH, CHR ''Z'']
       (replace_char (CHR 0x00) [BACKSLASH, CHR ''0'']
        (replace_char (CHR 0x0D) [BACKSLASH, CHR ''r'']
         (replace_char (CHR 0x0A) [BACKSLASH, CHR ''n'']
          (replace_char QUOTE [BACKSLASH, QUOTE]
           (replace_char BACKSLASH [BACKSLASH, BACKSLASH] s))))))"

definition hex_upper :: "nat \<Rightarrow> char" where
  "hex_upper n = (if n < 10 then char_of (48 + n) else char_of (55 + n))"

definition hex02_upper :: "u8 \<Rightarrow> string" where
  "hex02_upper b = [hex_upper (unat b div 16), hex_upper (unat b mod 16)]"

definition escape_bytes :: "bytes \<Rightarrow> string \<Rightarrow> string" where
  "escape_bytes value enc = CHR ''X'' # QUOTE # concat (map hex02_upper value) @ [QUOTE]"

text \<open>\<open>is_finite\<close> and the text of the values that are not finite.\<close>

definition f64_is_finite :: "u64 \<Rightarrow> bool" where
  "f64_is_finite f \<longleftrightarrow> drop_bit 52 f AND 0x7FF \<noteq> 0x7FF"

definition f64_nonfinite_display :: "u64 \<Rightarrow> string" where
  "f64_nonfinite_display f =
     (if f AND 0xFFFFFFFFFFFFF \<noteq> 0 then ''NaN'' else if bit f 63 then ''-inf'' else ''inf'')"

definition escape_float :: "'x externs \<Rightarrow> u64 \<Rightarrow> error + string" where
  "escape_float E value =
     (if \<not> f64_is_finite value then
        Inl (DataError 0 (f64_nonfinite_display value @ '' can not be used with MySQL''))
      else
        (let s = float_debug E value
         in if CHR ''e'' \<in> set s \<or> CHR ''E'' \<in> set s then Inr s else Inr (s @ ''e0'')))"

definition format_timedelta :: "'x externs \<Rightarrow> 'x \<Rightarrow> string" where
  "format_timedelta E td =
     (let neg = (td_num_seconds E td < 0 \<or> (td_num_seconds E td = 0 \<and> td_subsec_micros E td < 0));
          total_seconds = nat \<bar>td_num_seconds E td\<bar>;
          hours = total_seconds div 3600;
          minutes = (total_seconds mod 3600) div 60;
          seconds = total_seconds mod 60;
          microseconds = nat \<bar>td_subsec_micros E td\<bar>;
          hms = pad0 2 (dec hours) @ '':'' @ pad0 2 (dec minutes) @ '':'' @ pad0 2 (dec seconds);
          body = (if 0 < microseconds then hms @ ''.'' @ pad0 6 (dec microseconds) else hms)
      in if neg then ''-'' @ body else body)"

definition quoted :: "string \<Rightarrow> string" where
  "quoted s = QUOTE # s @ [QUOTE]"

fun to_sql :: "'x externs \<Rightarrow> string \<Rightarrow> 'x mysql_value \<Rightarrow> error + string"
  and to_sql_all :: "'x externs \<Rightarrow> string \<Rightarrow> 'x mysql_value list \<Rightarrow> error + string list"
  and escape_sequence :: "'x externs \<Rightarrow> string \<Rightarrow> 'x mysql_value list \<Rightarrow> error + string"
  and escape_set :: "'x externs \<Rightarrow> string \<Rightarrow> 'x mysql_value list \<Rightarrow> error + string"
where
  "to_sql E enc VNull = Inr ''NULL''"
| "to_sql E enc (VBool b) = Inr (dec (if b then 1 else 0))"
| "to_sql E enc (VInt i) = Inr (dec_int i)"
| "to_sql E enc (VFloat f) = escape_float E f"
| "to_sql E enc (VString s) = Inr (quoted (escape_string s))"
| "to_sql E enc (VBytes b) = Inr (escape_bytes b enc)"
| "to_sql E enc (VDate d) = Inr (quoted (date_format E d))"
| "to_sql E enc (VTime d) =
     Inr (quoted (trim_end_char (CHR ''.'') (trim_end_char (CHR ''0'') (time_format E d))))"
| "to_sql E enc (VDateTime d) =
     Inr (quoted (trim_end_char (CHR ''.'') (trim_end_char (CHR ''0'') (datetime_format E d))))"
| "to_sql E enc (VTimeSpan td) = Inr (quoted (format_timedelta E td))"
| "to_sql E enc (VDecimal d) = Inr (decimal_to_string E d)"
| "to_sql E enc (VList items) = escape_sequence E enc items"
| "to_sql E enc (VSet items) = escape_set E enc items"
| "to_sql_all E enc [] = Inr []"
| "to_sql_all E enc (v # vs) =
     bind_res (to_sql E enc v) (\<lambda>s. bind_res (to_sql_all E enc vs) (\<lambda>ss. Inr (s # ss)))"
| "escape_sequence E enc vs =
     bind_res (to_sql_all E enc vs) (\<lambda>items. Inr (''('' @ join_with '','' items @ '')''))"
| "escape_set E enc vs = bind_res (to_sql_all E enc vs) (\<lambda>items. Inr (join_with '','' items))"

definition escape_item :: "'x externs \<Rightarrow> 'x mysql_value \<Rightarrow> string \<Rightarrow> error + string" where
  "escape_item E value enc = to_sql E enc value"

section \<open>Decoders\<close>

definition convert_int :: "string \<Rightarrow> 'x mysql_value" where
  "convert_int s = (case parse_signed i64_min i64_max s of Some i \<Rightarrow> VInt i | None \<Rightarrow> VString s)"

definition convert_float :: "'x externs \<Rightarrow> string \<Rightarrow> 'x mysql_value" where
  "convert_float E s = (case float_parse E s of Some f \<Rightarrow> VFloat f | None \<Rightarrow> VString s)"

definition convert_string :: "string \<Rightarrow> 'x mysql_value" where
  "convert_string s = VString s"

definition convert_decimal :: "'x externs \<Rightarrow> string \<Rightarrow> 'x mysql_value" where
  "convert_decimal E s =
     (case decimal_parse E s of
        Some d \<Rightarrow> if decimal_to_string E d = s then VDecimal d else VString s
      | None \<Rightarrow> VString s)"

definition convert_date :: "'x externs \<Rightarrow> string \<Rightarrow> 'x mysql_value" where
  "convert_date E s = (case date_parse E s of Some d \<Rightarrow> VDate d | None \<Rightarrow> VString s)"

definition convert_datetime :: "'x externs \<Rightarrow> string \<Rightarrow> 'x mysql_value" where
  "convert_datetime E s =
     (case split_once (CHR ''.'') s of (base, fraction) \<Rightarrow>
        (case datetime_parse E base of
           None \<Rightarrow> VString s
         | Some dt \<Rightarrow>
             (case fraction of
                None \<Rightarrow> VDateTime dt
              | Some f \<Rightarrow>
                  (let frac = take_chars 6 f
                   in case parse_unsigned (2 ^ 32 - 1) frac of
                        None \<Rightarrow> VString s
                      | Some m \<Rightarrow>
                          (let micros = m * 10 ^ (6 - length frac)
                           in VDateTime (datetime_add_micros E dt (int micros)))))))"

text \<open>The loop over the parts of \<open>HH:MM:SS\<close> from the right; \<open>i\<close> is the index of \<open>enumerate\<close>.\<close>

fun timedelta_secs :: "string list \<Rightarrow> nat \<Rightarrow> int \<Rightarrow> int" where
  "timedelta_secs [] i secs = secs"
| "timedelta_secs (p # ps) i secs =
     (let v = (case parse_signed i64_min i64_max p of Some v \<Rightarrow> v | None \<Rightarrow> 0);
          multiplier = (if 60 ^ i \<le> i64_max then 60 ^ i else i64_max)
      in timedelta_secs ps (i + 1) (sat_i64 (secs + sat_i64 (v * multiplier))))"

definition max_micros :: int where
  "max_micros = i64_max div 1000"

text \<open>The microseconds of the part behind the point; \<open>None\<close> when it is not a number.\<close>

definition timedelta_fraction :: "string option \<Rightarrow> int option" where
  "timedelta_fraction fraction =
     (case fraction of
        None \<Rightarrow> Some 0
      | Some f \<Rightarrow>
          (let frac = take_chars 6 f
           in case parse_unsigned (2 ^ 32 - 1) frac of
                None \<Rightarrow> None
              | Some m \<Rightarrow>
                  (let frac_len = count_chars frac;
                       scale = (if frac_len \<le> 6 then 10 ^ (6 - frac_len) else 1)
                   in Some (sat_i64 (int m * scale)))))"

definition convert_timedelta :: "'x externs \<Rightarrow> string \<Rightarrow> 'x mysql_value" where
  "convert_timedelta E s0 =
     (let neg = (s0 \<noteq> [] \<and> hd s0 = CHR ''-'');
          s = trim_start_char (CHR ''-'') s0;
          (time_part, fraction) = split_once (CHR ''.'') s;
          secs = timedelta_secs (rev (split_char (CHR '':'') time_part)) 0 0
      in case timedelta_fraction fraction of
           None \<Rightarrow> VString s
         | Some micros \<Rightarrow>
             (let total = sat_i64 (sat_i64 (secs * 1000000) + micros);
                  clamped = max (- max_micros) (min max_micros total)
              in VTimeSpan (td_microseconds E (if neg then - clamped else clamped))))"

definition decoder_for :: "'x externs \<Rightarrow> u8 \<Rightarrow> (string \<Rightarrow> 'x mysql_value) option" where
  "decoder_for E ft =
     (if ft \<in> set [TINY, SHORT, LONG, LONGLONG, INT24, YEAR] then Some convert_int
      else if ft \<in> set [FLOAT, DOUBLE] then Some (convert_float E)
      else if ft \<in> set [TIMESTAMP, DATETIME] then Some (convert_datetime E)
      else if ft = TIME then Some (convert_timedelta E)
      else if ft = DATE then Some (convert_date E)
      else if ft \<in> set [DECIMAL, NEWDECIMAL] then Some (convert_decimal E)
      else Some convert_string)"

text \<open>
  The two decoders that compute, with the operations that can panic: unsigned subtraction, power and product
  of 32 bits (with overflow checks), the negation of an \<open>i64\<close>, and the addition of a duration to a timestamp,
  which panics when the sum is not in range (\<open>datetime_in_range\<close>).
\<close>

definition u32_checked :: "int \<Rightarrow> fail + nat" where
  "u32_checked i = (if 0 \<le> i \<and> i < 2 ^ 32 then Inr (nat i) else Inl Panic)"

definition i64_neg :: "int \<Rightarrow> fail + int" where
  "i64_neg i = (if i = i64_min then Inl Panic else Inr (- i))"

definition convert_datetime_run :: "'x externs \<Rightarrow> string \<Rightarrow> fail + 'x mysql_value" where
  "convert_datetime_run E s =
     (case split_once (CHR ''.'') s of (base, fraction) \<Rightarrow>
        (case datetime_parse E base of
           None \<Rightarrow> Inr (VString s)
         | Some dt \<Rightarrow>
             (case fraction of
                None \<Rightarrow> Inr (VDateTime dt)
              | Some f \<Rightarrow>
                  (let frac = take_chars 6 f
                   in case parse_unsigned (2 ^ 32 - 1) frac of
                        None \<Rightarrow> Inr (VString s)
                      | Some m \<Rightarrow>
                          bind_res (u32_checked (6 - int (length frac mod 2 ^ 32))) (\<lambda>e.
                          bind_res (u32_checked (10 ^ e)) (\<lambda>scale.
                          bind_res (u32_checked (int m * int scale)) (\<lambda>micros.
                          if datetime_in_range E dt (int micros)
                          then Inr (VDateTime (datetime_add_micros E dt (int micros))) else Inl Panic)))))))"

definition convert_timedelta_run :: "'x externs \<Rightarrow> string \<Rightarrow> fail + 'x mysql_value" where
  "convert_timedelta_run E s0 =
     (let neg = (s0 \<noteq> [] \<and> hd s0 = CHR ''-'');
          s = trim_start_char (CHR ''-'') s0;
          (time_part, fraction) = split_once (CHR ''.'') s;
          secs = timedelta_secs (rev (split_char (CHR '':'') time_part)) 0 0
      in case timedelta_fraction fraction of
           None \<Rightarrow> Inr (VString s)
         | Some micros \<Rightarrow>
             (let total = sat_i64 (sat_i64 (secs * 1000000) + micros);
                  clamped = max (- max_micros) (min max_micros total)
              in bind_res (if neg then i64_neg clamped else Inr clamped) (\<lambda>n. Inr (VTimeSpan (td_microseconds E n)))))"

definition decoder_run :: "'x externs \<Rightarrow> u8 \<Rightarrow> (string \<Rightarrow> fail + 'x mysql_value) option" where
  "decoder_run E ft =
     (if ft \<in> set [TINY, SHORT, LONG, LONGLONG, INT24, YEAR] then Some (\<lambda>s. Inr (convert_int s))
      else if ft \<in> set [FLOAT, DOUBLE] then Some (\<lambda>s. Inr (convert_float E s))
      else if ft \<in> set [TIMESTAMP, DATETIME] then Some (convert_datetime_run E)
      else if ft = TIME then Some (convert_timedelta_run E)
      else if ft = DATE then Some (\<lambda>s. Inr (convert_date E s))
      else if ft \<in> set [DECIMAL, NEWDECIMAL] then Some (\<lambda>s. Inr (convert_decimal E s))
      else Some (\<lambda>s. Inr (convert_string s)))"

section \<open>Quoting\<close>

lemma replace_char_simps [simp]:
  "replace_char c r [] = []"
  "replace_char c r (x # xs) = (if x = c then r else [x]) @ replace_char c r xs"
  by (simp_all add: replace_char_def)

lemma replace_char_append [simp]: "replace_char c r (xs @ ys) = replace_char c r xs @ replace_char c r ys"
  by (simp add: replace_char_def)

text \<open>The seven passes of \<open>escape_string\<close> amount to one pass.\<close>

definition escape_char :: "char \<Rightarrow> string" where
  "escape_char c =
     (if c = BACKSLASH then [BACKSLASH, BACKSLASH]
      else if c = QUOTE then [BACKSLASH, QUOTE]
      else if c = CHR 0x0A then [BACKSLASH, CHR ''n'']
      else if c = CHR 0x0D then [BACKSLASH, CHR ''r'']
      else if c = CHR 0x00 then [BACKSLASH, CHR ''0'']
      else if c = CHR 0x1A then [BACKSLASH, CHR ''Z'']
      else if c = CHR 0x22 then [BACKSLASH, CHR 0x22]
      else [c])"

lemma escape_string_simps [simp]:
  "escape_string [] = []"
  "escape_string (c # cs) = escape_char c @ escape_string cs"
  by (simp_all add: escape_string_def escape_char_def)

text \<open>
  How the server reads a string literal behind its opening quote, with backslash escapes (the default
  mode) and without.  A doubled quote stands for a quote; the result is the text and what follows the
  closing quote.
\<close>

definition unescape_char :: "char \<Rightarrow> string" where
  "unescape_char c =
     (if c = CHR ''0'' then [CHR 0x00] else if c = CHR ''b'' then [CHR 0x08]
      else if c = CHR ''n'' then [CHR 0x0A] else if c = CHR ''r'' then [CHR 0x0D]
      else if c = CHR ''t'' then [CHR 0x09] else if c = CHR ''Z'' then [CHR 0x1A]
      else if c = CHR 0x25 \<or> c = CHR 0x5F then [BACKSLASH, c] else [c])"

fun lex_string :: "bool \<Rightarrow> string \<Rightarrow> (string \<times> string) option" where
  "lex_string bs [] = None"
| "lex_string bs [c] =
     (if c = QUOTE then Some ([], [])
      else None)"
| "lex_string bs (c # d # cs) =
     (if c = QUOTE then
        (if d = QUOTE then map_option (\<lambda>(t, rest). (QUOTE # t, rest)) (lex_string bs cs)
         else Some ([], d # cs))
      else if bs \<and> c = BACKSLASH then
        map_option (\<lambda>(t, rest). (unescape_char d @ t, rest)) (lex_string bs cs)
      else map_option (\<lambda>(t, rest). (c # t, rest)) (lex_string bs (d # cs)))"

lemma lex_string_escape_char:
  "lex_string True (escape_char c @ d # cs) =
     map_option (\<lambda>(t, rest). (c # t, rest)) (lex_string True (d # cs))"
  by (simp add: escape_char_def unescape_char_def)

lemma lex_string_double_quote:
  "lex_string False ((if c = QUOTE then [QUOTE, QUOTE] else [c]) @ d # cs) =
     map_option (\<lambda>(t, rest). (c # t, rest)) (lex_string False (d # cs))"
  by simp

lemma lex_string_close: "rest = [] \<or> hd rest \<noteq> QUOTE \<Longrightarrow> lex_string bs (QUOTE # rest) = Some ([], rest)"
  by (cases rest) simp_all

lemma lex_escape_string:
  assumes "rest = [] \<or> hd rest \<noteq> QUOTE"
  shows "lex_string True (escape_string s @ QUOTE # rest) = Some (s, rest)"
proof (induction s)
  case Nil
  then show ?case using assms by (simp add: lex_string_close)
next
  case (Cons c s)
  obtain d cs where "escape_string s @ QUOTE # rest = d # cs" by (cases "escape_string s") auto
  with Cons.IH lex_string_escape_char [of c d cs] show ?case by simp
qed

text \<open>No injection through string literals.  In the default SQL mode the server reads the literal that
  \<open>to_sql\<close> builds for a string as exactly that string, and continues with exactly what follows the
  literal, whatever characters the string contains.\<close>

lemma string_literal_roundtrip:
  assumes "rest = [] \<or> hd rest \<noteq> QUOTE"
  shows "\<exists>literal. to_sql E enc (VString s) = Inr (QUOTE # literal) \<and>
    lex_string True (literal @ rest) = Some (s, rest)"
  using lex_escape_string [OF assms] by (simp add: quoted_def)

lemma string_literal_roundtrip_instance:
  "\<exists>literal. to_sql undefined [] (VString [CHR ''x'', QUOTE, BACKSLASH, CHR 0x0A]) = Inr (QUOTE # literal) \<and>
     lex_string True (literal @ '', 2'') = Some ([CHR ''x'', QUOTE, BACKSLASH, CHR 0x0A], '', 2'')"
  using string_literal_roundtrip [of "'', 2''" undefined "[]" "[CHR ''x'', QUOTE, BACKSLASH, CHR 0x0A]"]
  by simp

section \<open>Hexadecimal literals\<close>

definition hex_digit_val :: "char \<Rightarrow> nat" where
  "hex_digit_val c = (let n = of_char c in if n < 65 then n - 48 else n - 55)"

fun unhex :: "string \<Rightarrow> bytes" where
  "unhex (a # b # cs) = word_of_nat (16 * hex_digit_val a + hex_digit_val b) # unhex cs"
| "unhex _ = []"

definition is_hex_upper :: "char \<Rightarrow> bool" where
  "is_hex_upper c \<longleftrightarrow> is_digit c \<or> (65 \<le> (of_char c :: nat) \<and> (of_char c :: nat) \<le> 70)"

lemma hex_upper_facts:
  assumes "n < 16"
  shows "hex_digit_val (hex_upper n) = n" and "is_hex_upper (hex_upper n)"
proof -
  have "of_char (hex_upper n) = (if n < 10 then 48 + n else 55 + n)"
    using assms by (simp add: hex_upper_def)
  with assms show "hex_digit_val (hex_upper n) = n" "is_hex_upper (hex_upper n)"
    by (simp_all add: hex_digit_val_def is_hex_upper_def is_digit_def)
qed

lemma hex02_upper_facts:
  "unhex (hex02_upper b @ cs) = b # unhex cs" "list_all is_hex_upper (hex02_upper b)"
  "length (hex02_upper b) = 2"
proof -
  have d: "unat b div 16 < 16" using unat_byte_less [of b] by (simp add: less_mult_imp_div_less)
  have "16 * (unat b div 16) + unat b mod 16 = unat b" by simp
  then have "(word_of_nat (16 * (unat b div 16) + unat b mod 16) :: u8) = word_of_nat (unat b)"
    by (rule arg_cong)
  also have "\<dots> = b" by simp
  finally show "unhex (hex02_upper b @ cs) = b # unhex cs"
    using d by (simp add: hex02_upper_def hex_upper_facts del: of_nat_add of_nat_mult)
  show "list_all is_hex_upper (hex02_upper b)" using d by (simp add: hex02_upper_def hex_upper_facts)
  show "length (hex02_upper b) = 2" by (simp add: hex02_upper_def)
qed

text \<open>Byte strings are written as hexadecimal literals that denote exactly those bytes and consist of two
  hexadecimal digits per byte, so no byte can end the literal.\<close>

lemma bytes_literal_roundtrip:
  "\<exists>digits. escape_bytes b enc = ''X'' @ quoted digits \<and> unhex digits = b \<and>
     length digits = 2 * length b \<and> list_all is_hex_upper digits"
proof -
  let ?digits = "concat (map hex02_upper b)"
  have "unhex ?digits = b \<and> length ?digits = 2 * length b \<and> list_all is_hex_upper ?digits"
    by (induction b) (simp_all add: hex02_upper_facts)
  then show ?thesis by (simp add: escape_bytes_def quoted_def)
qed

section \<open>The TIME type\<close>

text \<open>What the code relies on of \<open>TimeDelta\<close>: its parts are truncated towards zero and carry its sign.\<close>

definition timedelta_laws :: "'x externs \<Rightarrow> bool" where
  "timedelta_laws E \<longleftrightarrow> (\<forall>n. \<bar>n\<bar> \<le> max_micros \<longrightarrow>
     td_num_seconds E (td_microseconds E n) = sgn n * (\<bar>n\<bar> div 1000000) \<and>
     td_subsec_micros E (td_microseconds E n) = sgn n * (\<bar>n\<bar> mod 1000000))"

lemma is_digit_chars [simp]:
  "is_digit (CHR ''0'')" "\<not> is_digit (CHR '':'')" "\<not> is_digit (CHR ''.'')" "\<not> is_digit (CHR ''-'')"
  by (simp_all add: is_digit_def)

lemma digits_val_zeros: "digits_val (replicate k CHR ''0'' @ s) = digits_val s"
  by (induction k) (simp_all add: digits_val_def digit_val_def)

lemma pad0_facts:
  "list_all is_digit s \<Longrightarrow> list_all is_digit (pad0 n s)"
  "digits_val (pad0 n s) = digits_val s" "s \<noteq> [] \<Longrightarrow> pad0 n s \<noteq> []"
  "length (pad0 n s) = max n (length s)"
  by (auto simp: pad0_def digits_val_zeros list_all_iff)

lemma parse_signed_digits:
  assumes "list_all is_digit s" and "s \<noteq> []" and "lo \<le> int (digits_val s)" and "int (digits_val s) \<le> hi"
  shows "parse_signed lo hi s = Some (int (digits_val s))"
proof -
  obtain c cs where s: "s = c # cs" using assms(2) by (cases s) auto
  with assms(1) have "c \<noteq> CHR ''+'' \<and> c \<noteq> CHR ''-''" using is_digit_not_sign by auto
  with assms show ?thesis by (simp add: parse_signed_def s)
qed

lemma parse_unsigned_digits:
  assumes "list_all is_digit s" and "s \<noteq> []" and "digits_val s \<le> m"
  shows "parse_unsigned m s = Some (digits_val s)"
proof -
  obtain c cs where s: "s = c # cs" using assms(2) by (cases s) auto
  with assms(1) have "c \<noteq> CHR ''+''" using is_digit_not_sign by auto
  with assms show ?thesis by (simp add: parse_unsigned_def s)
qed

lemma takeWhile_until:
  assumes "c \<notin> set xs"
  shows "takeWhile ((\<noteq>) c) (xs @ c # ys) = xs" and "takeWhile ((\<noteq>) c) xs = xs"
  using assms by (induction xs) auto

lemma split_once_found: "c \<notin> set xs \<Longrightarrow> split_once c (xs @ c # ys) = (xs, Some ys)"
  by (simp add: split_once_def Let_def takeWhile_until)

lemma split_once_absent: "c \<notin> set xs \<Longrightarrow> split_once c xs = (xs, None)"
  by (simp add: split_once_def Let_def takeWhile_until)

lemma split_char_absent: "c \<notin> set xs \<Longrightarrow> split_char c xs = [xs]"
  by (induction xs) auto

lemma split_char_found: "c \<notin> set xs \<Longrightarrow> split_char c (xs @ c # ys) = xs # split_char c ys"
  by (induction xs) auto

lemma digits_absent: "list_all is_digit s \<Longrightarrow> \<not> is_digit c \<Longrightarrow> c \<notin> set s"
  by (auto simp: list_all_iff)

lemma digit_not_inner: "is_digit c \<Longrightarrow> \<not> utf8_inner c"
  by (simp add: is_digit_def utf8_inner_def)

lemma chars_of_digits:
  assumes "list_all is_digit s"
  shows "take_chars n s = take n s" and "count_chars s = length s"
proof -
  from assms show "take_chars n s = take n s"
    by (induction s arbitrary: n) (auto simp: digit_not_inner take_Cons split: nat.splits)
  from assms show "count_chars s = length s"
    by (induction s) (auto simp: digit_not_inner count_chars_def)
qed

lemma dec_length_le: "n < 10 ^ k \<Longrightarrow> 0 < k \<Longrightarrow> length (dec n) \<le> k"
proof (induction n arbitrary: k rule: dec.induct)
  case (1 n)
  show ?case
  proof (cases "n < 10")
    case True
    with "1.prems" show ?thesis by (simp add: dec.simps [of n])
  next
    case False
    then obtain j where k: "k = Suc j" "0 < j" using "1.prems" by (cases k; cases "k = 1") auto
    then have "n div 10 < 10 ^ j" using "1.prems" by (simp add: less_mult_imp_div_less mult.commute)
    with False k "1.IH" [of j] show ?thesis by (simp add: dec.simps [of n])
  qed
qed

text \<open>The decimal fields of the text.\<close>

definition field2 :: "nat \<Rightarrow> string" where
  "field2 n = pad0 2 (dec n)"

lemma field2_facts:
  "list_all is_digit (field2 n)" "digits_val (field2 n) = n" "field2 n \<noteq> []"
  by (simp_all add: field2_def pad0_facts dec_digits)

lemma parse_field2: "int n \<le> i64_max \<Longrightarrow> parse_signed i64_min i64_max (field2 n) = Some (int n)"
  using parse_signed_digits [of "field2 n" i64_min i64_max] by (simp add: field2_facts)

lemma sat_i64_id: "- (2 ^ 62) \<le> i \<Longrightarrow> i \<le> 2 ^ 62 \<Longrightarrow> sat_i64 i = i"
  by (simp add: sat_i64_def)

lemma sat_i64_pos: "0 \<le> i \<Longrightarrow> i \<le> 2 ^ 62 \<Longrightarrow> sat_i64 i = i"
  by (simp add: sat_i64_def)

lemma timedelta_secs_field:
  assumes "int v * 60 ^ i \<le> 2 ^ 61" and "(60 :: int) ^ i \<le> 2 ^ 61" and "0 \<le> secs" and "secs \<le> 2 ^ 61"
  shows "timedelta_secs (field2 v # ps) i secs = timedelta_secs ps (Suc i) (secs + int v * 60 ^ i)"
proof -
  have "int v * 1 \<le> int v * 60 ^ i" by (rule mult_left_mono) simp_all
  with assms(1) have "parse_signed i64_min i64_max (field2 v) = Some (int v)"
    by (intro parse_field2) simp
  moreover have pos: "0 \<le> int v * 60 ^ i" by simp
  moreover have "sat_i64 (int v * 60 ^ i) = int v * 60 ^ i"
    using pos assms(1) by (rule sat_i64_pos [OF _ order.trans]) simp
  moreover have "sat_i64 (secs + int v * 60 ^ i) = secs + int v * 60 ^ i"
    using add_nonneg_nonneg [OF assms(3) pos] add_mono [OF assms(4,1)] by (intro sat_i64_pos) simp_all
  ultimately show ?thesis
    using assms(2) by (simp add: Let_def)
qed

lemma timedelta_secs_hms:
  assumes "h < 2 ^ 40" and "m < 60" and "s < 60"
  shows "timedelta_secs [field2 s, field2 m, field2 h] 0 0 = int (3600 * h + 60 * m + s)"
  using assms by (simp add: timedelta_secs_field del: timedelta_secs.simps(2))

definition hms_text :: "nat \<Rightarrow> string" where
  "hms_text t = field2 (t div 3600) @ '':'' @ field2 (t mod 3600 div 60) @ '':'' @ field2 (t mod 60)"

lemma hms_text_chars: "c \<in> set (hms_text t) \<Longrightarrow> is_digit c \<or> c = CHR '':''"
  using field2_facts(1) by (auto simp: hms_text_def list_all_iff)

lemma hms_text_start: "\<exists>c cs. hms_text t = c # cs \<and> is_digit c"
  using field2_facts [of "t div 3600"] by (cases "field2 (t div 3600)") (auto simp: hms_text_def)

lemma timedelta_secs_hms_text:
  assumes "t < 2 ^ 40"
  shows "timedelta_secs (rev (split_char (CHR '':'') (hms_text t))) 0 0 = int t"
proof -
  have "split_char (CHR '':'') (hms_text t) =
      [field2 (t div 3600), field2 (t mod 3600 div 60), field2 (t mod 60)]"
    using field2_facts(1) by (simp add: hms_text_def split_char_found split_char_absent digits_absent)
  moreover have "t div 3600 < 2 ^ 40" "t mod 3600 div 60 < 60" "t mod 60 < 60"
    using assms by (simp_all add: less_mult_imp_div_less order_le_less_trans [OF div_le_dividend])
  moreover have "3600 * (t div 3600) + 60 * (t mod 3600 div 60) + t mod 60 = t"
  proof -
    have "t mod 3600 = 60 * (t mod 3600 div 60) + t mod 3600 mod 60" by simp
    moreover have "t mod 3600 mod 60 = t mod 60" by (simp add: mod_mod_cancel)
    ultimately show ?thesis by (metis add.assoc mult_div_mod_eq)
  qed
  ultimately show ?thesis by (simp add: timedelta_secs_hms del: timedelta_secs.simps)
qed

text \<open>Decoding the text of \<open>t\<close> seconds and \<open>us\<close> microseconds.\<close>

definition time_text :: "nat \<Rightarrow> nat \<Rightarrow> string" where
  "time_text t us = (if 0 < us then hms_text t @ ''.'' @ pad0 6 (dec us) else hms_text t)"

lemma split_time_text:
  "split_once (CHR ''.'') (time_text t us) =
     (hms_text t, if 0 < us then Some (pad0 6 (dec us)) else None)"
proof -
  have "CHR ''.'' \<notin> set (hms_text t)" using hms_text_chars by fastforce
  then show ?thesis by (simp add: time_text_def split_once_found split_once_absent)
qed

lemma fraction_text:
  assumes "us < 1000000"
  shows "timedelta_fraction (if 0 < us then Some (pad0 6 (dec us)) else None) = Some (int us)"
proof -
  have digits: "list_all is_digit (pad0 6 (dec us))" by (simp add: pad0_facts dec_digits)
  have len: "length (pad0 6 (dec us)) = 6"
    using dec_length_le [of us 6] assms by (simp add: pad0_facts)
  have "take_chars 6 (pad0 6 (dec us)) = pad0 6 (dec us)" "count_chars (pad0 6 (dec us)) = 6"
    by (simp_all add: chars_of_digits [OF digits] len)
  moreover have "parse_unsigned (2 ^ 32 - 1) (pad0 6 (dec us)) = Some us"
    using parse_unsigned_digits [OF digits, of "2 ^ 32 - 1"] assms by (simp add: pad0_facts)
  moreover have "sat_i64 (int us) = int us" using assms by (simp add: sat_i64_id)
  ultimately show ?thesis by (simp add: timedelta_fraction_def Let_def)
qed

lemma trim_time_text:
  "trim_start_char (CHR ''-'') (time_text t us) = time_text t us"
  "trim_start_char (CHR ''-'') (CHR ''-'' # time_text t us) = time_text t us"
  "time_text t us \<noteq> [] \<and> hd (time_text t us) \<noteq> CHR ''-''"
  using hms_text_start [of t] by (auto simp: time_text_def trim_start_char_def is_digit_def)

lemma convert_time_text:
  assumes "us < 1000000" and "int t * 1000000 + int us \<le> max_micros"
  shows "convert_timedelta E ((if neg then ''-'' else []) @ time_text t us) =
    VTimeSpan (td_microseconds E
      (if neg then - (int t * 1000000 + int us) else int t * 1000000 + int us))"
proof -
  let ?s0 = "(if neg then ''-'' else []) @ time_text t us"
  have t: "t < 2 ^ 40" using assms(2) by (simp add: max_micros_def)
  have sat: "sat_i64 (int t * 1000000) = int t * 1000000"
      "sat_i64 (int t * 1000000 + int us) = int t * 1000000 + int us"
    using assms by (simp_all add: sat_i64_id max_micros_def)
  have clamp: "max (- max_micros) (min max_micros (int t * 1000000 + int us)) = int t * 1000000 + int us"
    using assms(2) by (simp add: max_micros_def)
  have s0: "?s0 \<noteq> [] \<and> hd ?s0 = CHR ''-'' \<longleftrightarrow> neg" "trim_start_char (CHR ''-'') ?s0 = time_text t us"
    using trim_time_text [of t us] by (auto split: if_splits)
  show ?thesis
    by (simp only: convert_timedelta_def s0 split_time_text fraction_text [OF assms(1)]
        timedelta_secs_hms_text [OF t] sat clamp Let_def option.case prod.case)
qed

lemma format_timedelta_text:
  assumes "timedelta_laws E" and "\<bar>n\<bar> \<le> max_micros"
  shows "format_timedelta E (td_microseconds E n) =
    (if n < 0 then ''-'' else []) @ time_text (nat \<bar>n\<bar> div 1000000) (nat \<bar>n\<bar> mod 1000000)"
proof -
  let ?s = "\<bar>n\<bar> div 1000000" and ?us = "\<bar>n\<bar> mod 1000000"
  have parts: "td_num_seconds E (td_microseconds E n) = sgn n * ?s"
      "td_subsec_micros E (td_microseconds E n) = sgn n * ?us"
    using assms by (simp_all add: timedelta_laws_def)
  have "sgn n * ?s < 0 \<or> (sgn n * ?s = 0 \<and> sgn n * ?us < 0) \<longleftrightarrow> n < 0"
  proof (cases n "0 :: int" rule: linorder_cases)
    case less
    have "\<bar>n\<bar> = 1000000 * ?s + ?us" by simp
    with less have "0 < ?s \<or> (?s = 0 \<and> 0 < ?us)" by (auto simp: pos_imp_zdiv_pos_iff)
    with less show ?thesis by auto
  qed (simp_all add: zdiv_int)
  moreover have "nat \<bar>sgn n * ?s\<bar> = nat \<bar>n\<bar> div 1000000" "nat \<bar>sgn n * ?us\<bar> = nat \<bar>n\<bar> mod 1000000"
    by (simp_all add: abs_mult nat_div_distrib nat_mod_distrib)
  ultimately show ?thesis
    by (simp add: format_timedelta_def parts time_text_def hms_text_def field2_def Let_def)
qed

text \<open>\<open>TIME\<close> values survive the round trip through their text: decoding the literal text of any time span
  that the decoder can produce gives the same time span, negative spans, spans over 24 hours and
  fractions of a second included.\<close>

lemma timedelta_roundtrip:
  assumes "timedelta_laws E" and "\<bar>n\<bar> \<le> max_micros"
  shows "convert_timedelta E (format_timedelta E (td_microseconds E n)) = VTimeSpan (td_microseconds E n)"
proof -
  let ?a = "nat \<bar>n\<bar>"
  have a: "int (?a div 1000000) * 1000000 + int (?a mod 1000000) = \<bar>n\<bar>"
    by (metis abs_ge_zero int_nat_eq mult.commute mult_div_mod_eq of_nat_add of_nat_mult of_nat_numeral)
  have "convert_timedelta E ((if n < 0 then ''-'' else []) @ time_text (?a div 1000000) (?a mod 1000000)) =
      VTimeSpan (td_microseconds E (if n < 0 then - \<bar>n\<bar> else \<bar>n\<bar>))"
    using convert_time_text [of "?a mod 1000000" "?a div 1000000" E "n < 0"] assms(2)
    unfolding a by simp
  then show ?thesis by (simp add: format_timedelta_text [OF assms])
qed

text \<open>An instance of the libraries in which a time span is its number of microseconds.\<close>

definition int_externs :: "int externs" where
  "int_externs =
     \<lparr>float_debug = (\<lambda>_. ''0.0''), float_parse = (\<lambda>_. None), date_format = dec_int,
      date_parse = (\<lambda>_. None), time_format = dec_int, datetime_format = dec_int,
      datetime_parse = (\<lambda>_. None), datetime_add_micros = (+), datetime_in_range = (\<lambda>x n. \<bar>x + n\<bar> < 2 ^ 63), td_microseconds = id,
      td_num_seconds = (\<lambda>n. sgn n * (\<bar>n\<bar> div 1000000)),
      td_subsec_micros = (\<lambda>n. sgn n * (\<bar>n\<bar> mod 1000000)),
      decimal_parse = (\<lambda>_. None), decimal_to_string = dec_int\<rparr>"

lemma int_externs_laws: "timedelta_laws int_externs"
  by (simp add: timedelta_laws_def int_externs_def)

lemma timedelta_roundtrip_instance:
  "convert_timedelta int_externs (format_timedelta int_externs (- 3661000001)) = VTimeSpan (- 3661000001)"
  using timedelta_roundtrip [OF int_externs_laws, of "- 3661000001"]
  by (simp add: max_micros_def int_externs_def)

section \<open>Decoders do not panic\<close>

text \<open>What the decoder of timestamps relies on: a timestamp that was parsed has whole seconds, so adding less than a
  second stays in range.\<close>

definition datetime_laws :: "'x externs \<Rightarrow> bool" where
  "datetime_laws E \<longleftrightarrow> (\<forall>s dt n. datetime_parse E s = Some dt \<longrightarrow> 0 \<le> n \<longrightarrow> n < 1000000 \<longrightarrow> datetime_in_range E dt n)"

lemma digits_val_bound: "list_all is_digit s \<Longrightarrow> digits_val s < 10 ^ length s"
proof (induction s rule: rev_induct)
  case (snoc c s)
  then have "digit_val c < 10" "digits_val s < 10 ^ length s" by (auto simp: is_digit_def digit_val_def)
  then show ?case by simp
qed simp

lemma count_take_chars: "\<not> list_ex utf8_inner (take_chars n s) \<Longrightarrow> length (take_chars n s) \<le> n"
  by (induction n s rule: take_chars.induct) (auto split: nat.splits if_splits)

text \<open>A fraction that is a number has at most six characters, all of them of one byte, and denotes less than a
  second.\<close>

lemma fraction_bounds:
  assumes "parse_unsigned M (take_chars 6 f) = Some m"
  shows "length (take_chars 6 f) \<le> 6" and "m < 10 ^ length (take_chars 6 f)"
proof -
  let ?s = "take_chars 6 f"
  obtain ds where ds: "?s = ds \<or> ?s = CHR ''+'' # ds" "list_all is_digit ds" "m = digits_val ds"
    using assms by (cases ?s) (auto simp: parse_unsigned_def Let_def split: if_splits)
  have plus: "\<not> utf8_inner (CHR ''+'')" by (simp add: utf8_inner_def)
  with ds(1,2) have "\<not> list_ex utf8_inner ?s" by (auto simp: list_ex_iff list_all_iff digit_not_inner)
  then show "length ?s \<le> 6" by (rule count_take_chars)
  have "m < 10 ^ length ds" using digits_val_bound [OF ds(2)] ds(3) by simp
  also have "\<dots> \<le> 10 ^ length ?s" using ds(1) by (intro power_increasing) auto
  finally show "m < 10 ^ length ?s" .
qed

lemma convert_datetime_returns:
  assumes "datetime_laws E"
  shows "convert_datetime_run E s = Inr (convert_datetime E s)"
proof -
  have "bind_res (u32_checked (6 - int (length frac mod 2 ^ 32))) (\<lambda>e. bind_res (u32_checked (10 ^ e)) (\<lambda>scale.
        bind_res (u32_checked (int m * int scale)) (\<lambda>micros.
        if datetime_in_range E dt (int micros) then Inr (VDateTime (datetime_add_micros E dt (int micros))) else Inl Panic))) =
      Inr (VDateTime (datetime_add_micros E dt (int (m * 10 ^ (6 - length frac)))))"
    if p: "parse_unsigned (2 ^ 32 - 1) frac = Some m" "frac = take_chars 6 f" and dt: "datetime_parse E b = Some dt"
    for frac f m dt b
  proof -
    have len: "length frac \<le> 6" and m: "m < 10 ^ length frac" using fraction_bounds [of "2 ^ 32 - 1" f m] p by simp_all
    have e: "u32_checked (6 - int (length frac mod 2 ^ 32)) = Inr (6 - length frac)"
      using len by (simp add: u32_checked_def nat_diff_distrib)
    have "(10 :: nat) ^ (6 - length frac) \<le> 10 ^ 6" by (intro power_increasing) simp_all
    then have "int (10 ^ (6 - length frac)) \<le> int (10 ^ 6)" by (simp only: of_nat_le_iff)
    then have sc: "u32_checked (10 ^ (6 - length frac)) = Inr (10 ^ (6 - length frac))"
      by (simp add: u32_checked_def nat_power_eq)
    have "m * 10 ^ (6 - length frac) < 10 ^ length frac * 10 ^ (6 - length frac)" using m by simp
    also have "\<dots> = 10 ^ 6" using len by (simp flip: power_add)
    finally have mic: "m * 10 ^ (6 - length frac) < 1000000" by simp
    then have "int (m * 10 ^ (6 - length frac)) < 1000000" by linarith
    then have "u32_checked (int m * int (10 ^ (6 - length frac))) = Inr (m * 10 ^ (6 - length frac))"
      by (simp add: u32_checked_def nat_mult_distrib nat_power_eq)
    moreover have "datetime_in_range E dt (int (m * 10 ^ (6 - length frac)))"
      using assms dt mic unfolding datetime_laws_def by (metis of_nat_0_le_iff of_nat_less_iff of_nat_numeral)
    ultimately show ?thesis by (simp only: e sc bind_res_simps if_True)
  qed
  then show ?thesis
    by (auto simp: convert_datetime_run_def convert_datetime_def Let_def simp del: of_nat_mult of_nat_power split: prod.split option.split)
qed

lemma convert_timedelta_returns: "convert_timedelta_run E s = Inr (convert_timedelta E s)"
proof -
  have "i64_neg (max (- max_micros) n) = Inr (- max (- max_micros) n)" for n
    by (auto simp: i64_neg_def max_micros_def max_def)
  then show ?thesis
    by (simp add: convert_timedelta_run_def convert_timedelta_def Let_def split: prod.split option.split)
qed

text \<open>Every decoder returns, on every text, the value of its total counterpart.\<close>

lemma decoders_return:
  assumes "datetime_laws E"
  shows "\<exists>run conv. decoder_run E ft = Some run \<and> decoder_for E ft = Some conv \<and> (\<forall>s. run s = Inr (conv s))"
  using convert_datetime_returns [OF assms] by (simp add: convert_timedelta_returns decoder_run_def decoder_for_def)

text \<open>An instance of the libraries with timestamps: seconds since an epoch, in text behind any form feeds.\<close>

definition clock_externs :: "int externs" where
  "clock_externs = int_externs\<lparr>datetime_parse :=
     (\<lambda>s. map_option (\<lambda>n. 1000000 * int n) (parse_unsigned 4294967295 (dropWhile ((=) (CHR 0x0C)) s)))\<rparr>"

lemma clock_externs_laws: "datetime_laws clock_externs"
proof -
  have "parse_unsigned 4294967295 s = Some m \<Longrightarrow> m \<le> 4294967295" for s m
    by (simp add: parse_unsigned_def Let_def split: if_splits)
  then show ?thesis
    by (fastforce simp: datetime_laws_def clock_externs_def int_externs_def)
qed

section \<open>Multi-byte character sets\<close>

text \<open>
  How a server reads a literal when the character set of the connection is \<open>gbk\<close>: a byte from \<open>0x81\<close> to
  \<open>0xFE\<close> takes the following byte with it when that is at least \<open>0x40\<close>, a backslash included.
\<close>

definition gbk_pair :: "char \<Rightarrow> char \<Rightarrow> bool" where
  "gbk_pair c d \<longleftrightarrow> 129 \<le> (of_char c :: nat) \<and> (of_char c :: nat) \<le> 254 \<and> 64 \<le> (of_char d :: nat)"

fun lex_gbk :: "string \<Rightarrow> (string \<times> string) option" where
  "lex_gbk [] = None"
| "lex_gbk [c] = (if c = QUOTE then Some ([], []) else None)"
| "lex_gbk (c # d # cs) =
     (if gbk_pair c d then map_option (\<lambda>(t, rest). (c # d # t, rest)) (lex_gbk cs)
      else if c = QUOTE then
        (if d = QUOTE then map_option (\<lambda>(t, rest). (QUOTE # t, rest)) (lex_gbk cs)
         else Some ([], d # cs))
      else if c = BACKSLASH then
        map_option (\<lambda>(t, rest). (unescape_char d @ t, rest)) (lex_gbk cs)
      else map_option (\<lambda>(t, rest). (c # t, rest)) (lex_gbk (d # cs)))"

lemma escape_char_start: "\<exists>d cs. escape_char c = d # cs \<and> d \<noteq> QUOTE"
  by (simp add: escape_char_def)

text \<open>Statements are sent as UTF-8 whatever the character set of the connection is.  On a \<open>gbk\<close> connection
  the literal of a string is therefore not read back: after the three UTF-8 bytes of a kana character the
  server takes the escaping backslash as part of a double-byte character, the quote behind it ends the
  literal, and the rest of the string is read as SQL.\<close>

lemma gbk_literal_broken:
  assumes "payload \<noteq> []"
  shows "lex_gbk (escape_string (from_bytes [0xE3, 0x81, 0x82] @ QUOTE # payload) @ [QUOTE]) =
    Some (from_bytes [0xE3, 0x81, 0x82, 0x5C], escape_string payload @ [QUOTE])"
proof -
  obtain c cs d ds where "payload = c # cs" "escape_char c = d # ds" "d \<noteq> QUOTE"
    using assms escape_char_start by (cases payload) blast+
  then have e: "escape_string payload @ [QUOTE] = d # ds @ escape_string cs @ [QUOTE]" "d \<noteq> QUOTE" by simp_all
  have "from_bytes [0xE3, 0x81, 0x82, 0x5C] = [CHR 0xE3, CHR 0x81, CHR 0x82, BACKSLASH]"
    by (simp add: from_bytes_def char_of_eq_iff)
  then show ?thesis
    using e by (simp add: from_bytes_def escape_char_def gbk_pair_def)
qed

lemma gbk_literal_broken_instance:
  "lex_gbk (escape_string (from_bytes [0xE3, 0x81, 0x82] @ QUOTE # '' OR 1'') @ [QUOTE]) =
     Some (from_bytes [0xE3, 0x81, 0x82, 0x5C], '' OR 1'' @ [QUOTE])"
  using gbk_literal_broken [of "'' OR 1''"] by (simp add: escape_char_def)

end
