(* ===== verification/Option_File.thy ===== *)
theory Option_File
  imports Converters
begin

text \<open>
  The option file parser of \<^verbatim>\<open>mysql-core/src/optionfile.rs\<close>.  Reading the file is I/O; the model starts at
  its text.  \<open>str::to_lowercase\<close> is the parameter \<open>lc\<close>, as in the character set registry.
\<close>

section \<open>Lines and blanks\<close>

text \<open>\<open>str::lines\<close>: a line that ends in a line feed loses it and a carriage return before it.\<close>

definition strip_cr :: "string \<Rightarrow> string" where
  "strip_cr s = (if s \<noteq> [] \<and> last s = CHR 0x0D then butlast s else s)"

definition str_lines :: "string \<Rightarrow> string list" where
  "str_lines s =
     (let parts = split_char (CHR 0x0A) s
      in map strip_cr (butlast parts) @ (if last parts = [] then [] else [last parts]))"

text \<open>The UTF-8 encodings of the characters with the Unicode property \<open>White_Space\<close>, which \<open>str::trim\<close> removes.\<close>

definition whitespace :: "string list" where
  "whitespace =
     map (\<lambda>n. [char_of n]) [0x09 :: nat, 0x0A, 0x0B, 0x0C, 0x0D, 0x20] @
     map (map char_of) ([[0xC2, 0x85], [0xC2, 0xA0], [0xE1, 0x9A, 0x80], [0xE2, 0x80, 0xA8],
       [0xE2, 0x80, 0xA9], [0xE2, 0x80, 0xAF], [0xE2, 0x81, 0x9F], [0xE3, 0x80, 0x80]] :: nat list list) @
     map (\<lambda>n. map char_of [0xE2, 0x80, n]) [0x80 :: nat ..< 0x8B]"

definition strip_prefixes :: "string list \<Rightarrow> string \<Rightarrow> string option" where
  "strip_prefixes ws s =
     map_option (\<lambda>w. drop (length w) s) (find (\<lambda>w. w \<noteq> [] \<and> take (length w) s = w) ws)"

lemma strip_prefixes_shorter: "strip_prefixes ws s = Some s' \<Longrightarrow> length s' < length s"
  by (cases s) (auto simp: strip_prefixes_def find_Some_iff intro!: diff_less)

function trim_prefixes :: "string list \<Rightarrow> string \<Rightarrow> string" where
  "trim_prefixes ws s = (case strip_prefixes ws s of Some s' \<Rightarrow> trim_prefixes ws s' | None \<Rightarrow> s)"
  by pat_completeness auto
termination
  by (relation "measure (\<lambda>(_, s). length s)") (auto simp: strip_prefixes_shorter)

declare trim_prefixes.simps [simp del]

definition str_trim :: "string \<Rightarrow> string" where
  "str_trim s = rev (trim_prefixes (map rev whitespace) (rev (trim_prefixes whitespace s)))"

section \<open>The parser\<close>

record option_file =
  of_groups :: "string \<rightharpoonup> (string \<rightharpoonup> string)"

definition parse_error :: "nat \<Rightarrow> string \<Rightarrow> error" where
  "parse_error line_no message = OperationalError CR_UNKNOWN_ERROR
     (''Invalid option file at line '' @ dec (line_no + 1) @ '': '' @ message)"

definition split_key_value :: "string \<Rightarrow> string \<times> string" where
  "split_key_value line =
     (case find_index (\<lambda>ch. ch = CHR ''='' \<or> ch = CHR '':'') line of
        Some i \<Rightarrow> (take i line, drop (i + 1) line)
      | None \<Rightarrow> (line, []))"

definition strip_quotes :: "string \<Rightarrow> string" where
  "strip_quotes s =
     (if 2 \<le> length s \<and> (hd s = CHR 0x27 \<or> hd s = CHR 0x22) \<and> last s = hd s
      then take (length s - 2) (drop 1 s) else s)"

definition insert_option :: "string \<Rightarrow> string \<Rightarrow> string \<Rightarrow> option_file \<Rightarrow> option_file" where
  "insert_option grp key val opts =
     opts\<lparr>of_groups := (of_groups opts)(grp \<mapsto>
       (case of_groups opts grp of None \<Rightarrow> Map.empty | Some m \<Rightarrow> m)(key \<mapsto> val))\<rparr>"

text \<open>The loop over the lines, with the line number, the current group and the file built so far.\<close>

fun parse_lines :: "(string \<Rightarrow> string) \<Rightarrow> nat \<Rightarrow> string option \<Rightarrow> option_file \<Rightarrow> string list \<Rightarrow>
    error + option_file" where
  "parse_lines lc line_no current opts [] = Inr opts"
| "parse_lines lc line_no current opts (raw_line # raw_lines) =
     (let line = str_trim raw_line
      in if line = [] \<or> hd line = CHR ''#'' \<or> hd line = CHR '';'' then
           parse_lines lc (line_no + 1) current opts raw_lines
         else if hd line = CHR ''['' then
           (if last line \<noteq> CHR '']'' then Inl (parse_error line_no ''unclosed section header'')
            else
              (let name = str_trim (take (length line - 2) (drop 1 line))
               in if name = [] then Inl (parse_error line_no ''empty section name'')
                  else parse_lines lc (line_no + 1) (Some name) opts raw_lines))
         else
           (case current of
              None \<Rightarrow> Inl (parse_error line_no ''option without a section'')
            | Some grp \<Rightarrow>
                (let (k, v) = split_key_value line;
                     key = replace_char (CHR ''_'') ''-'' (lc (str_trim k))
                 in if key = [] then Inl (parse_error line_no ''empty option name'')
                    else parse_lines lc (line_no + 1) current
                      (insert_option grp key (strip_quotes (str_trim v)) opts) raw_lines)))"

definition option_file_parse :: "(string \<Rightarrow> string) \<Rightarrow> string \<Rightarrow> error + option_file" where
  "option_file_parse lc text = parse_lines lc 0 None \<lparr>of_groups = Map.empty\<rparr> (str_lines text)"

definition option_get :: "option_file \<Rightarrow> string \<Rightarrow> string \<Rightarrow> string option" where
  "option_get opts grp key = Option.bind (of_groups opts grp) (\<lambda>options. options key)"

section \<open>Trimming text that needs none\<close>

definition plain_char :: "char \<Rightarrow> bool" where
  "plain_char c \<longleftrightarrow> 33 \<le> (of_char c :: nat) \<and> (of_char c :: nat) \<le> 126"

lemma whitespace_bounds:
  "list_all (\<lambda>w. w \<noteq> [] \<and> \<not> plain_char (hd w) \<and> \<not> plain_char (last w)) whitespace"
  by (simp add: whitespace_def plain_char_def upt_rec)

lemma strip_prefixes_None:
  "list_all (\<lambda>w. w \<noteq> [] \<longrightarrow> \<not> plain_char (hd w)) ws \<Longrightarrow> plain_char c \<Longrightarrow> strip_prefixes ws (c # s) = None"
  by (auto simp: strip_prefixes_def find_None_iff list_all_iff take_Cons split: nat.splits)

lemma trim_prefixes_plain:
  "list_all (\<lambda>w. w \<noteq> [] \<longrightarrow> \<not> plain_char (hd w)) ws \<Longrightarrow> plain_char c \<Longrightarrow> trim_prefixes ws (c # s) = c # s"
  by (subst trim_prefixes.simps) (simp add: strip_prefixes_None)

lemma str_trim_plain:
  assumes "s \<noteq> []" and "plain_char (hd s)" and "plain_char (last s)"
  shows "str_trim s = s"
proof -
  obtain c cs where s: "s = c # cs" using assms(1) by (cases s) auto
  obtain d ds where r: "rev s = d # ds" "d = last s" using assms(1) by (cases "rev s") (auto simp: last_rev [symmetric])
  have "list_all (\<lambda>w. w \<noteq> [] \<longrightarrow> \<not> plain_char (hd w)) whitespace"
    "list_all (\<lambda>w. w \<noteq> [] \<longrightarrow> \<not> plain_char (hd w)) (map rev whitespace)"
    using whitespace_bounds by (auto simp: list_all_iff hd_rev)
  then have "trim_prefixes whitespace s = s" "trim_prefixes (map rev whitespace) (rev s) = rev s"
    using assms s r trim_prefixes_plain [of whitespace c cs] trim_prefixes_plain [of "map rev whitespace" d ds]
    by simp_all
  then show ?thesis by (simp add: str_trim_def)
qed

lemma str_trim_Nil [simp]: "str_trim [] = []"
proof -
  have "strip_prefixes ws [] = None" for ws by (auto simp: strip_prefixes_def find_None_iff)
  then show ?thesis by (simp add: str_trim_def trim_prefixes.simps)
qed

section \<open>Files in canonical form\<close>

text \<open>
  A configuration as a list of groups with their options, and its text: one header per group and one
  \<open>key="value"\<close> line per option.
\<close>

definition key_char :: "char \<Rightarrow> bool" where
  "key_char c \<longleftrightarrow> (let n = (of_char c :: nat) in (97 \<le> n \<and> n \<le> 122) \<or> (48 \<le> n \<and> n \<le> 57) \<or> n = 45)"

definition good_key :: "string \<Rightarrow> bool" where
  "good_key k \<longleftrightarrow> k \<noteq> [] \<and> list_all key_char k"

definition good_group :: "string \<Rightarrow> bool" where
  "good_group g \<longleftrightarrow> g \<noteq> [] \<and> plain_char (hd g) \<and> plain_char (last g) \<and> CHR 0x0A \<notin> set g"

definition good_config :: "(string \<times> (string \<times> string) list) list \<Rightarrow> bool" where
  "good_config gs \<longleftrightarrow>
     list_all (\<lambda>(g, kvs). good_group g \<and> list_all (\<lambda>(k, v). good_key k \<and> CHR 0x0A \<notin> set v) kvs) gs"

definition option_line :: "string \<Rightarrow> string \<Rightarrow> string" where
  "option_line k v = k @ CHR ''='' # CHR 0x22 # v @ [CHR 0x22]"

definition section_line :: "string \<Rightarrow> string" where
  "section_line g = CHR ''['' # g @ '']''"

fun config_lines :: "(string \<times> (string \<times> string) list) list \<Rightarrow> string list" where
  "config_lines [] = []"
| "config_lines ((g, kvs) # gs) = section_line g # map (\<lambda>(k, v). option_line k v) kvs @ config_lines gs"

definition render_config :: "(string \<times> (string \<times> string) list) list \<Rightarrow> string" where
  "render_config gs = concat (map (\<lambda>l. l @ [CHR 0x0A]) (config_lines gs))"

definition config_options :: "(string \<times> (string \<times> string) list) list \<Rightarrow> ((string \<times> string) \<times> string) list" where
  "config_options gs = concat (map (\<lambda>(g, kvs). map (\<lambda>(k, v). ((g, k), v)) kvs) gs)"

lemma str_lines_unlines:
  assumes "list_all (\<lambda>l. CHR 0x0A \<notin> set l \<and> strip_cr l = l) ls"
  shows "str_lines (concat (map (\<lambda>l. l @ [CHR 0x0A]) ls)) = ls"
proof -
  have "split_char (CHR 0x0A) (concat (map (\<lambda>l. l @ [CHR 0x0A]) ls)) = ls @ [[]]"
    using assms by (induction ls) (simp_all add: split_char_found)
  moreover have "map strip_cr ls = ls" using assms by (induction ls) simp_all
  ultimately show ?thesis by (simp add: str_lines_def)
qed

lemma key_char_plain: "key_char c \<Longrightarrow> plain_char c"
  by (auto simp: key_char_def plain_char_def Let_def)

lemma key_char_not:
  "key_char c \<Longrightarrow> c \<noteq> CHR ''='' \<and> c \<noteq> CHR '':'' \<and> c \<noteq> CHR ''#'' \<and> c \<noteq> CHR '';'' \<and> c \<noteq> CHR ''['' \<and>
     c \<noteq> CHR ''_'' \<and> c \<noteq> CHR 0x0A"
  by (auto simp: key_char_def Let_def)

lemma good_key_facts:
  assumes "good_key k" and "lowercases_ascii lc"
  shows "str_trim k = k" and "replace_char (CHR ''_'') ''-'' (lc k) = k" and "k \<noteq> []" "key_char (hd k)"
proof -
  have key: "\<forall>c \<in> set k. key_char c" and ne: "k \<noteq> []"
    using assms(1) by (auto simp: good_key_def list_all_iff)
  then show "k \<noteq> []" "key_char (hd k)" by simp_all
  from key ne show "str_trim k = k" by (intro str_trim_plain) (simp_all add: key_char_plain)
  have "ascii_str k" using key by (auto simp: ascii_str_def list_all_iff key_char_def Let_def)
  moreover have "map ascii_lower k = k"
    using key by (intro map_idI) (auto simp: ascii_lower_def key_char_def Let_def)
  moreover have "replace_char (CHR ''_'') ''-'' k = k"
    using key key_char_not by (induction k) auto
  ultimately show "replace_char (CHR ''_'') ''-'' (lc k) = k"
    using assms(2) by (simp add: lowercases_ascii_def)
qed

lemma parse_section_line:
  assumes "good_group g"
  shows "parse_lines lc n cur opts (section_line g # ls) = parse_lines lc (n + 1) (Some g) opts ls"
proof -
  have "str_trim (section_line g) = section_line g"
    by (rule str_trim_plain) (simp_all add: section_line_def plain_char_def)
  moreover have "str_trim g = g" using assms by (intro str_trim_plain) (simp_all add: good_group_def)
  ultimately show ?thesis
    using assms by (simp add: section_line_def good_group_def)
qed

lemma split_option_line:
  assumes "good_key k"
  shows "split_key_value (option_line k v) = (k, CHR 0x22 # v @ [CHR 0x22])"
proof -
  have "find_index (\<lambda>ch. ch = CHR ''='' \<or> ch = CHR '':'') k = None"
    using assms key_char_not by (auto simp: find_index_None good_key_def list_all_iff)
  then show ?thesis by (simp add: split_key_value_def option_line_def find_index_append)
qed

lemma parse_option_line:
  assumes "good_key k" and "lowercases_ascii lc"
  shows "parse_lines lc n (Some g) opts (option_line k v # ls) =
    parse_lines lc (n + 1) (Some g) (insert_option g k v opts) ls"
proof -
  let ?q = "CHR 0x22 # v @ [CHR 0x22]"
  obtain c cs where k: "k = c # cs" "key_char c" using good_key_facts(3,4) [OF assms] by (cases k) auto
  have "str_trim (option_line k v) = option_line k v"
    using key_char_plain [OF k(2)] by (intro str_trim_plain) (simp_all add: option_line_def k plain_char_def)
  moreover have "str_trim ?q = ?q" by (rule str_trim_plain) (simp_all add: plain_char_def)
  moreover have "strip_quotes ?q = v" by (simp add: strip_quotes_def)
  moreover have "hd (option_line k v) = c" "option_line k v \<noteq> []" by (simp_all add: option_line_def k)
  ultimately show ?thesis
    using key_char_not [OF k(2)] good_key_facts [OF assms] split_option_line [OF assms(1), of v]
    by simp
qed

lemma option_get_insert:
  "option_get (insert_option g k v opts) g' k' = (if g' = g \<and> k' = k then Some v else option_get opts g' k')"
  by (auto simp: option_get_def insert_option_def split: option.splits)

lemma parse_option_lines:
  assumes "list_all (\<lambda>(k, v). good_key k \<and> CHR 0x0A \<notin> set v) kvs" and "lowercases_ascii lc"
  shows "parse_lines lc n (Some g) opts (map (\<lambda>(k, v). option_line k v) kvs @ ls) =
    parse_lines lc (n + length kvs) (Some g) (fold (\<lambda>(k, v). insert_option g k v) kvs opts) ls"
  using assms(1) by (induction kvs arbitrary: n opts) (auto simp: parse_option_line [OF _ assms(2)] simp del: parse_lines.simps(2))

lemma parse_config_lines:
  assumes "good_config gs" and "lowercases_ascii lc"
  shows "parse_lines lc n cur opts (config_lines gs) =
    Inr (fold (\<lambda>((g, k), v). insert_option g k v) (config_options gs) opts)"
  using assms(1)
proof (induction gs arbitrary: n cur opts)
  case (Cons gk gs)
  obtain g kvs where gk: "gk = (g, kvs)" by (cases gk)
  have "fold (\<lambda>((g, k), v). insert_option g k v) (map (\<lambda>(k, v). ((g, k), v)) kvs) opts =
      fold (\<lambda>(k, v). insert_option g k v) kvs opts" for opts
    by (induction kvs arbitrary: opts) auto
  with Cons gk show ?case
    by (simp add: good_config_def config_options_def parse_section_line parse_option_lines [OF _ assms(2)]
        del: parse_lines.simps(2))
qed (simp add: config_options_def)

lemma option_get_fold:
  "option_get (fold (\<lambda>((g, k), v). insert_option g k v) os opts) g k =
     (case map_of (rev os) (g, k) of Some v \<Rightarrow> Some v | None \<Rightarrow> option_get opts g k)"
  by (induction os arbitrary: opts)
    (auto simp: option_get_insert map_of_append map_add_def split: option.splits if_splits)

lemma config_lines_ok:
  "good_config gs \<Longrightarrow> list_all (\<lambda>l. CHR 0x0A \<notin> set l \<and> strip_cr l = l) (config_lines gs)"
proof (induction gs)
  case (Cons gk gs)
  obtain g kvs where gk: "gk = (g, kvs)" by (cases gk)
  have "list_all (\<lambda>(k, v). good_key k \<and> CHR 0x0A \<notin> set v) kvs"
    using Cons.prems gk by (simp add: good_config_def)
  then have "list_all (\<lambda>l. CHR 0x0A \<notin> set l \<and> strip_cr l = l) (map (\<lambda>(k, v). option_line k v) kvs)"
    by (auto simp: list_all_iff option_line_def strip_cr_def good_key_def dest!: key_char_not bspec)
  with Cons gk show ?case
    by (auto simp: good_config_def section_line_def strip_cr_def good_group_def)
qed simp

lemma parse_render_config:
  assumes "lowercases_ascii lc" and "good_config gs"
  shows "\<exists>opts. option_file_parse lc (render_config gs) = Inr opts \<and>
    (\<forall>g k. option_get opts g k = map_of (rev (config_options gs)) (g, k))"
proof -
  have "option_get \<lparr>of_groups = Map.empty\<rparr> g k = None" for g k by (simp add: option_get_def)
  then have "option_get (fold (\<lambda>((g, k), v). insert_option g k v) os \<lparr>of_groups = Map.empty\<rparr>) g k =
      map_of (rev os) (g, k)" for os g k
    unfolding option_get_fold by (simp split: option.splits)
  then show ?thesis
    using assms
    by (simp add: option_file_parse_def render_config_def str_lines_unlines config_lines_ok parse_config_lines)
qed

text \<open>C32: A configuration written out one group header and one quoted option per line is read back
  completely: every option has the value written last for it, whatever characters but line feeds the
  values contain (quotes, comment characters, separators and blanks included), and no other option is
  set.\<close>

theorem option_file_roundtrip:
  assumes "lowercases_ascii lc" and "good_config gs"
  shows "\<exists>opts. option_file_parse lc (render_config gs) = Inr opts \<and>
    (\<forall>g k. option_get opts g k = map_of (rev (config_options gs)) (g, k))"
  by (rule parse_render_config [OF assms])

theorem option_file_roundtrip_witness:
  "\<exists>opts. option_file_parse (map ascii_lower)
      (render_config [(''client'', [(''user'', ''ro ot''), (''password'', '' #;[x]='')])]) = Inr opts \<and>
    option_get opts ''client'' ''password'' = Some '' #;[x]='' \<and> option_get opts ''client'' ''host'' = None"
proof -
  have "good_config [(''client'', [(''user'', ''ro ot''), (''password'', '' #;[x]='')])]"
    by (simp add: good_config_def good_group_def good_key_def plain_char_def key_char_def)
  from option_file_roundtrip [OF lowercases_ascii_map this] show ?thesis
    by (auto simp: config_options_def)
qed

end
