(* ===== verification/Auth_Plugins.thy ===== *)
theory Auth_Plugins
  imports Errors
begin

text \<open>
  The authentication plugins of \<^verbatim>\<open>mysql-core/src/auth.rs\<close>: the scrambles of
  \<open>mysql_native_password\<close> and \<open>caching_sha2_password\<close>, the RSA encryption of the password, the
  \<open>client_ed25519\<close> signature and the response of the initial handshake.  The hash functions, the key
  parsers, RSA-OAEP and the Ed25519 arithmetic of the crates \<open>aws_lc_rs\<close>, \<open>rustls_pki_types\<close>,
  \<open>x509_cert\<close> and \<open>curve25519_dalek\<close> are parameters (record \<open>crypto\<close>).  Keys, certificates, points and
  scalars are represented by their encodings.
\<close>

section \<open>The cryptographic libraries\<close>

record crypto =
  sha1_digest :: "bytes \<Rightarrow> bytes"
  sha256_digest :: "bytes \<Rightarrow> bytes"
  sha512_digest :: "bytes \<Rightarrow> bytes"
  spki_from_pem_slice :: "bytes \<Rightarrow> bytes option"
  cert_from_pem :: "string \<Rightarrow> bytes option"
  cert_from_der :: "bytes \<Rightarrow> string + bytes"
  cert_spki_to_der :: "bytes \<Rightarrow> string + bytes"
  rsa_from_der :: "bytes \<Rightarrow> bytes option"
  rsa_oaep_new :: "bytes \<Rightarrow> bytes option"
  rsa_oaep_encrypt :: "bytes \<Rightarrow> bytes \<Rightarrow> bytes option"
  scalar_from_bytes_mod_order :: "bytes \<Rightarrow> bytes"
  scalar_from_bytes_mod_order_wide :: "bytes \<Rightarrow> bytes"
  scalar_mul :: "bytes \<Rightarrow> bytes \<Rightarrow> bytes"
  scalar_add :: "bytes \<Rightarrow> bytes \<Rightarrow> bytes"
  basepoint_mul_compress :: "bytes \<Rightarrow> bytes"

text \<open>The digest lengths that the hash functions document.\<close>

definition digest_lengths :: "crypto \<Rightarrow> bool" where
  "digest_lengths K \<longleftrightarrow> (\<forall>d. length (sha1_digest K d) = 20) \<and> (\<forall>d. length (sha256_digest K d) = 32) \<and>
     (\<forall>d. length (sha512_digest K d) = 64)"

text \<open>The encoded lengths of points and scalars.\<close>

definition curve_lengths :: "crypto \<Rightarrow> bool" where
  "curve_lengths K \<longleftrightarrow> (\<forall>s. length (basepoint_mul_compress K s) = 32) \<and>
     (\<forall>s t. length (scalar_add K s t) = 32)"

section \<open>Scrambles\<close>

definition SCRAMBLE_LENGTH :: nat where
  "SCRAMBLE_LENGTH = 20"

definition xor_zip :: "bytes \<Rightarrow> bytes \<Rightarrow> bytes" where
  "xor_zip xs ys = map (\<lambda>(a, b). a XOR b) (zip xs ys)"

definition sha1_hash :: "crypto \<Rightarrow> bytes \<Rightarrow> bytes" where
  "sha1_hash K d = sha1_digest K d"

definition my_crypt :: "bytes \<Rightarrow> bytes \<Rightarrow> bytes" where
  "my_crypt message1 message2 = xor_zip message1 message2"

definition scramble_native_password :: "crypto \<Rightarrow> bytes \<Rightarrow> bytes \<Rightarrow> bytes" where
  "scramble_native_password K password message =
     (if password = [] then []
      else
        (let stage1 = sha1_hash K password;
             stage2 = sha1_hash K stage1;
             result = sha1_digest K (take (min SCRAMBLE_LENGTH (length message)) message @ stage2)
         in my_crypt result stage1))"

definition sha256_hash :: "crypto \<Rightarrow> bytes \<Rightarrow> bytes" where
  "sha256_hash K d = sha256_digest K d"

definition scramble_caching_sha2 :: "crypto \<Rightarrow> bytes \<Rightarrow> bytes \<Rightarrow> bytes" where
  "scramble_caching_sha2 K password nonce =
     (if password = [] then []
      else
        (let p1 = sha256_hash K password;
             p2 = sha256_hash K p1;
             p3 = sha256_digest K (p2 @ nonce)
         in xor_zip p1 p3))"

definition xor_password :: "bytes \<Rightarrow> bytes \<Rightarrow> bytes" where
  "xor_password password salt =
     (let s = take (min SCRAMBLE_LENGTH (length salt)) salt
      in if s = [] then password
         else map (\<lambda>i. password ! i XOR s ! (i mod length s)) [0..<length password])"

section \<open>RSA\<close>

text \<open>\<open>std::str::from_utf8\<close>.\<close>

function utf8_valid :: "bytes \<Rightarrow> bool" where
  "utf8_valid bs \<longleftrightarrow>
     (if bs = [] then True else (case utf8_step bs of (ok, n) \<Rightarrow> ok \<and> utf8_valid (drop n bs)))"
  by pat_completeness auto
termination
  by (relation "measure length")
    (auto dest: arg_cong [where f = snd] simp: utf8_step_pos intro: ccontr)

declare utf8_valid.simps [simp del]

definition str_from_utf8 :: "bytes \<Rightarrow> string option" where
  "str_from_utf8 bs = (if utf8_valid bs then Some (from_bytes bs) else None)"

definition plugin_error :: "string \<Rightarrow> error" where
  "plugin_error m = OperationalError CR_AUTH_PLUGIN_ERR m"

definition extract_spki :: "crypto \<Rightarrow> bytes \<Rightarrow> error + bytes" where
  "extract_spki K cert =
     (case cert_spki_to_der K cert of
        Inl e \<Rightarrow> Inl (plugin_error (''Failed to extract SubjectPublicKeyInfo: '' @ e))
      | Inr der \<Rightarrow> Inr der)"

definition parse_public_key_pem :: "crypto \<Rightarrow> bytes \<Rightarrow> error + bytes" where
  "parse_public_key_pem K public_key =
     (case spki_from_pem_slice K public_key of
        Some spki \<Rightarrow> Inr spki
      | None \<Rightarrow>
          (case Option.bind (str_from_utf8 public_key) (cert_from_pem K) of
             Some cert \<Rightarrow> extract_spki K cert
           | None \<Rightarrow>
               (case cert_from_der K public_key of
                  Inl e \<Rightarrow> Inl (plugin_error (''Failed to parse public key PEM/DER: '' @ e))
                | Inr cert \<Rightarrow> extract_spki K cert)))"

definition sha2_rsa_encrypt :: "crypto \<Rightarrow> bytes \<Rightarrow> bytes \<Rightarrow> bytes \<Rightarrow> error + bytes" where
  "sha2_rsa_encrypt K password salt public_key =
     (let message = xor_password password salt @ [0]
      in bind_res (parse_public_key_pem K public_key) (\<lambda>spki.
         case rsa_from_der K spki of
           None \<Rightarrow> Inl (plugin_error ''Failed to parse public key'')
         | Some key \<Rightarrow>
             (case rsa_oaep_new K key of
                None \<Rightarrow> Inl (plugin_error ''Failed to construct RSA-OAEP key'')
              | Some oaep_key \<Rightarrow>
                  (case rsa_oaep_encrypt K oaep_key message of
                     None \<Rightarrow> Inl (plugin_error ''RSA encryption failed'')
                   | Some ciphertext \<Rightarrow> Inr ciphertext))))"

section \<open>Ed25519\<close>

definition sha512_hash :: "crypto \<Rightarrow> bytes \<Rightarrow> bytes" where
  "sha512_hash K d = sha512_digest K d"

text \<open>A slice of fewer than 32 bytes would panic.\<close>

definition clamp_scalar :: "crypto \<Rightarrow> bytes \<Rightarrow> fail + bytes" where
  "clamp_scalar K s32 =
     (if length s32 < 32 then Inl Panic
      else
        (let h = take 32 s32;
             h = h[0 := h ! 0 AND 248];
             h = h[31 := h ! 31 AND 127];
             h = h[31 := h ! 31 OR 64]
         in Inr (scalar_from_bytes_mod_order K h)))"

definition scalar_reduce :: "crypto \<Rightarrow> bytes \<Rightarrow> bytes" where
  "scalar_reduce K hash =
     (let len = min (length hash) 64
      in scalar_from_bytes_mod_order_wide K (take len hash @ replicate (64 - len) 0))"

definition ed25519_password :: "crypto \<Rightarrow> bytes \<Rightarrow> bytes \<Rightarrow> fail + bytes" where
  "ed25519_password K password scramble =
     (let h = sha512_hash K password
      in if length h < 32 then Inl Panic
         else
           (let s_bytes = take 32 h; r_seed = drop 32 h
            in bind_res (clamp_scalar K s_bytes) (\<lambda>s.
               let r = scalar_reduce K (sha512_digest K (r_seed @ scramble));
                   r_encoded = basepoint_mul_compress K r;
                   a_encoded = basepoint_mul_compress K s;
                   k = scalar_reduce K (sha512_digest K (r_encoded @ a_encoded @ scramble));
                   ks = scalar_mul K k s;
                   s_scalar = scalar_add K ks r
               in Inr (r_encoded @ s_scalar))))"

section \<open>Plugin names and the handshake response\<close>

datatype auth_plugin =
    MysqlNativePassword
  | CachingSha2Password
  | Sha256Password
  | MysqlClearPassword
  | MysqlOldPassword
  | ClientEd25519
  | Dialog
  | Other string

definition plugin_from_bytes :: "bytes \<Rightarrow> auth_plugin" where
  "plugin_from_bytes name =
     (if name = as_bytes ''mysql_native_password'' then MysqlNativePassword
      else if name = as_bytes ''caching_sha2_password'' then CachingSha2Password
      else if name = as_bytes ''sha256_password'' then Sha256Password
      else if name = as_bytes ''mysql_clear_password'' then MysqlClearPassword
      else if name = as_bytes ''mysql_old_password'' then MysqlOldPassword
      else if name = as_bytes ''client_ed25519'' then ClientEd25519
      else if name = as_bytes ''dialog'' then Dialog
      else Other (from_utf8_lossy name))"

fun plugin_as_bytes :: "auth_plugin \<Rightarrow> bytes" where
  "plugin_as_bytes MysqlNativePassword = as_bytes ''mysql_native_password''"
| "plugin_as_bytes CachingSha2Password = as_bytes ''caching_sha2_password''"
| "plugin_as_bytes Sha256Password = as_bytes ''sha256_password''"
| "plugin_as_bytes MysqlClearPassword = as_bytes ''mysql_clear_password''"
| "plugin_as_bytes MysqlOldPassword = as_bytes ''mysql_old_password''"
| "plugin_as_bytes ClientEd25519 = as_bytes ''client_ed25519''"
| "plugin_as_bytes Dialog = as_bytes ''dialog''"
| "plugin_as_bytes (Other s) = as_bytes s"

fun make_auth_response :: "crypto \<Rightarrow> auth_plugin \<Rightarrow> bytes \<Rightarrow> bytes \<Rightarrow> bool \<Rightarrow> fail + bytes" where
  "make_auth_response K MysqlNativePassword password salt secure =
     Inr (scramble_native_password K password salt)"
| "make_auth_response K CachingSha2Password password salt secure =
     (if password = [] then Inr [] else Inr (scramble_caching_sha2 K password salt))"
| "make_auth_response K Sha256Password password salt secure =
     (if secure then Inr (password @ [0])
      else if password = [] then Inr [0]
      else Inr [1])"
| "make_auth_response K MysqlClearPassword password salt secure = Inr (password @ [0])"
| "make_auth_response K ClientEd25519 password salt secure = ed25519_password K password salt"
| "make_auth_response K _ password salt secure = Inr []"

section \<open>Lengths and cancellation\<close>

lemma xor_zip_length [simp]: "length (xor_zip xs ys) = min (length xs) (length ys)"
  by (simp add: xor_zip_def)

lemma xor_cancel [simp]: "(a XOR b) XOR b = (a :: u8)" "b XOR (b XOR a) = (a :: u8)"
  by (simp_all add: xor.assoc flip: xor.assoc [of b b a])

lemma xor_zip_cancel:
  assumes "length xs = length ys"
  shows "xor_zip xs (xor_zip xs ys) = ys" and "xor_zip (xor_zip xs ys) ys = xs"
  using assms by (induction xs ys rule: list_induct2) (simp_all add: xor_zip_def)

lemma xor_password_length [simp]: "length (xor_password password salt) = length password"
  by (simp add: xor_password_def Let_def)

lemma xor_password_involution: "xor_password (xor_password password salt) salt = password"
proof -
  define s where "s = take (min SCRAMBLE_LENGTH (length salt)) salt"
  have "xor_password p salt =
      (if s = [] then p else map (\<lambda>i. p ! i XOR s ! (i mod length s)) [0..<length p])" for p
    by (simp only: xor_password_def s_def Let_def)
  then show ?thesis by (auto intro: nth_equalityI)
qed

lemma scramble_native_length:
  "digest_lengths K \<Longrightarrow> length (scramble_native_password K password salt) = (if password = [] then 0 else 20)"
  by (simp add: scramble_native_password_def my_crypt_def sha1_hash_def digest_lengths_def Let_def)

lemma scramble_caching_sha2_length:
  "digest_lengths K \<Longrightarrow> length (scramble_caching_sha2 K password nonce) = (if password = [] then 0 else 32)"
  by (simp add: scramble_caching_sha2_def sha256_hash_def digest_lengths_def Let_def)

lemma ed25519_password_ok:
  assumes "digest_lengths K" and "curve_lengths K"
  shows "\<exists>signature. ed25519_password K password scramble = Inr signature \<and> length signature = 64"
  using assms
  by (simp add: ed25519_password_def sha512_hash_def clamp_scalar_def digest_lengths_def
      curve_lengths_def Let_def)

text \<open>A small instance of the libraries, for the concrete instances of the theorems.\<close>

definition pad_to :: "nat \<Rightarrow> bytes \<Rightarrow> bytes" where
  "pad_to n d = take n (d @ replicate n 0)"

definition plain_crypto :: crypto where
  "plain_crypto =
     \<lparr>sha1_digest = pad_to 20, sha256_digest = pad_to 32, sha512_digest = pad_to 64,
      spki_from_pem_slice = Some, cert_from_pem = (\<lambda>_. None), cert_from_der = Inr,
      cert_spki_to_der = Inr, rsa_from_der = Some, rsa_oaep_new = Some,
      rsa_oaep_encrypt = (\<lambda>k m. Some m), scalar_from_bytes_mod_order = pad_to 32,
      scalar_from_bytes_mod_order_wide = pad_to 32, scalar_mul = (\<lambda>s t. pad_to 32 (xor_zip s t)),
      scalar_add = (\<lambda>s t. pad_to 32 (xor_zip s t)), basepoint_mul_compress = pad_to 32\<rparr>"

lemma pad_to_length [simp]: "length (pad_to n d) = n"
  by (simp add: pad_to_def)

lemma plain_crypto_lengths: "digest_lengths plain_crypto" "curve_lengths plain_crypto"
  by (simp_all add: plain_crypto_def digest_lengths_def curve_lengths_def)

section \<open>What the server can check\<close>

text \<open>
  The server stores the double hash of the password.  From the response it recovers the single hash
  and compares its hash with what it stores.
\<close>

definition native_check :: "crypto \<Rightarrow> bytes \<Rightarrow> bytes \<Rightarrow> bytes \<Rightarrow> bool" where
  "native_check K stored salt reply \<longleftrightarrow>
     sha1_digest K (xor_zip (sha1_digest K (take 20 salt @ stored)) reply) = stored"

definition caching_sha2_check :: "crypto \<Rightarrow> bytes \<Rightarrow> bytes \<Rightarrow> bytes \<Rightarrow> bool" where
  "caching_sha2_check K stored nonce reply \<longleftrightarrow>
     sha256_digest K (xor_zip reply (sha256_digest K (stored @ nonce))) = stored"

text \<open>C34: The response to a \<open>mysql_native_password\<close> challenge has 20 bytes and passes the server's check against
  the stored double hash of the password.\<close>

theorem native_password_verifies:
  assumes "digest_lengths K" and "password \<noteq> []"
  shows "native_check K (sha1_digest K (sha1_digest K password)) salt
      (scramble_native_password K password salt) \<and>
    length (scramble_native_password K password salt) = 20"
proof -
  have "take (min SCRAMBLE_LENGTH (length salt)) salt = take 20 salt"
    by (simp add: SCRAMBLE_LENGTH_def min_def)
  then show ?thesis
    using assms xor_zip_cancel(1)
    by (simp add: native_check_def scramble_native_password_def my_crypt_def sha1_hash_def
        digest_lengths_def Let_def)
qed

theorem native_password_verifies_witness:
  "native_check plain_crypto (sha1_digest plain_crypto (sha1_digest plain_crypto (as_bytes ''secret''))) [1, 2, 3]
      (scramble_native_password plain_crypto (as_bytes ''secret'') [1, 2, 3]) \<and>
    length (scramble_native_password plain_crypto (as_bytes ''secret'') [1, 2, 3]) = 20"
  using native_password_verifies [OF plain_crypto_lengths(1), of "as_bytes ''secret''" "[1, 2, 3]"] by simp

text \<open>C35: The response to a \<open>caching_sha2_password\<close> challenge has 32 bytes and passes the server's fast check
  against the cached double hash of the password.\<close>

theorem caching_sha2_verifies:
  assumes "digest_lengths K" and "password \<noteq> []"
  shows "caching_sha2_check K (sha256_digest K (sha256_digest K password)) nonce
      (scramble_caching_sha2 K password nonce) \<and>
    length (scramble_caching_sha2 K password nonce) = 32"
  using assms xor_zip_cancel(2)
  by (simp add: caching_sha2_check_def scramble_caching_sha2_def sha256_hash_def digest_lengths_def Let_def)

theorem caching_sha2_verifies_witness:
  "caching_sha2_check plain_crypto
      (sha256_digest plain_crypto (sha256_digest plain_crypto (as_bytes ''secret''))) [1, 2, 3]
      (scramble_caching_sha2 plain_crypto (as_bytes ''secret'') [1, 2, 3]) \<and>
    length (scramble_caching_sha2 plain_crypto (as_bytes ''secret'') [1, 2, 3]) = 32"
  using caching_sha2_verifies [OF plain_crypto_lengths(1), of "as_bytes ''secret''" "[1, 2, 3]"] by simp

text \<open>
  A key pair of the server: the encoding of its public key, and the decryption with its private key.  The
  law is that of this pair alone: what is encrypted under this public key, and under no other, is
  decrypted to the plaintext, and plaintexts up to the capacity of the key are encrypted.
\<close>

definition rsa_key_pair :: "crypto \<Rightarrow> bytes \<Rightarrow> nat \<Rightarrow> (bytes \<Rightarrow> bytes option) \<Rightarrow> bool" where
  "rsa_key_pair K spki capacity decrypt \<longleftrightarrow>
     (\<exists>key oaep_key. rsa_from_der K spki = Some key \<and> rsa_oaep_new K key = Some oaep_key \<and>
        (\<forall>m. length m \<le> capacity \<longrightarrow> (\<exists>c. rsa_oaep_encrypt K oaep_key m = Some c \<and> decrypt c = Some m)))"

text \<open>The file or packet in which the server publishes the key: the key in PEM form, or a certificate that holds
  it, in PEM or DER form.\<close>

definition publishes :: "crypto \<Rightarrow> bytes \<Rightarrow> bytes \<Rightarrow> bool" where
  "publishes K public_key spki \<longleftrightarrow>
     spki_from_pem_slice K public_key = Some spki \<or>
     spki_from_pem_slice K public_key = None \<and>
       (\<exists>cert. cert_spki_to_der K cert = Inr spki \<and>
          (case Option.bind (str_from_utf8 public_key) (cert_from_pem K) of
             Some cert' \<Rightarrow> cert' = cert
           | None \<Rightarrow> cert_from_der K public_key = Inr cert))"

text \<open>What the server does with a decrypted message: the last byte has to be the terminator, and each byte before
  it is unmasked with the salt, repeated.\<close>

definition server_unmask :: "bytes \<Rightarrow> bytes \<Rightarrow> bytes option" where
  "server_unmask salt m =
     (if m \<noteq> [] \<and> last m = 0
      then Some (map2 (XOR) (butlast m) (concat (replicate (length m) (take 20 salt)))) else None)"

lemma repeated_nth:
  assumes "i < n * length s"
  shows "concat (replicate n s) ! i = s ! (i mod length s)"
  using assms
proof (induction n arbitrary: i)
  case (Suc n)
  show ?case
  proof (cases "i < length s")
    case False
    with Suc.prems Suc.IH [of "i - length s"] show ?thesis by (simp add: nth_append le_mod_geq)
  qed (simp add: nth_append)
qed simp

lemma server_unmask_xor:
  assumes "salt \<noteq> []"
  shows "server_unmask salt (xor_password password salt @ [0]) = Some password"
proof -
  let ?s = "take 20 salt" and ?n = "length password"
  let ?r = "concat (replicate (Suc ?n) ?s)"
  have s: "take (min SCRAMBLE_LENGTH (length salt)) salt = ?s" "?s \<noteq> []"
    using assms by (simp_all add: SCRAMBLE_LENGTH_def min_def)
  have "length ?r = Suc ?n * length ?s" by (simp add: length_concat sum_list_replicate)
  moreover have "Suc ?n * 1 \<le> Suc ?n * length ?s" using s(2) by (intro mult_le_mono2) (simp add: Suc_le_eq)
  ultimately have len: "?n \<le> length ?r" by simp
  have x: "xor_password password salt ! i = password ! i XOR ?s ! (i mod length ?s)" if "i < ?n" for i
    using that s by (simp add: xor_password_def Let_def)
  have r: "?r ! i = ?s ! (i mod length ?s)" if "i < ?n" for i
    using that len by (intro repeated_nth) (simp add: length_concat sum_list_replicate)
  have "map2 (XOR) (xor_password password salt) ?r = password"
    using len x r by (intro nth_equalityI) (simp_all del: replicate_Suc)
  then show ?thesis by (simp add: server_unmask_def del: replicate_Suc)
qed

text \<open>C36: RSA full authentication.  When the server publishes the public key of its key pair (as a PEM key, or in a
  certificate in PEM or DER form) and the password fits the capacity of that key, \<open>sha2_rsa_encrypt\<close>
  succeeds, and the server gets the password back: decrypting with the private key of that pair, checking
  the terminator and unmasking with the salt of the handshake gives exactly the password.\<close>

theorem rsa_password_recovered:
  assumes "publishes K public_key spki" and "rsa_key_pair K spki capacity decrypt"
    and "length password < capacity" and "salt \<noteq> []"
  shows "\<exists>c. sha2_rsa_encrypt K password salt public_key = Inr c \<and>
    Option.bind (decrypt c) (server_unmask salt) = Some password"
proof -
  obtain key oaep_key where key: "rsa_from_der K spki = Some key" "rsa_oaep_new K key = Some oaep_key"
      "\<And>m. length m \<le> capacity \<Longrightarrow> \<exists>c. rsa_oaep_encrypt K oaep_key m = Some c \<and> decrypt c = Some m"
    using assms(2) by (auto simp: rsa_key_pair_def)
  have pem: "parse_public_key_pem K public_key = Inr spki"
    using assms(1) by (auto simp: publishes_def parse_public_key_pem_def extract_spki_def split: option.splits)
  obtain c where "rsa_oaep_encrypt K oaep_key (xor_password password salt @ [0]) = Some c"
      "decrypt c = Some (xor_password password salt @ [0])"
    using key(3) [of "xor_password password salt @ [0]"] assms(3) by auto
  with key(1,2) pem show ?thesis
    by (simp add: sha2_rsa_encrypt_def server_unmask_xor [OF assms(4)])
qed

text \<open>Keys that shift: each public key has its own inverse, and a message has to be shorter than 16 bytes.\<close>

definition shift_crypto :: crypto where
  "shift_crypto = plain_crypto\<lparr>rsa_oaep_encrypt :=
     (\<lambda>key m. if length m \<le> 16 then Some (map (\<lambda>b. b + hd key) m) else None)\<rparr>"

definition shift_back :: "u8 \<Rightarrow> bytes \<Rightarrow> bytes option" where
  "shift_back b c = Some (map (\<lambda>x. x - b) c)"

theorem rsa_password_recovered_witness:
  "\<exists>c. sha2_rsa_encrypt shift_crypto (as_bytes ''pw'') [1, 2, 3] [7] = Inr c \<and>
     Option.bind (shift_back 7 c) (server_unmask [1, 2, 3]) = Some (as_bytes ''pw'') \<and>
     Option.bind (shift_back 8 c) (server_unmask [1, 2, 3]) \<noteq> Some (as_bytes ''pw'')"
proof -
  have "publishes shift_crypto [7] [7]" by (simp add: publishes_def shift_crypto_def plain_crypto_def)
  moreover have "rsa_key_pair shift_crypto [7] 16 (shift_back 7)"
    by (simp add: rsa_key_pair_def shift_crypto_def plain_crypto_def shift_back_def comp_def)
  ultimately obtain c where c: "sha2_rsa_encrypt shift_crypto (as_bytes ''pw'') [1, 2, 3] [7] = Inr c"
      "Option.bind (shift_back 7 c) (server_unmask [1, 2, 3]) = Some (as_bytes ''pw'')"
    using rsa_password_recovered [of shift_crypto "[7]" "[7]" 16 "shift_back 7" "as_bytes ''pw''" "[1, 2, 3]"]
    by (auto simp: as_bytes_def)
  moreover have "Option.bind (shift_back 8 c) (server_unmask [1, 2, 3]) = None"
    using c(1)
    by (auto simp: sha2_rsa_encrypt_def parse_public_key_pem_def shift_crypto_def plain_crypto_def shift_back_def server_unmask_def Let_def
        split: if_splits)
  ultimately show ?thesis by (intro exI [of _ c]) simp
qed

text \<open>With libraries that keep to their documented output lengths, \<open>make_auth_response\<close> never panics and
  always returns a response; unless the plugin sends the password itself the response is at most
  64 bytes long, so it fits the one-byte length field of the handshake response.\<close>

lemma make_auth_response_total:
  assumes "digest_lengths K" and "curve_lengths K"
  shows "\<exists>response. make_auth_response K plugin password salt secure = Inr response \<and>
    (plugin = MysqlClearPassword \<or> (plugin = Sha256Password \<and> secure) \<or> length response \<le> 64)"
  using scramble_native_length [OF assms(1), of password salt]
    scramble_caching_sha2_length [OF assms(1), of password salt]
    ed25519_password_ok [OF assms, of password salt]
  by (cases plugin) (auto split: if_splits)

lemma make_auth_response_total_instance:
  "\<exists>response. make_auth_response plain_crypto ClientEd25519 [1] [2] False = Inr response \<and>
     length response \<le> 64"
  using make_auth_response_total [OF plain_crypto_lengths, of ClientEd25519 "[1]" "[2]" False] by simp

text \<open>Plugin names survive decoding: the name sent back to the server for a plugin the server named is the
  name it sent (ASCII names), and the known plugins are recognised from their own names.\<close>

lemma plugin_name_roundtrip:
  assumes "list_all (\<lambda>b. b < 128) name"
  shows "plugin_as_bytes (plugin_from_bytes name) = name"
  using assms by (simp add: plugin_from_bytes_def from_utf8_lossy_ascii)

lemma plugin_name_roundtrip_instance:
  "plugin_as_bytes (plugin_from_bytes (as_bytes ''auth_gssapi'')) = as_bytes ''auth_gssapi''"
  using plugin_name_roundtrip [of "as_bytes ''auth_gssapi''"] by (simp add: as_bytes_def)

end
