(* ===== verification/Time_Helpers.thy ===== *)
theory Time_Helpers
  imports Prelude
begin

text \<open>
  The date and time helpers of \<^verbatim>\<open>mysql-core/src/time.rs\<close>.  The calendar is that of the \<open>chrono\<close> crate, a parameter (record
  \<open>chrono\<close>); what the lemmas use of it are the documented relations of its conversions, as hypotheses.
\<close>

record ('dt, 'date, 'time, 'ts) chrono =
  ch_from_timestamp :: "64 word \<Rightarrow> 32 word \<Rightarrow> 'dt option"
  ch_date_naive :: "'dt \<Rightarrow> 'date"
  ch_time :: "'dt \<Rightarrow> 'time"
  ch_naive_utc :: "'dt \<Rightarrow> 'ts"
  ch_from_ymd_opt :: "32 word \<Rightarrow> 32 word \<Rightarrow> 32 word \<Rightarrow> 'date option"
  ch_from_hms_opt :: "32 word \<Rightarrow> 32 word \<Rightarrow> 32 word \<Rightarrow> 'time option"
  ch_and_hms_opt :: "'date \<Rightarrow> 32 word \<Rightarrow> 32 word \<Rightarrow> 32 word \<Rightarrow> 'ts option"

definition date_from_ticks :: "('dt, 'date, 'time, 'ts) chrono \<Rightarrow> 64 word \<Rightarrow> 'date option" where
  "date_from_ticks C ticks = map_option (ch_date_naive C) (ch_from_timestamp C ticks 0)"

definition time_from_ticks :: "('dt, 'date, 'time, 'ts) chrono \<Rightarrow> 64 word \<Rightarrow> 'time option" where
  "time_from_ticks C ticks = map_option (ch_time C) (ch_from_timestamp C ticks 0)"

definition timestamp_from_ticks :: "('dt, 'date, 'time, 'ts) chrono \<Rightarrow> 64 word \<Rightarrow> 'ts option" where
  "timestamp_from_ticks C ticks = map_option (ch_naive_utc C) (ch_from_timestamp C ticks 0)"

definition date :: "('dt, 'date, 'time, 'ts) chrono \<Rightarrow> 32 word \<Rightarrow> 32 word \<Rightarrow> 32 word \<Rightarrow> 'date option" where
  "date C year month day = ch_from_ymd_opt C year month day"

definition time :: "('dt, 'date, 'time, 'ts) chrono \<Rightarrow> 32 word \<Rightarrow> 32 word \<Rightarrow> 32 word \<Rightarrow> 'time option" where
  "time C hour minute sec = ch_from_hms_opt C hour minute sec"

definition timestamp :: "('dt, 'date, 'time, 'ts) chrono \<Rightarrow> 32 word \<Rightarrow> 32 word \<Rightarrow> 32 word \<Rightarrow> 32 word \<Rightarrow> 32 word \<Rightarrow> 32 word \<Rightarrow> 'ts option" where
  "timestamp C year month day hour minute sec =
     Option.bind (ch_from_ymd_opt C year month day) (\<lambda>d. ch_and_hms_opt C d hour minute sec)"

section \<open>The helpers agree\<close>

text \<open>A timestamp is its date joined with its time, where \<open>join\<close> is \<open>NaiveDate::and_time\<close>: the helpers succeed and fail
  together, and the timestamp helpers are the date and the time helpers joined.\<close>

definition joined :: "('date \<Rightarrow> 'time \<Rightarrow> 'ts) \<Rightarrow> 'date option \<Rightarrow> 'time option \<Rightarrow> 'ts option" where
  "joined join d t = Option.bind d (\<lambda>d. map_option (join d) t)"

lemma ticks_helpers_agree:
  assumes "\<And>dt. ch_naive_utc C dt = join (ch_date_naive C dt) (ch_time C dt)"
  shows "timestamp_from_ticks C ticks = joined join (date_from_ticks C ticks) (time_from_ticks C ticks)"
    and "date_from_ticks C ticks = None \<longleftrightarrow> time_from_ticks C ticks = None"
  using assms
  by (cases "ch_from_timestamp C ticks 0";
      simp add: timestamp_from_ticks_def date_from_ticks_def time_from_ticks_def joined_def)+

lemma timestamp_joins:
  assumes "\<And>d. ch_and_hms_opt C d hour minute sec = map_option (join d) (ch_from_hms_opt C hour minute sec)"
  shows "timestamp C year month day hour minute sec = joined join (date C year month day) (time C hour minute sec)"
  by (simp add: timestamp_def date_def time_def joined_def assms)

text \<open>A calendar of days and seconds, counted from the epoch.\<close>

definition day_count :: "(int, int, int, int \<times> int) chrono" where
  "day_count = \<lparr>ch_from_timestamp = (\<lambda>s _. Some (sint s)), ch_date_naive = (\<lambda>s. s div 86400), ch_time = (\<lambda>s. s mod 86400),
     ch_naive_utc = (\<lambda>s. (s div 86400, s mod 86400)),
     ch_from_ymd_opt = (\<lambda>y m d. if y = 1970 \<and> m = 1 \<and> 1 \<le> d \<and> d \<le> 31 then Some (uint d - 1) else None),
     ch_from_hms_opt = (\<lambda>h m s. if h < 24 \<and> m < 60 \<and> s < 60 then Some (uint h * 3600 + uint m * 60 + uint s) else None),
     ch_and_hms_opt = (\<lambda>d h m s. if h < 24 \<and> m < 60 \<and> s < 60 then Some (d, uint h * 3600 + uint m * 60 + uint s) else None)\<rparr>"

lemma ticks_helpers_agree_instance:
  "timestamp_from_ticks day_count 90061 = joined Pair (date_from_ticks day_count 90061) (time_from_ticks day_count 90061) \<and>
   timestamp_from_ticks day_count 90061 = Some (1, 3661)"
  using ticks_helpers_agree(1) [of day_count Pair 90061]
  by (simp add: day_count_def timestamp_from_ticks_def)

lemma timestamp_joins_instance:
  "timestamp day_count 1970 1 2 1 1 1 = joined Pair (date day_count 1970 1 2) (time day_count 1 1 1) \<and>
   timestamp day_count 1970 1 2 1 1 1 = Some (1, 3661)"
  using timestamp_joins [of day_count 1 1 1 Pair 1970 1 2]
  by (simp add: day_count_def timestamp_def)

end
