(* ===== verification/Fuzz_Targets.thy ===== *)
theory Fuzz_Targets
  imports Auth_Plugins Converters Time_Helpers
begin

text \<open>
  The fuzz targets, \<^verbatim>\<open>fuzz/fuzz_targets\<close>: each is a predicate on the input that holds when no call panics and every
  assertion is met.  A fuzzer tries inputs; the theorem is that five of the six targets pass on all of them, and a lemma tells when the
  sixth does.
\<close>

section \<open>The targets\<close>

definition runs :: "('s, 'a) rs \<Rightarrow> 's \<Rightarrow> bool" where
  "runs m s \<longleftrightarrow> fst (m s) \<noteq> Inl Panic"

definition fuzz_auth :: "crypto \<Rightarrow> bytes \<Rightarrow> bool" where
  "fuzz_auth K data \<longleftrightarrow>
     (let native = scramble_native_password K data data; native2 = scramble_native_password K data data;
          caching = scramble_caching_sha2 K data data; caching2 = scramble_caching_sha2 K data data
      in native = native2 \<and> length native = (if data = [] then 0 else 20) \<and>
         caching = caching2 \<and> length caching = (if data = [] then 0 else 32))"

definition fuzz_charset :: "(string \<Rightarrow> string) \<Rightarrow> bytes \<Rightarrow> bool" where
  "fuzz_charset lc data \<longleftrightarrow>
     (case str_from_utf8 data of
        None \<Rightarrow> True
      | Some name \<Rightarrow>
          (case charset_by_name lc name of
             None \<Rightarrow> True
           | Some cs \<Rightarrow>
               (let lowered = lc name
                in cs_name cs = lowered \<or> (lowered = ''utf8'' \<and> cs_name cs = ''utf8mb4'')))) \<and>
     (let id = (if 2 \<le> length data then from_le_bytes [data ! 0, data ! 1] else 0) in 1 \<le> mblength id)"

definition fuzz_error :: "bytes \<Rightarrow> bool" where
  "fuzz_error data \<longleftrightarrow>
     (let result = raise_mysql_exception data
      in if length data < 3 then (case result of InternalError _ _ \<Rightarrow> True | _ \<Rightarrow> False)
         else
           (let errno = from_le_bytes [data ! 1, data ! 2]
            in case result of
                 ProgrammingError code _ \<Rightarrow> code = errno
               | DataError code _ \<Rightarrow> code = errno
               | IntegrityError code _ \<Rightarrow> code = errno
               | NotSupportedError code _ \<Rightarrow> code = errno
               | OperationalError code _ \<Rightarrow> code = errno
               | InternalError code _ \<Rightarrow> code = errno
               | _ \<Rightarrow> False))"

definition fuzz_protocol :: "encodings \<Rightarrow> bytes \<Rightarrow> bool" where
  "fuzz_protocol C data \<longleftrightarrow>
     (let p = packet_new data; p1 = snd (read_length_encoded_integer p); p2 = snd (read_string p1); p3 = snd (read_uint8 p2);
          p4 = snd (read_uint16 p3); p5 = snd (read_uint24 p4); p6 = snd (read_uint32 p5); p7 = snd (read_uint64 p6);
          is_ok = is_ok_packet p; is_error = is_error_packet p; is_load_local = is_load_local_packet p;
          len = length data
      in runs read_length_encoded_integer p \<and> runs read_string p1 \<and> runs read_uint8 p2 \<and> runs read_uint16 p3 \<and>
         runs read_uint24 p4 \<and> runs read_uint32 p5 \<and> runs read_uint64 p6 \<and> pkt_position p7 \<le> length data \<and>
         runs ok_from_packet p \<and> runs eof_from_packet p \<and> load_local_from_packet p \<noteq> Inl Panic \<and>
         field_parse C data ''utf8'' \<noteq> Inl Panic \<and>
         \<not> (is_ok \<and> is_error) \<and> \<not> (is_ok \<and> is_load_local) \<and> \<not> (is_error \<and> is_load_local) \<and>
         length (lenenc_int len) = (if len < 0xFB then 1 else if len < 2 ^ 16 then 3 else if len < 2 ^ 24 then 4 else 9))"

fun unescape_string :: "string \<Rightarrow> string" where
  "unescape_string [] = []"
| "unescape_string (c # cs) =
     (if c = BACKSLASH then
        (case cs of
           [] \<Rightarrow> [BACKSLASH]
         | d # ds \<Rightarrow>
             (if d = BACKSLASH then [BACKSLASH]
              else if d = QUOTE then [QUOTE]
              else if d = CHR 0x22 then [CHR 0x22]
              else if d = CHR ''n'' then [CHR 0x0A]
              else if d = CHR ''r'' then [CHR 0x0D]
              else if d = CHR ''0'' then [CHR 0x00]
              else if d = CHR ''Z'' then [CHR 0x1A]
              else [BACKSLASH, d]) @ unescape_string ds)
      else c # unescape_string cs)"

definition ascii_hexdigit :: "char \<Rightarrow> bool" where
  "ascii_hexdigit c \<longleftrightarrow>
     (let n = (of_char c :: nat) in (48 \<le> n \<and> n \<le> 57) \<or> (65 \<le> n \<and> n \<le> 70) \<or> (97 \<le> n \<and> n \<le> 102))"

definition starts_with :: "string \<Rightarrow> string \<Rightarrow> bool" where
  "starts_with pre s \<longleftrightarrow> take (length pre) s = pre"

definition ends_with_quote :: "string \<Rightarrow> bool" where
  "ends_with_quote s \<longleftrightarrow> s \<noteq> [] \<and> last s = QUOTE"

text \<open>The values of the libraries that the target makes: a date, a time, a timestamp, a duration and a decimal.\<close>

record 'x fuzz_values =
  fz_date :: 'x
  fz_time :: 'x
  fz_datetime :: 'x
  fz_span :: 'x
  fz_decimal :: 'x

definition sql_quoted :: "'x mysql_value \<Rightarrow> string \<Rightarrow> bool" where
  "sql_quoted val sql =
     (case val of
        VString _ \<Rightarrow> starts_with [QUOTE] sql \<and> ends_with_quote sql
      | VDate _ \<Rightarrow> starts_with [QUOTE] sql \<and> ends_with_quote sql
      | VTime _ \<Rightarrow> starts_with [QUOTE] sql \<and> ends_with_quote sql
      | VDateTime _ \<Rightarrow> starts_with [QUOTE] sql \<and> ends_with_quote sql
      | VTimeSpan _ \<Rightarrow> starts_with [QUOTE] sql \<and> ends_with_quote sql
      | VBytes _ \<Rightarrow> starts_with [CHR ''X'', QUOTE] sql \<and> ends_with_quote sql
      | _ \<Rightarrow> True)"

definition fuzz_converters :: "'x externs \<Rightarrow> 'x fuzz_values \<Rightarrow> bytes \<Rightarrow> bool" where
  "fuzz_converters E fz data \<longleftrightarrow>
     (case str_from_utf8 data of None \<Rightarrow> True | Some s \<Rightarrow> unescape_string (escape_string s) = s) \<and>
     (let escaped_bytes = escape_bytes data ''utf8''
      in starts_with [CHR ''X'', QUOTE] escaped_bytes \<and> ends_with_quote escaped_bytes \<and>
         list_all ascii_hexdigit (butlast (drop 2 escaped_bytes))) \<and>
     (let field_type = (if data = [] then 0 else data ! 0)
      in case decoder_run E field_type of
           None \<Rightarrow> True
         | Some converter \<Rightarrow> (case str_from_utf8 data of None \<Rightarrow> True | Some s \<Rightarrow> converter s \<noteq> Inl Panic)) \<and>
     (let vals = [VNull, VBool True, VInt 0, VFloat 0x3FF8000000000000, VString [], VBytes data, VDate (fz_date fz),
            VTime (fz_time fz), VDateTime (fz_datetime fz), VTimeSpan (fz_span fz), VDecimal (fz_decimal fz)]
      in list_all (\<lambda>val. case to_sql E ''utf8'' val of Inl _ \<Rightarrow> False | Inr sql \<Rightarrow> sql_quoted val sql) vals)"

text \<open>\<open>with_timezone(&Local)\<close> is a parameter: the date, the time and the timestamp of an instant in the zone of the
  machine.  The calls at the end of the target are total functions whose results it drops.\<close>

definition fuzz_time :: "('dt, 'date, 'time, 'ts) chrono \<Rightarrow> ('dt \<Rightarrow> 'date \<times> 'time \<times> 'ts) \<Rightarrow> bytes \<Rightarrow> bool" where
  "fuzz_time C local data \<longleftrightarrow>
     (let ticks = (if 8 \<le> length data then from_le_bytes (take 8 data) else 0);
          d = date_from_ticks C ticks; t = time_from_ticks C ticks; ts = timestamp_from_ticks C ticks
      in case ch_from_timestamp C ticks 0 of
           Some dt \<Rightarrow> (case local dt of (ld, lt, lts) \<Rightarrow> d = Some ld \<and> t = Some lt \<and> ts = Some lts)
         | None \<Rightarrow> d = None \<and> t = None \<and> ts = None)"

section \<open>They pass\<close>

lemma fuzz_auth_passes: "digest_lengths K \<Longrightarrow> fuzz_auth K data"
  by (simp add: fuzz_auth_def scramble_native_length scramble_caching_sha2_length)

lemma fuzz_charset_passes: "fuzz_charset lc data"
  by (auto simp: fuzz_charset_def Let_def mblength_def charset_by_name_iff charset_key_def split: option.splits)

lemma fuzz_error_passes: "fuzz_error data"
proof (cases "length data < 3")
  case False
  obtain m where "raise_mysql_exception data = class_error (error_map (from_le_bytes [data ! 1, data ! 2])) (from_le_bytes [data ! 1, data ! 2]) m"
    using False by (simp add: raise_mysql_exception_def Let_def)
  with False show ?thesis
    by (cases "error_map (from_le_bytes [data ! 1, data ! 2])") (simp_all add: fuzz_error_def Let_def)
qed (simp add: fuzz_error_def raise_mysql_exception_def)

definition inside :: "bytes \<Rightarrow> mysql_packet \<Rightarrow> bool" where
  "inside d p \<longleftrightarrow> pkt_wf p \<and> pkt_data p = d"

lemma safe_runs:
  assumes "safe_reader m" and "inside d p"
  shows "runs m p" "inside d (snd (m p))"
  using assms by (auto simp: safe_reader_def runs_def inside_def)

lemma inside_new: "inside d (packet_new d)"
  by (simp add: inside_def packet_new_def pkt_wf_def)

lemma fuzz_protocol_passes: "fuzz_protocol C data"
proof -
  have field: "field_parse C data ''utf8'' \<noteq> Inl Panic"
    using safe_runs(1) [OF safe_parse_fields inside_new] by (simp add: runs_def field_parse_def)
  have load: "load_local_from_packet p \<noteq> Inl Panic" for p by (simp add: load_local_from_packet_def)
  have len: "length (lenenc_int n) = (if n < 0xFB then 1 else if n < 2 ^ 16 then 3 else if n < 2 ^ 24 then 4 else 9)" for n
    by (simp add: lenenc_int_def byte_simps)
  have kinds: "\<not> (is_ok_packet p \<and> is_error_packet p)" "\<not> (is_ok_packet p \<and> is_load_local_packet p)"
      "\<not> (is_error_packet p \<and> is_load_local_packet p)" for p
    by (simp_all add: is_ok_packet_def is_error_packet_def is_load_local_packet_def)
  note r1 = safe_runs [OF safe_lenenc(1) inside_new [of data]]
  note r2 = safe_runs [OF safe_read_string r1(2)]
  note r3 = safe_runs [OF safe_uints(1) r2(2)]
  note r4 = safe_runs [OF safe_uints(2) r3(2)]
  note r5 = safe_runs [OF safe_uints(3) r4(2)]
  note r6 = safe_runs [OF safe_uints(4) r5(2)]
  note r7 = safe_runs [OF safe_uints(5) r6(2)]
  have pos: "pkt_position p \<le> length data" if "inside data p" for p using that by (auto simp: inside_def pkt_wf_def)
  show ?thesis
    unfolding fuzz_protocol_def Let_def
    by (intro conjI field load len kinds pos r1(1) r2(1) r3(1) r4(1) r5(1) r6(1) r7
        safe_runs(1) [OF safe_wrappers(1) inside_new] safe_runs(1) [OF safe_wrappers(2) inside_new])
qed

lemma unescape_escape_char: "unescape_string (escape_char c @ s) = c # unescape_string s"
  by (simp add: escape_char_def)

lemma unescape_escape: "unescape_string (escape_string s) = s"
  by (induction s) (simp_all add: unescape_escape_char)

lemma hex_digits: "list_all ascii_hexdigit (concat (map hex02_upper bs))"
proof -
  have "is_hex_upper c \<Longrightarrow> ascii_hexdigit c" for c
    by (auto simp: is_hex_upper_def ascii_hexdigit_def is_digit_def Let_def)
  then have "list_all ascii_hexdigit (hex02_upper b)" for b
    using hex02_upper_facts(2) [of b] by (auto simp: list_all_iff)
  then show ?thesis by (induction bs) simp_all
qed

lemma fuzz_converters_passes:
  assumes "datetime_laws E"
  shows "fuzz_converters E fz data"
  using hex_digits [of data] decoders_return [OF assms, of "if data = [] then 0 else data ! 0"]
  by (auto simp add: fuzz_converters_def Let_def unescape_escape escape_bytes_def starts_with_def ends_with_quote_def sql_quoted_def quoted_def
      escape_float_def f64_is_finite_def butlast_append split: option.splits)

text \<open>C23: No input makes one of five fuzz targets fail.  Whatever bytes the fuzzer tries, the targets for authentication, character
  sets, converters, error packets and the protocol reader run without a panic and meet all their assertions: the scrambles
  have the length of their digest, a character set is found under its own name or under \<open>utf8\<close>, escaping is undone
  by unescaping, byte literals are hexadecimal, the decoder of the field type decodes any text without an overflow, an underflow
  or a timestamp out of range, the literals of strings and dates are quoted, the error
  carries the code of the packet, the cursor stays inside the packet, the kinds of packets exclude each other and
  length-coded integers have the length of the protocol.  The sixth target, for the time helpers, is not
  among them: see below.  Of the libraries it is assumed that digests have their length and that a parsed timestamp
  has room for less than a second more.\<close>

theorem fuzz_targets_pass:
  assumes "digest_lengths K" and "datetime_laws E"
  shows "fuzz_auth K data \<and> fuzz_charset lc data \<and> fuzz_converters E fz data \<and> fuzz_error data \<and> fuzz_protocol C data"
  using assms by (intro conjI fuzz_auth_passes fuzz_charset_passes fuzz_converters_passes fuzz_error_passes fuzz_protocol_passes)

text \<open>An input that the decoder of timestamps gets, five and a quarter seconds after the epoch of the instance.\<close>

theorem fuzz_targets_pass_witness:
  "digest_lengths plain_crypto \<and> datetime_laws clock_externs \<and>
   (let data = [0x0C, 0x35, 0x2E, 0x32, 0x35]
    in fuzz_auth plain_crypto data \<and> fuzz_charset (map ascii_lower) data \<and>
       fuzz_converters clock_externs \<lparr>fz_date = 0, fz_time = 0, fz_datetime = 0, fz_span = 3600, fz_decimal = 42\<rparr> data \<and>
       fuzz_error data \<and> fuzz_protocol \<lparr>for_label = \<lambda>_. None, utf8_encoding = 0, decode = \<lambda>_ bs. from_bytes bs\<rparr> data \<and>
       map_option (\<lambda>converter. converter (from_bytes data)) (decoder_run clock_externs 0x0C) = Some (Inr (VDateTime 5250000)))"
proof -
  have str: "from_bytes [0x0C, 0x35, 0x2E, 0x32, 0x35] = [CHR 0x0C, CHR ''5'', CHR ''.'', CHR ''2'', CHR ''5'']"
    by (simp add: from_bytes_def char_of_eq_iff)
  note num = parse_unsigned_def is_digit_def digits_val_def digit_val_def
  have "take_chars 6 ''25'' = ''25''" by (subst chars_of_digits(1)) (simp_all add: is_digit_def)
  moreover have "parse_unsigned 4294967295 ''25'' = Some 25" "parse_unsigned 4294967295 ''5'' = Some 5" by (simp_all add: num)
  ultimately have "convert_datetime clock_externs [CHR 0x0C, CHR ''5'', CHR ''.'', CHR ''2'', CHR ''5''] = VDateTime 5250000"
    by (simp add: convert_datetime_def split_once_def clock_externs_def int_externs_def)
  then have "convert_datetime_run clock_externs [CHR 0x0C, CHR ''5'', CHR ''.'', CHR ''2'', CHR ''5''] = Inr (VDateTime 5250000)"
    by (simp add: convert_datetime_returns [OF clock_externs_laws])
  then have "map_option (\<lambda>converter. converter (from_bytes [0x0C, 0x35, 0x2E, 0x32, 0x35])) (decoder_run clock_externs 0x0C) =
      Some (Inr (VDateTime 5250000))"
    by (simp add: decoder_run_def str)
  then show ?thesis
    unfolding Let_def using plain_crypto_lengths(1) clock_externs_laws fuzz_targets_pass [OF plain_crypto_lengths(1) clock_externs_laws]
    by blast
qed

text \<open>The target for the time helpers is different: it compares them with the zone of the machine, while the helpers
  work in UTC.  It passes on an input exactly when the two agree on the instant, or there is none.\<close>

lemma fuzz_time_passes_iff:
  "fuzz_time C local data \<longleftrightarrow>
     (case ch_from_timestamp C (if 8 \<le> length data then from_le_bytes (take 8 data) else 0) 0 of
        None \<Rightarrow> True
      | Some dt \<Rightarrow> local dt = (ch_date_naive C dt, ch_time C dt, ch_naive_utc C dt))"
  by (auto simp: fuzz_time_def Let_def date_from_ticks_def time_from_ticks_def timestamp_from_ticks_def split: option.splits prod.splits)

text \<open>East of Greenwich it fails on the empty input already.\<close>

lemma fuzz_time_fails:
  "\<not> fuzz_time day_count (\<lambda>s. let l = s + 32400 in (l div 86400, l mod 86400, (l div 86400, l mod 86400))) []"
  by (simp add: fuzz_time_passes_iff day_count_def Let_def)

end
