(* ===== verification/Packet_Stream.thy ===== *)
theory Packet_Stream
  imports Protocol
begin

text \<open>
  The packet stream of \<^verbatim>\<open>mysql-core/src/connection/packet.rs\<close>: splitting of payloads into framed
  packets, reassembly of the received bytes, sequence numbers, and the compressed framing around
  them.  The zlib codec (\<open>noflate\<close>) is a parameter (record \<open>zlib\<close>).
\<close>

section \<open>State\<close>

definition MAX_PACKET_LEN :: nat where
  "MAX_PACKET_LEN = 2 ^ 24 - 1"

definition COMPRESSED_HEADER_LEN :: nat where
  "COMPRESSED_HEADER_LEN = 7"

definition read_int3 :: "bytes \<Rightarrow> nat" where
  "read_int3 bs = unat (from_le_bytes [bs ! 0, bs ! 1, bs ! 2, 0] :: u32)"

definition write_int3 :: "nat \<Rightarrow> bytes" where
  "write_int3 value = take 3 (to_le_bytes (word_of_nat value :: u32))"

record packet_stream =
  ps_send_queue :: "bytes list"
  ps_recv_buffer :: bytes
  ps_decompressed_buffer :: bytes
  ps_recv_queue :: "mysql_packet list"
  ps_next_seq_id :: u8
  ps_next_compressed_seq_id :: u8
  ps_max_allowed_packet :: nat
  ps_compressed :: bool

record zlib =
  zlib_compress :: "bytes \<Rightarrow> string + bytes"
  zlib_decompress :: "bytes \<Rightarrow> string + bytes"

definition ps_new :: "nat \<Rightarrow> packet_stream" where
  "ps_new max_allowed =
     \<lparr>ps_send_queue = [], ps_recv_buffer = [], ps_decompressed_buffer = [], ps_recv_queue = [],
      ps_next_seq_id = 0, ps_next_compressed_seq_id = 0, ps_max_allowed_packet = max_allowed,
      ps_compressed = False\<rparr>"

definition ps_enable_compression :: "packet_stream \<Rightarrow> packet_stream" where
  "ps_enable_compression st = st\<lparr>ps_compressed := True, ps_next_compressed_seq_id := 0\<rparr>"

definition ps_set_next_seq_id :: "u8 \<Rightarrow> packet_stream \<Rightarrow> packet_stream" where
  "ps_set_next_seq_id seq st = st\<lparr>ps_next_seq_id := seq\<rparr>"

definition ps_reset_seq_id :: "packet_stream \<Rightarrow> packet_stream" where
  "ps_reset_seq_id st = st\<lparr>ps_next_seq_id := 0, ps_next_compressed_seq_id := 0\<rparr>"

definition ps_force_close :: "packet_stream \<Rightarrow> packet_stream" where
  "ps_force_close st =
     st\<lparr>ps_send_queue := [], ps_recv_queue := [], ps_recv_buffer := [],
        ps_decompressed_buffer := []\<rparr>"

section \<open>Writing\<close>

lemma MAX_PACKET_LEN_pos: "0 < MAX_PACKET_LEN"
  by (simp add: MAX_PACKET_LEN_def)

text \<open>The loop of \<open>build_plain_packets\<close>; the pair is the data built and the next sequence number.\<close>

function build_plain_loop :: "bytes \<Rightarrow> nat \<Rightarrow> u8 \<Rightarrow> bytes \<Rightarrow> bytes \<times> u8" where
  "build_plain_loop payload offset seq d =
     (let remaining = length payload - offset;
          chunk_len = min remaining MAX_PACKET_LEN;
          chunk = slice_of offset (offset + chunk_len) payload;
          d' = d @ write_int3 (length chunk) @ [seq] @ chunk;
          seq' = seq + 1
      in if chunk_len < MAX_PACKET_LEN then (d', seq')
         else build_plain_loop payload (offset + chunk_len) seq' d')"
  by pat_completeness auto
termination
  using MAX_PACKET_LEN_pos
  by (relation "measure (\<lambda>(payload, offset, _, _). length payload - offset)") (auto simp: min_def)

declare build_plain_loop.simps [simp del]

definition build_plain_packets :: "bytes \<Rightarrow> packet_stream \<Rightarrow> bytes \<times> packet_stream" where
  "build_plain_packets payload st =
     (case build_plain_loop payload 0 (ps_next_seq_id st) [] of
        (d, seq) \<Rightarrow> (d, st\<lparr>ps_next_seq_id := seq\<rparr>))"

text \<open>The loop of \<open>write_compressed_packet\<close> over the plain bytes from \<open>offset\<close> on.\<close>

function write_compressed_loop :: "zlib \<Rightarrow> bytes \<Rightarrow> nat \<Rightarrow> (packet_stream, unit) rs" where
  "write_compressed_loop Z plain offset st =
     (if offset < length plain then
        (let end_pos = min (offset + MAX_PACKET_LEN) (length plain);
             chunk = slice_of offset end_pos plain;
             uncompressed_len = length chunk
         in case zlib_compress Z chunk of
              Inl e \<Rightarrow> err (OperationalError CR_UNKNOWN_ERROR
                (''Failed to compress MySQL packet: '' @ e)) st
            | Inr compressed \<Rightarrow>
                (let (body, uncompressed_field) =
                       (if uncompressed_len \<le> length compressed then (chunk, 0)
                        else (compressed, uncompressed_len))
                 in if MAX_PACKET_LEN < length body then
                      err (OperationalError CR_NET_PACKET_TOO_LARGE
                        (''Got compressed packet larger than 'max_allowed_packet' bytes ('' @
                         dec (length body) @ '' > '' @ dec MAX_PACKET_LEN @ '')'')) st
                    else
                      (let packet = write_int3 (length body) @ [ps_next_compressed_seq_id st] @
                             write_int3 uncompressed_field @ body
                       in write_compressed_loop Z plain end_pos
                            (st\<lparr>ps_send_queue := ps_send_queue st @ [packet],
                                ps_next_compressed_seq_id := ps_next_compressed_seq_id st + 1\<rparr>))))
      else (Inr (), st))"
  by pat_completeness auto
termination
  using MAX_PACKET_LEN_pos
  by (relation "measure (\<lambda>(Z, plain, offset, _). length plain - offset)") auto

declare write_compressed_loop.simps [simp del]

definition write_compressed_packet :: "zlib \<Rightarrow> bytes \<Rightarrow> (packet_stream, unit) rs" where
  "write_compressed_packet Z payload st =
     (case build_plain_packets payload st of (plain, st') \<Rightarrow> write_compressed_loop Z plain 0 st')"

definition ps_write_packet :: "zlib \<Rightarrow> bytes \<Rightarrow> (packet_stream, unit) rs" where
  "ps_write_packet Z payload st =
     (if ps_compressed st then write_compressed_packet Z payload st
      else (case build_plain_packets payload st of
        (d, st') \<Rightarrow> (Inr (), st'\<lparr>ps_send_queue := ps_send_queue st' @ [d]\<rparr>)))"

section \<open>Reading\<close>

definition sat_add :: "nat \<Rightarrow> nat \<Rightarrow> nat" where
  "sat_add a b = min (a + b) usize_max"

definition too_large :: "nat \<Rightarrow> nat \<Rightarrow> error" where
  "too_large n m = OperationalError CR_NET_PACKET_TOO_LARGE
     (''Got packet larger than 'max_allowed_packet' bytes ('' @ dec n @ '' > '' @ dec m @ '')'')"

definition server_lost :: error where
  "server_lost = OperationalError CR_SERVER_LOST ''Lost connection to MySQL server during query''"

definition wrong_seq :: "string \<Rightarrow> u8 \<Rightarrow> u8 \<Rightarrow> error" where
  "wrong_seq what got expected =
     (if got = 0 then server_lost
      else InternalError CR_COMMANDS_OUT_OF_SYNC
        (what @ '' sequence number wrong - got '' @ dec (unat got) @ '' expected '' @
         dec (unat expected)))"

text \<open>
  The inner loop of \<open>parse_plain_packets\<close>: join the chunks of one logical packet.  Its state is the
  stream and the local buffer; \<open>buff\<close> is what has been joined.
\<close>

function join_chunks :: "bytes \<Rightarrow> (packet_stream \<times> bytes, bytes) rs" where
  "join_chunks buff (st, buffer) =
     (if length buffer < 4 then (Inr buff, (st, buffer))
      else
        (let max_packet = ps_max_allowed_packet st;
             chunk_payload_len = read_int3 (take 3 buffer);
             chunk_total_len = 4 + chunk_payload_len;
             packet_number = buffer ! 3;
             st1 = st\<lparr>ps_next_seq_id := ps_next_seq_id st + 1\<rparr>;
             joined = sat_add (length buff) chunk_payload_len;
             buff' = buff @ slice_of 4 chunk_total_len buffer;
             buffer' = drop chunk_total_len buffer
         in if max_packet < chunk_payload_len then
              err (too_large chunk_payload_len max_packet) (ps_force_close st, buffer)
            else if length buffer < chunk_total_len then (Inr buff, (st, buffer))
            else if packet_number \<noteq> ps_next_seq_id st then
              err (wrong_seq ''Packet'' packet_number (ps_next_seq_id st)) (ps_force_close st, buffer)
            else if max_packet < joined then
              err (too_large joined max_packet) (ps_force_close st1, buffer)
            else if chunk_payload_len < MAX_PACKET_LEN then (Inr buff', (st1, buffer'))
            else join_chunks buff' (st1, buffer')))"
  by pat_completeness auto
termination
  by (relation "measure (\<lambda>(_, _, buffer). length buffer)") auto

declare join_chunks.simps [simp del]

lemma join_chunks_shrinks:
  "join_chunks buff (st, buffer) = (Inr r, (st', buffer')) \<Longrightarrow> length buffer' \<le> length buffer"
proof (induction buff "(st, buffer)" arbitrary: st buffer rule: join_chunks.induct)
  case (1 buff st buffer)
  from "1.prems" show ?case
    by (subst (asm) join_chunks.simps)
      (auto simp: Let_def err_panic_apply split: if_splits dest!: "1.hyps" [rotated -1])
qed

lemma join_chunks_progress:
  assumes "join_chunks buff (st, buffer) = (Inr r, (st', buffer'))"
    and "4 \<le> length buffer" and "4 + read_int3 (take 3 buffer) \<le> length buffer"
  shows "length buffer' < length buffer"
  using assms
  by (subst (asm) join_chunks.simps)
    (auto simp: Let_def err_panic_apply split: if_splits dest!: join_chunks_shrinks)

text \<open>The outer loop; \<open>n\<close> counts the logical packets added to the receive queue.\<close>

function parse_plain_loop :: "nat \<Rightarrow> (packet_stream \<times> bytes, nat) rs" where
  "parse_plain_loop n (st, buffer) =
     (if length buffer < 4 then (Inr n, (st, buffer))
      else
        (let max_packet = ps_max_allowed_packet st;
             payload_len = read_int3 (take 3 buffer)
         in if max_packet < payload_len then
              err (too_large payload_len max_packet) (ps_force_close st, buffer)
            else if length buffer < 4 + payload_len then (Inr n, (st, buffer))
            else (case join_chunks [] (st, buffer) of
                (Inl e, s) \<Rightarrow> (Inl e, s)
              | (Inr buff, (st', buffer')) \<Rightarrow>
                  (let packet = packet_new buff in
                   if is_error_packet packet then err (raise_for_error packet) (st', buffer')
                   else parse_plain_loop (n + 1)
                     (st'\<lparr>ps_recv_queue := ps_recv_queue st' @ [packet]\<rparr>, buffer')))))"
  by pat_completeness auto
termination
  by (relation "measure (\<lambda>(_, _, buffer). length buffer)") (auto dest!: sym [of "(Inr _, _)"] dest: join_chunks_progress)

declare parse_plain_loop.simps [simp del]

definition parse_plain_packets :: "(packet_stream \<times> bytes, nat) rs" where
  "parse_plain_packets = parse_plain_loop 0"

text \<open>The loop of \<open>feed_compressed_packets\<close>.\<close>

function feed_compressed_packets :: "zlib \<Rightarrow> (packet_stream, unit) rs" where
  "feed_compressed_packets Z st =
     (if length (ps_recv_buffer st) < COMPRESSED_HEADER_LEN then (Inr (), st)
      else
        (let max_packet = ps_max_allowed_packet st;
             buffer = ps_recv_buffer st;
             compressed_len = read_int3 buffer;
             compressed_seq = buffer ! 3;
             uncompressed_len = read_int3 (drop 4 buffer);
             total_len = COMPRESSED_HEADER_LEN + compressed_len;
             payload = slice_of COMPRESSED_HEADER_LEN total_len buffer;
             st1 = st\<lparr>ps_next_compressed_seq_id := ps_next_compressed_seq_id st + 1\<rparr>
         in if MAX_PACKET_LEN < compressed_len then
              err (OperationalError CR_NET_PACKET_TOO_LARGE
                (''Got compressed packet larger than 'max_allowed_packet' bytes ('' @
                 dec compressed_len @ '' > '' @ dec MAX_PACKET_LEN @ '')'')) (ps_force_close st)
            else if length buffer < total_len then (Inr (), st)
            else if compressed_seq \<noteq> ps_next_compressed_seq_id st then
              err (wrong_seq ''Compressed packet'' compressed_seq (ps_next_compressed_seq_id st))
                (ps_force_close st)
            else
              (let inflated =
                     (if uncompressed_len = 0 then Inr payload
                      else (case zlib_decompress Z payload of
                          Inl e \<Rightarrow> Inl (OperationalError CR_UNKNOWN_ERROR
                            (''Failed to decompress MySQL packet: '' @ e), st1)
                        | Inr d \<Rightarrow>
                            if length d \<noteq> uncompressed_len then
                              Inl (OperationalError CR_UNKNOWN_ERROR
                                (''Decompressed length mismatch: got '' @ dec (length d) @
                                 '' expected '' @ dec uncompressed_len), ps_force_close st1)
                            else Inr d))
               in case inflated of
                    Inl (e, st') \<Rightarrow> err e st'
                  | Inr d \<Rightarrow>
                      (let st2 = st1\<lparr>ps_decompressed_buffer := ps_decompressed_buffer st1 @ d\<rparr> in
                       if max_packet < length (ps_decompressed_buffer st2) then
                         err (too_large (length (ps_decompressed_buffer st2)) max_packet)
                           (ps_force_close st2)
                       else feed_compressed_packets Z
                         (st2\<lparr>ps_recv_buffer := drop total_len buffer\<rparr>)))))"
  by pat_completeness auto
termination
  by (relation "measure (\<lambda>(_, st). length (ps_recv_buffer st))")
    (auto simp: COMPRESSED_HEADER_LEN_def)

declare feed_compressed_packets.simps [simp del]

text \<open>
  \<open>feed_bytes\<close>: \<open>std::mem::take\<close> leaves the buffer empty while it is parsed, and an error returns
  before it is put back.
\<close>

definition parse_decompressed :: "(packet_stream, nat) rs" where
  "parse_decompressed st =
     (case parse_plain_packets (st\<lparr>ps_decompressed_buffer := []\<rparr>, ps_decompressed_buffer st) of
        (Inl e, (st', _)) \<Rightarrow> (Inl e, st')
      | (Inr n, (st', buffer)) \<Rightarrow> (Inr n, st'\<lparr>ps_decompressed_buffer := buffer\<rparr>))"

definition parse_received :: "(packet_stream, nat) rs" where
  "parse_received st =
     (case parse_plain_packets (st\<lparr>ps_recv_buffer := []\<rparr>, ps_recv_buffer st) of
        (Inl e, (st', _)) \<Rightarrow> (Inl e, st')
      | (Inr n, (st', buffer)) \<Rightarrow> (Inr n, st'\<lparr>ps_recv_buffer := buffer\<rparr>))"

definition ps_feed_bytes :: "zlib \<Rightarrow> bytes \<Rightarrow> (packet_stream, nat) rs" where
  "ps_feed_bytes Z d =
     bind_st (modify_st (\<lambda>st. st\<lparr>ps_recv_buffer := ps_recv_buffer st @ d\<rparr>)) (\<lambda>_.
     bind_st get_st (\<lambda>st0.
     bind_st (if ps_compressed st0 then feed_compressed_packets Z else ret ()) (\<lambda>_.
     bind_st parse_decompressed (\<lambda>packets_added.
     bind_st get_st (\<lambda>st.
       if \<not> ps_compressed st then
         bind_st parse_received (\<lambda>packets_added_raw. ret (packets_added + packets_added_raw))
       else ret packets_added)))))"

definition ps_read_packet :: "(packet_stream, mysql_packet) rs" where
  "ps_read_packet st =
     (case ps_recv_queue st of
        [] \<Rightarrow> err NeedMoreData st
      | p # ps \<Rightarrow> (Inr p, st\<lparr>ps_recv_queue := ps\<rparr>))"

section \<open>Frames\<close>

text \<open>
  The reference encoding: a payload is cut into chunks of \<open>MAX_PACKET_LEN\<close> bytes, the last of which is
  shorter (possibly empty), and each chunk is framed by its length and a sequence number.
\<close>

definition frame :: "u8 \<Rightarrow> bytes \<Rightarrow> bytes" where
  "frame seq xs = write_int3 (length xs) @ [seq] @ xs"

function frames :: "u8 \<Rightarrow> bytes \<Rightarrow> bytes" where
  "frames seq xs =
     (if length xs < MAX_PACKET_LEN then frame seq xs
      else frame seq (take MAX_PACKET_LEN xs) @ frames (seq + 1) (drop MAX_PACKET_LEN xs))"
  by pat_completeness auto
termination
  using MAX_PACKET_LEN_pos by (relation "measure (\<lambda>(_, xs). length xs)") auto

declare frames.simps [simp del]

definition frame_count :: "bytes \<Rightarrow> nat" where
  "frame_count xs = Suc (length xs div MAX_PACKET_LEN)"

fun stream_of :: "u8 \<Rightarrow> bytes list \<Rightarrow> bytes" where
  "stream_of seq [] = []"
| "stream_of seq (p # ps) = frames seq p @ stream_of (seq + word_of_nat (frame_count p)) ps"

lemma write_int3_length [simp]: "length (write_int3 n) = 3"
  by (simp add: write_int3_def byte_simps)

lemma take_le_bytes: "m \<le> n \<Longrightarrow> take m (le_bytes n v) = le_bytes m v"
proof (induction n arbitrary: m v)
  case (Suc n)
  then show ?case by (cases m) auto
qed simp

lemma write_int3_eq: "n < 2 ^ 24 \<Longrightarrow> write_int3 n = le_bytes 3 n"
  by (simp add: write_int3_def to_le_bytes_def take_le_bytes unat_of_nat)

lemma read_int3_eq: "length bs = 3 \<Longrightarrow> read_int3 bs = le_nat bs"
proof -
  assume "length bs = 3"
  then obtain a b c where bs: "bs = [a, b, c]" by (auto simp: numeral_eq_Suc length_Suc_conv)
  show ?thesis by (simp add: bs read_int3_def unat_from_le_bytes)
qed

lemma MAX_PACKET_LEN_less: "n \<le> MAX_PACKET_LEN \<Longrightarrow> n < 16777216"
  by (simp add: MAX_PACKET_LEN_def)

lemma read_write_int3: "n \<le> MAX_PACKET_LEN \<Longrightarrow> read_int3 (write_int3 n) = n"
  by (simp add: read_int3_eq write_int3_eq le_bytes_inverse MAX_PACKET_LEN_less)

lemma read_int3_take: "3 \<le> length bs \<Longrightarrow> read_int3 (take 3 bs) = read_int3 bs"
  by (simp add: read_int3_def)

lemma read_int3_frame [simp]:
  "length xs \<le> MAX_PACKET_LEN \<Longrightarrow> read_int3 (take 3 (frame seq xs)) = length xs"
  by (simp add: frame_def read_write_int3)

lemma frame_length [simp]: "length (frame seq xs) = 4 + length xs"
  by (simp add: frame_def)

lemma frame_seq: "(frame seq xs @ rest) ! 3 = seq"
  by (simp add: frame_def nth_append)

lemma frame_payload: "length xs = n \<Longrightarrow> slice_of 4 (4 + n) (frame seq xs @ rest) = xs"
proof -
  assume n: "length xs = n"
  have "frame seq xs @ rest = (write_int3 (length xs) @ [seq]) @ xs @ rest" by (simp add: frame_def)
  then show ?thesis using n by (simp add: slice_of_def)
qed

lemma frame_rest: "drop (4 + length xs) (frame seq xs @ rest) = rest"
  by simp

lemma frame_count_small: "length xs < MAX_PACKET_LEN \<Longrightarrow> frame_count xs = 1"
  by (simp add: frame_count_def)

lemma frame_count_drop:
  "MAX_PACKET_LEN \<le> length xs \<Longrightarrow> frame_count xs = Suc (frame_count (drop MAX_PACKET_LEN xs))"
  using MAX_PACKET_LEN_pos by (simp add: frame_count_def le_div_geq [of MAX_PACKET_LEN "length xs"])

lemma build_plain_loop_frames:
  "offset \<le> length payload \<Longrightarrow> build_plain_loop payload offset seq d =
     (d @ frames seq (drop offset payload),
      seq + word_of_nat (frame_count (drop offset payload)))"
proof (induction payload offset seq d rule: build_plain_loop.induct)
  case (1 payload offset seq d)
  let ?rest = "drop offset payload"
  show ?case
  proof (cases "length ?rest < MAX_PACKET_LEN")
    case True
    then show ?thesis
      by (subst build_plain_loop.simps, subst frames.simps)
        (simp add: Let_def min_def slice_of_def frame_def frame_count_small)
  next
    case False
    then have len: "min (length payload - offset) MAX_PACKET_LEN = MAX_PACKET_LEN" by simp
    have "build_plain_loop payload (offset + MAX_PACKET_LEN) (seq + 1)
        (d @ frame seq (take MAX_PACKET_LEN ?rest)) =
      (d @ frame seq (take MAX_PACKET_LEN ?rest) @ frames (seq + 1) (drop MAX_PACKET_LEN ?rest),
       seq + 1 + word_of_nat (frame_count (drop MAX_PACKET_LEN ?rest)))"
      using "1.IH" [OF refl refl refl refl refl] False "1.prems"
      by (simp add: len slice_of_def frame_def add.commute)
    with False show ?thesis
      by (subst build_plain_loop.simps, subst frames.simps)
        (simp add: Let_def len slice_of_def frame_def frame_count_drop [of ?rest] add.assoc)
  qed
qed

lemma build_plain_packets_frames:
  "build_plain_packets payload st =
     (frames (ps_next_seq_id st) payload,
      st\<lparr>ps_next_seq_id := ps_next_seq_id st + word_of_nat (frame_count payload)\<rparr>)"
  by (simp add: build_plain_packets_def build_plain_loop_frames)

section \<open>Reassembly\<close>

definition seq_after :: "u8 \<Rightarrow> bytes \<Rightarrow> u8" where
  "seq_after seq xs = seq + word_of_nat (frame_count xs)"

text \<open>One frame at the head of the buffer, with the expected number and within the limit.\<close>

lemma join_chunks_frame:
  assumes "length xs \<le> MAX_PACKET_LEN" and "length buff + length xs \<le> ps_max_allowed_packet st"
    and "ps_max_allowed_packet st \<le> usize_max"
  shows "join_chunks buff (st, frame (ps_next_seq_id st) xs @ rest) =
    (let st1 = st\<lparr>ps_next_seq_id := ps_next_seq_id st + 1\<rparr> in
     if length xs < MAX_PACKET_LEN then (Inr (buff @ xs), (st1, rest))
     else join_chunks (buff @ xs) (st1, rest))"
  using assms
  by (subst join_chunks.simps)
    (simp add: Let_def frame_seq frame_payload sat_add_def)

lemma join_chunks_frames:
  assumes "ps_next_seq_id st = seq"
    and "length buff + length xs \<le> ps_max_allowed_packet st"
    and "ps_max_allowed_packet st \<le> usize_max"
  shows "join_chunks buff (st, frames seq xs @ rest) =
    (Inr (buff @ xs), (st\<lparr>ps_next_seq_id := seq_after seq xs\<rparr>, rest))"
  using assms
proof (induction seq xs arbitrary: buff st rule: frames.induct)
  case (1 seq xs)
  show ?case
  proof (cases "length xs < MAX_PACKET_LEN")
    case True
    then have "frames seq xs = frame seq xs" by (subst frames.simps) simp
    with True "1.prems" join_chunks_frame [of xs buff st rest] show ?thesis
      by (simp add: Let_def seq_after_def frame_count_small)
  next
    case False
    let ?hd = "take MAX_PACKET_LEN xs" and ?tl = "drop MAX_PACKET_LEN xs"
    let ?st1 = "st\<lparr>ps_next_seq_id := seq + 1\<rparr>"
    have split: "frames seq xs = frame seq ?hd @ frames (seq + 1) ?tl"
      using False by (subst frames.simps) simp
    have IH: "join_chunks (buff @ ?hd) (?st1, frames (seq + 1) ?tl @ rest) =
        (Inr ((buff @ ?hd) @ ?tl), (?st1\<lparr>ps_next_seq_id := seq_after (seq + 1) ?tl\<rparr>, rest))"
      using False "1.prems" by (intro "1.IH") simp_all
    have "seq_after seq xs = seq_after (seq + 1) ?tl"
      using False by (simp add: seq_after_def frame_count_drop add.assoc)
    then show ?thesis
      using False "1.prems" IH
        join_chunks_frame [of ?hd buff st "frames (seq + 1) ?tl @ rest"]
      by (simp add: split Let_def)
  qed
qed

lemma frames_first_len:
  "read_int3 (take 3 (frames seq xs)) = min (length xs) MAX_PACKET_LEN"
  by (subst frames.simps) (simp add: min_def)

lemma frames_length: "4 + min (length xs) MAX_PACKET_LEN \<le> length (frames seq xs)"
  by (subst frames.simps) (simp add: min_def)

definition not_err :: "bytes \<Rightarrow> bool" where
  "not_err xs \<longleftrightarrow> first_byte xs \<noteq> Some 0xFF"

lemma not_err_simps [simp]:
  "not_err []" "not_err (b # bs) \<longleftrightarrow> b \<noteq> 0xFF" "not_err (replicate n b) \<longleftrightarrow> n = 0 \<or> b \<noteq> 0xFF"
  by (cases n; simp add: not_err_def first_byte_def)+

lemma not_err_packet: "is_error_packet (packet_new xs) \<longleftrightarrow> \<not> not_err xs"
  by (simp add: is_error_packet_def packet_new_def not_err_def)

definition push_packet :: "bytes \<Rightarrow> packet_stream \<Rightarrow> packet_stream" where
  "push_packet xs st = st\<lparr>ps_next_seq_id := seq_after (ps_next_seq_id st) xs,
     ps_recv_queue := ps_recv_queue st @ [packet_new xs]\<rparr>"

lemma parse_plain_loop_frames:
  assumes "length xs \<le> ps_max_allowed_packet st" and "ps_max_allowed_packet st \<le> usize_max"
  shows "parse_plain_loop n (st, frames (ps_next_seq_id st) xs @ rest) =
    (if not_err xs then parse_plain_loop (n + 1) (push_packet xs st, rest)
     else err (raise_mysql_exception xs)
       (st\<lparr>ps_next_seq_id := seq_after (ps_next_seq_id st) xs\<rparr>, rest))"
proof -
  have j: "join_chunks [] (st, frames (ps_next_seq_id st) xs @ rest) =
      (Inr xs, (st\<lparr>ps_next_seq_id := seq_after (ps_next_seq_id st) xs\<rparr>, rest))"
    using assms join_chunks_frames [of st "ps_next_seq_id st" "[]" xs rest] by simp
  have raise: "raise_for_error (packet_new xs) = raise_mysql_exception xs"
    by (simp add: raise_for_error_def packet_new_def)
  have "\<not> length (frames (ps_next_seq_id st) xs @ rest) < 4 + min (length xs) MAX_PACKET_LEN"
    using frames_length [of xs "ps_next_seq_id st"] by simp
  moreover have "\<not> length (frames (ps_next_seq_id st) xs @ rest) < 4"
    and "take 3 (frames (ps_next_seq_id st) xs @ rest) = take 3 (frames (ps_next_seq_id st) xs)"
    using frames_length [of xs "ps_next_seq_id st"] by auto
  moreover have "\<not> ps_max_allowed_packet st < min (length xs) MAX_PACKET_LEN"
    using assms by simp
  ultimately show ?thesis
    by (simp only: parse_plain_loop.simps [of n st "frames (ps_next_seq_id st) xs @ rest"] Let_def
        frames_first_len j not_err_packet raise if_False prod.case sum.case)
      (simp add: push_packet_def)
qed

lemma push_packet_sel [simp]:
  "ps_max_allowed_packet (push_packet xs st) = ps_max_allowed_packet st"
  "ps_next_seq_id (push_packet xs st) = seq_after (ps_next_seq_id st) xs"
  "ps_recv_queue (push_packet xs st) = ps_recv_queue st @ [packet_new xs]"
  "ps_compressed (push_packet xs st) = ps_compressed st"
  "ps_recv_buffer (push_packet xs st) = ps_recv_buffer st"
  "ps_decompressed_buffer (push_packet xs st) = ps_decompressed_buffer st"
  "ps_send_queue (push_packet xs st) = ps_send_queue st"
  "ps_next_compressed_seq_id (push_packet xs st) = ps_next_compressed_seq_id st"
  by (simp_all add: push_packet_def)

lemma parse_plain_loop_stream:
  assumes "\<forall>p \<in> set ps. length p \<le> ps_max_allowed_packet st \<and> not_err p"
    and "ps_max_allowed_packet st \<le> usize_max"
  shows "parse_plain_loop n (st, stream_of (ps_next_seq_id st) ps @ rest) =
    parse_plain_loop (n + length ps) (fold push_packet ps st, rest)"
  using assms
proof (induction ps arbitrary: st n)
  case (Cons p ps)
  have "parse_plain_loop n (st, stream_of (ps_next_seq_id st) (p # ps) @ rest) =
      parse_plain_loop (n + 1) (push_packet p st, stream_of (seq_after (ps_next_seq_id st) p) ps @ rest)"
    using Cons.prems parse_plain_loop_frames [of p st n] by (simp add: seq_after_def)
  also have "\<dots> = parse_plain_loop (n + 1 + length ps) (fold push_packet ps (push_packet p st), rest)"
    using Cons.IH [of "push_packet p st" "n + 1"] Cons.prems by simp
  finally show ?case by simp
qed simp

lemma parse_plain_loop_Nil [simp]: "parse_plain_loop n (st, []) = (Inr n, (st, []))"
  by (subst parse_plain_loop.simps) simp

lemma recv_buffer_self: "ps_recv_buffer st = b \<Longrightarrow> st\<lparr>ps_recv_buffer := b\<rparr> = st"
  by (cases st) simp

text \<open>Feeding a plain stream: both buffers are parsed, the decompressed one being empty.\<close>

definition plain_idle :: "packet_stream \<Rightarrow> bool" where
  "plain_idle st \<longleftrightarrow> \<not> ps_compressed st \<and> ps_decompressed_buffer st = []"

lemma ps_feed_bytes_plain:
  assumes "plain_idle st"
  shows "ps_feed_bytes Z d st = parse_received (st\<lparr>ps_recv_buffer := ps_recv_buffer st @ d\<rparr>)"
proof -
  let ?st = "st\<lparr>ps_recv_buffer := ps_recv_buffer st @ d\<rparr>"
  have "parse_decompressed ?st = (Inr 0, ?st)"
    using assms by (simp add: parse_decompressed_def parse_plain_packets_def plain_idle_def)
  then show ?thesis
    using assms
    by (simp add: ps_feed_bytes_def plain_idle_def st_simps split: prod.splits sum.splits)
qed

lemma fold_push_packet_sel [simp]:
  "ps_max_allowed_packet (fold push_packet ps st) = ps_max_allowed_packet st"
  "ps_recv_queue (fold push_packet ps st) = ps_recv_queue st @ map packet_new ps"
  "ps_compressed (fold push_packet ps st) = ps_compressed st"
  "ps_recv_buffer (fold push_packet ps st) = ps_recv_buffer st"
  "ps_decompressed_buffer (fold push_packet ps st) = ps_decompressed_buffer st"
  "ps_send_queue (fold push_packet ps st) = ps_send_queue st"
  "ps_next_compressed_seq_id (fold push_packet ps st) = ps_next_compressed_seq_id st"
  by (induction ps arbitrary: st) simp_all

section \<open>Delivery as an interface\<close>

text \<open>
  A transport accepts payloads on one side and hands packets over on the other.  \<open>exchange\<close> runs a
  list of payloads through it: each is posted, the bytes it added to the wire are taken in.
\<close>

fun exchange :: "(bytes \<Rightarrow> ('s, unit) rs) \<Rightarrow> ('s \<Rightarrow> bytes list) \<Rightarrow> (bytes \<Rightarrow> ('s, nat) rs) \<Rightarrow>
    bytes list \<Rightarrow> 's \<Rightarrow> 's \<Rightarrow> ('s \<times> 's) option" where
  "exchange post wire take_in [] s r = Some (s, r)"
| "exchange post wire take_in (p # ps) s r =
     (case post p s of
        (Inl e, _) \<Rightarrow> None
      | (Inr _, s1) \<Rightarrow>
          (case take_in (concat (drop (length (wire s)) (wire s1))) r of
             (Inl e, _) \<Rightarrow> None
           | (Inr n, r1) \<Rightarrow> exchange post wire take_in ps s1 r1))"

locale packet_transport =
  fixes post :: "bytes \<Rightarrow> ('s, unit) rs"
    and wire :: "'s \<Rightarrow> bytes list"
    and take_in :: "bytes \<Rightarrow> ('s, nat) rs"
    and inbox :: "'s \<Rightarrow> mysql_packet list"
    and sync :: "'s \<Rightarrow> 's \<Rightarrow> bool"
    and sendable :: "'s \<Rightarrow> bytes \<Rightarrow> bool"
  assumes deliver: "sync s r \<Longrightarrow> sendable r p \<Longrightarrow>
    \<exists>s' ds r'. post p s = (Inr (), s') \<and> wire s' = wire s @ ds \<and>
      take_in (concat ds) r = (Inr 1, r') \<and> inbox r' = inbox r @ [packet_new p] \<and>
      sync s' r' \<and> (\<forall>q. sendable r' q \<longleftrightarrow> sendable r q)"
begin

lemma deliver_all:
  assumes "sync s r" and "\<forall>p \<in> set ps. sendable r p"
  shows "\<exists>s' r'. exchange post wire take_in ps s r = Some (s', r') \<and>
    inbox r' = inbox r @ map packet_new ps \<and> sync s' r'"
  using assms
proof (induction ps arbitrary: s r)
  case (Cons p ps)
  then obtain s1 ds r1 where step: "post p s = (Inr (), s1)" "wire s1 = wire s @ ds"
      "take_in (concat ds) r = (Inr 1, r1)" "inbox r1 = inbox r @ [packet_new p]" "sync s1 r1"
      "\<forall>q. sendable r1 q \<longleftrightarrow> sendable r q"
    using deliver [of s r p] by auto
  with Cons.prems Cons.IH [of s1 r1] show ?case by auto
qed simp

end

definition plain_sync :: "packet_stream \<Rightarrow> packet_stream \<Rightarrow> bool" where
  "plain_sync s r \<longleftrightarrow> \<not> ps_compressed s \<and> plain_idle r \<and> ps_recv_buffer r = [] \<and>
     ps_next_seq_id r = ps_next_seq_id s \<and> ps_max_allowed_packet r \<le> usize_max"

definition plain_sendable :: "packet_stream \<Rightarrow> bytes \<Rightarrow> bool" where
  "plain_sendable r p \<longleftrightarrow> length p \<le> ps_max_allowed_packet r \<and> not_err p"

lemma push_packet_buffers:
  "push_packet p (st\<lparr>ps_recv_buffer := b\<rparr>) = (push_packet p st)\<lparr>ps_recv_buffer := b\<rparr>"
  "push_packet p (st\<lparr>ps_decompressed_buffer := b\<rparr>) = (push_packet p st)\<lparr>ps_decompressed_buffer := b\<rparr>"
  by (cases st; simp add: push_packet_def)+

lemma fold_push_packet_recv_buffer:
  "fold push_packet ps (st\<lparr>ps_recv_buffer := b\<rparr>) = (fold push_packet ps st)\<lparr>ps_recv_buffer := b\<rparr>"
  by (induction ps arbitrary: st) (simp_all add: push_packet_buffers)

lemma fold_push_packet_decompressed_buffer:
  "fold push_packet ps (st\<lparr>ps_decompressed_buffer := b\<rparr>) =
     (fold push_packet ps st)\<lparr>ps_decompressed_buffer := b\<rparr>"
  by (induction ps arbitrary: st) (simp_all add: push_packet_buffers)

lemma parse_received_stream:
  assumes "ps_recv_buffer st = stream_of (ps_next_seq_id st) ps"
    and "\<forall>p \<in> set ps. length p \<le> ps_max_allowed_packet st \<and> not_err p"
    and "ps_max_allowed_packet st \<le> usize_max"
  shows "parse_received st = (Inr (length ps), (fold push_packet ps st)\<lparr>ps_recv_buffer := []\<rparr>)"
proof -
  let ?st = "st\<lparr>ps_recv_buffer := []\<rparr>"
  have "parse_plain_loop 0 (?st, stream_of (ps_next_seq_id ?st) ps @ []) =
      (Inr (length ps), (fold push_packet ps ?st, []))"
    using assms parse_plain_loop_stream [of ps ?st 0 "[]"] by simp
  with assms(1) show ?thesis
    by (simp add: parse_received_def parse_plain_packets_def fold_push_packet_recv_buffer)
qed

interpretation plain: packet_transport "ps_write_packet Z" ps_send_queue "ps_feed_bytes Z"
    ps_recv_queue plain_sync plain_sendable for Z
proof unfold_locales
  fix s r p assume sync: "plain_sync s r" and ok: "plain_sendable r p"
  let ?d = "frames (ps_next_seq_id s) p"
  let ?s' = "s\<lparr>ps_next_seq_id := seq_after (ps_next_seq_id s) p,
    ps_send_queue := ps_send_queue s @ [?d]\<rparr>"
  let ?r' = "(push_packet p r)\<lparr>ps_recv_buffer := []\<rparr>"
  have w: "ps_write_packet Z p s = (Inr (), ?s')"
    using sync by (simp add: ps_write_packet_def plain_sync_def build_plain_packets_frames seq_after_def)
  have f: "ps_feed_bytes Z ?d r = (Inr 1, ?r')"
    using sync ok parse_received_stream [of "r\<lparr>ps_recv_buffer := ?d\<rparr>" "[p]"]
    by (simp add: ps_feed_bytes_plain plain_sync_def plain_sendable_def push_packet_def)
  show "\<exists>s' ds r'. ps_write_packet Z p s = (Inr (), s') \<and> ps_send_queue s' = ps_send_queue s @ ds \<and>
      ps_feed_bytes Z (concat ds) r = (Inr 1, r') \<and>
      ps_recv_queue r' = ps_recv_queue r @ [packet_new p] \<and> plain_sync s' r' \<and>
      (\<forall>q. plain_sendable r' q \<longleftrightarrow> plain_sendable r q)"
    using w f sync
    by (intro exI [of _ ?s'] exI [of _ "[?d]"] exI [of _ ?r'])
      (simp add: plain_sync_def plain_idle_def plain_sendable_def)
qed

end
