(* ===== verification/Packet_Delivery.thy ===== *)
theory Packet_Delivery
  imports Packet_Stream
begin

text \<open>
  What the packet stream guarantees end to end: the compressed framing delivers what was written, the
  cutting of the byte stream into reads does not matter, queued packets respect the limit, and what
  happens on an \<open>ERR\<close> packet or a sequence number out of order.
\<close>

section \<open>The compressed framing\<close>

text \<open>
  What the framing relies on of the codec: compression succeeds and decompression undoes it.
\<close>

definition zlib_ok :: "zlib \<Rightarrow> bool" where
  "zlib_ok Z \<longleftrightarrow> (\<forall>xs. \<exists>c. zlib_compress Z xs = Inr c \<and> zlib_decompress Z c = Inr xs)"

definition deflate :: "zlib \<Rightarrow> bytes \<Rightarrow> bytes" where
  "deflate Z xs = (case zlib_compress Z xs of Inr c \<Rightarrow> c | Inl _ \<Rightarrow> [])"

lemma zlib_okD:
  assumes "zlib_ok Z"
  shows "zlib_compress Z xs = Inr (deflate Z xs)" "zlib_decompress Z (deflate Z xs) = Inr xs"
proof -
  obtain c where "zlib_compress Z xs = Inr c" "zlib_decompress Z c = Inr xs"
    using assms unfolding zlib_ok_def by blast
  then show "zlib_compress Z xs = Inr (deflate Z xs)" "zlib_decompress Z (deflate Z xs) = Inr xs"
    by (simp_all add: deflate_def)
qed

definition compressed_frame :: "zlib \<Rightarrow> u8 \<Rightarrow> bytes \<Rightarrow> bytes" where
  "compressed_frame Z seq chunk =
     (if length chunk \<le> length (deflate Z chunk)
      then write_int3 (length chunk) @ [seq] @ write_int3 0 @ chunk
      else write_int3 (length (deflate Z chunk)) @ [seq] @ write_int3 (length chunk) @ deflate Z chunk)"

function compressed_frames :: "zlib \<Rightarrow> u8 \<Rightarrow> bytes \<Rightarrow> bytes list" where
  "compressed_frames Z seq plain =
     (if plain = [] then []
      else compressed_frame Z seq (take MAX_PACKET_LEN plain) #
        compressed_frames Z (seq + 1) (drop MAX_PACKET_LEN plain))"
  by pat_completeness auto
termination
  using MAX_PACKET_LEN_pos by (relation "measure (\<lambda>(_, _, plain). length plain)") auto

declare compressed_frames.simps [simp del]

lemma write_compressed_step:
  assumes "zlib_ok Z" and "offset < length plain"
    and "slice_of offset (min (offset + MAX_PACKET_LEN) (length plain)) plain = chunk"
    and "length chunk \<le> MAX_PACKET_LEN"
  shows "write_compressed_loop Z plain offset st =
    write_compressed_loop Z plain (min (offset + MAX_PACKET_LEN) (length plain))
      (st\<lparr>ps_send_queue := ps_send_queue st @
             [compressed_frame Z (ps_next_compressed_seq_id st) chunk],
          ps_next_compressed_seq_id := ps_next_compressed_seq_id st + 1\<rparr>)"
proof (cases "length chunk \<le> length (deflate Z chunk)")
  case True
  with assms show ?thesis
    by (subst write_compressed_loop.simps)
      (simp only: Let_def zlib_okD [OF assms(1)] compressed_frame_def if_True if_False sum.case
        prod.case not_less [symmetric] simp_thms)
next
  case False
  with assms have "\<not> MAX_PACKET_LEN < length (deflate Z chunk)" by simp
  with False assms show ?thesis
    by (subst write_compressed_loop.simps)
      (simp only: Let_def zlib_okD [OF assms(1)] compressed_frame_def if_True if_False sum.case
        prod.case simp_thms)
qed

lemma write_compressed_loop_frames:
  assumes "zlib_ok Z"
  shows "write_compressed_loop Z plain offset st =
    (let packets = compressed_frames Z (ps_next_compressed_seq_id st) (drop offset plain) in
     (Inr (), st\<lparr>ps_send_queue := ps_send_queue st @ packets,
        ps_next_compressed_seq_id := ps_next_compressed_seq_id st + word_of_nat (length packets)\<rparr>))"
proof (induction "length plain - offset" arbitrary: offset st rule: less_induct)
  case less
  let ?rest = "drop offset plain" and ?seq = "ps_next_compressed_seq_id st"
  show ?case
  proof (cases "offset < length plain")
    case False
    then show ?thesis
      by (subst write_compressed_loop.simps, subst compressed_frames.simps) simp
  next
    case True
    let ?stop = "min (offset + MAX_PACKET_LEN) (length plain)"
    let ?chunk = "take MAX_PACKET_LEN ?rest"
    let ?st1 = "st\<lparr>ps_send_queue := ps_send_queue st @ [compressed_frame Z ?seq ?chunk],
      ps_next_compressed_seq_id := ?seq + 1\<rparr>"
    have chunk: "slice_of offset ?stop plain = ?chunk"
      using True by (simp add: slice_of_def min_def)
    have rest: "drop ?stop plain = drop MAX_PACKET_LEN ?rest"
      by (simp add: min_def add.commute)
    have step: "write_compressed_loop Z plain offset st = write_compressed_loop Z plain ?stop ?st1"
      by (rule write_compressed_step [OF assms True chunk]) simp
    have less: "length plain - ?stop < length plain - offset"
      using True MAX_PACKET_LEN_pos by auto
    have split: "compressed_frames Z ?seq ?rest =
        compressed_frame Z ?seq ?chunk # compressed_frames Z (?seq + 1) (drop MAX_PACKET_LEN ?rest)"
      using True by (subst compressed_frames.simps) simp
    show ?thesis
      unfolding step less.hyps [OF less, of ?st1] rest split by (simp add: Let_def add.assoc)
  qed
qed


text \<open>Inflating the frames again.\<close>

lemma compressed_frame_length: "7 \<le> length (compressed_frame Z seq chunk)"
  by (simp add: compressed_frame_def)

lemma header_fields:
  assumes "n \<le> MAX_PACKET_LEN" and "m \<le> MAX_PACKET_LEN"
    and "buffer = write_int3 n @ [seq] @ write_int3 m @ body @ rest" and "length body = n"
  shows "read_int3 buffer = n" and "buffer ! 3 = seq" and "read_int3 (drop 4 buffer) = m"
    and "slice_of 7 (7 + n) buffer = body" and "drop (7 + n) buffer = rest"
    and "7 + n \<le> length buffer"
proof -
  have "read_int3 (take 3 buffer) = n" "read_int3 (take 3 (drop 4 buffer)) = m"
    using assms(1,2) by (simp_all add: assms(3) read_write_int3)
  moreover have "3 \<le> length (drop 4 buffer)" "3 \<le> length buffer" by (simp_all add: assms(3))
  ultimately show "read_int3 buffer = n" "read_int3 (drop 4 buffer) = m"
    by (metis read_int3_take)+
  show "buffer ! 3 = seq" by (simp add: assms(3) nth_append)
  obtain hdr where "buffer = hdr @ body @ rest" and "length hdr = 7"
    using assms(3) by (intro that [of "write_int3 n @ seq # write_int3 m"]) simp_all
  then show "slice_of 7 (7 + n) buffer = body" "drop (7 + n) buffer = rest"
      "7 + n \<le> length buffer"
    using assms(4) by (simp_all add: slice_of_def)
qed

lemma feed_compressed_step:
  assumes "zlib_ok Z" and "length chunk \<le> MAX_PACKET_LEN" and "chunk \<noteq> []"
    and "ps_recv_buffer st = compressed_frame Z (ps_next_compressed_seq_id st) chunk @ rest"
    and "length (ps_decompressed_buffer st) + length chunk \<le> ps_max_allowed_packet st"
  shows "feed_compressed_packets Z st = feed_compressed_packets Z
    (st\<lparr>ps_next_compressed_seq_id := ps_next_compressed_seq_id st + 1,
        ps_decompressed_buffer := ps_decompressed_buffer st @ chunk, ps_recv_buffer := rest\<rparr>)"
proof (cases "length chunk \<le> length (deflate Z chunk)")
  case True
  then have "ps_recv_buffer st =
      write_int3 (length chunk) @ [ps_next_compressed_seq_id st] @ write_int3 0 @ chunk @ rest"
    using assms(4) by (simp add: compressed_frame_def)
  note h = header_fields [OF assms(2) le0 this refl]
  from h assms show ?thesis
    by (subst feed_compressed_packets.simps) (simp add: Let_def COMPRESSED_HEADER_LEN_def)
next
  case False
  let ?body = "deflate Z chunk"
  have len: "length ?body \<le> MAX_PACKET_LEN" using False assms(2) by simp
  have "ps_recv_buffer st =
      write_int3 (length ?body) @ [ps_next_compressed_seq_id st] @ write_int3 (length chunk) @ ?body @ rest"
    using False assms(4) by (simp add: compressed_frame_def)
  note h = header_fields [OF len assms(2) this refl]
  from h len assms(3,5) show ?thesis
    by (subst feed_compressed_packets.simps)
      (simp add: Let_def COMPRESSED_HEADER_LEN_def zlib_okD [OF assms(1)])
qed

lemma feed_compressed_frames:
  assumes "zlib_ok Z" and "seq = ps_next_compressed_seq_id st"
    and "ps_recv_buffer st = concat (compressed_frames Z seq plain)"
    and "length (ps_decompressed_buffer st) + length plain \<le> ps_max_allowed_packet st"
  shows "feed_compressed_packets Z st = (Inr (),
    st\<lparr>ps_next_compressed_seq_id := seq + word_of_nat (length (compressed_frames Z seq plain)),
       ps_decompressed_buffer := ps_decompressed_buffer st @ plain, ps_recv_buffer := []\<rparr>)"
  using assms
proof (induction "length plain" arbitrary: plain seq st rule: less_induct)
  case less
  show ?case
  proof (cases "plain = []")
    case True
    with less.prems show ?thesis
      by (subst feed_compressed_packets.simps)
        (simp add: compressed_frames.simps [of Z _ "[]"] COMPRESSED_HEADER_LEN_def)
  next
    case False
    let ?hd = "take MAX_PACKET_LEN plain" and ?tl = "drop MAX_PACKET_LEN plain"
    let ?st1 = "st\<lparr>ps_next_compressed_seq_id := seq + 1,
      ps_decompressed_buffer := ps_decompressed_buffer st @ ?hd,
      ps_recv_buffer := concat (compressed_frames Z (seq + 1) ?tl)\<rparr>"
    have split: "compressed_frames Z seq plain =
        compressed_frame Z seq ?hd # compressed_frames Z (seq + 1) ?tl"
      using False by (subst compressed_frames.simps) simp
    have "ps_recv_buffer st = compressed_frame Z (ps_next_compressed_seq_id st) ?hd @
        concat (compressed_frames Z (seq + 1) ?tl)"
      unfolding less.prems(2) [symmetric] less.prems(3) split by simp
    then have step: "feed_compressed_packets Z st = feed_compressed_packets Z ?st1"
      using less.prems False MAX_PACKET_LEN_pos
      by (subst feed_compressed_step [of Z ?hd]) (auto simp: min_def)
    have "feed_compressed_packets Z ?st1 = (Inr (),
      ?st1\<lparr>ps_next_compressed_seq_id := seq + 1 + word_of_nat (length (compressed_frames Z (seq + 1) ?tl)),
         ps_decompressed_buffer := ps_decompressed_buffer ?st1 @ ?tl, ps_recv_buffer := []\<rparr>)"
      using less.prems False MAX_PACKET_LEN_pos by (intro less.hyps) (auto simp: min_def)
    then show ?thesis unfolding step by (simp add: split add.assoc)
  qed
qed


text \<open>The second interpretation of the transport interface.\<close>

definition compressed_sync :: "zlib \<Rightarrow> packet_stream \<Rightarrow> packet_stream \<Rightarrow> bool" where
  "compressed_sync Z s r \<longleftrightarrow> zlib_ok Z \<and> ps_compressed s \<and> ps_compressed r \<and>
     ps_recv_buffer r = [] \<and> ps_decompressed_buffer r = [] \<and>
     ps_next_seq_id r = ps_next_seq_id s \<and>
     ps_next_compressed_seq_id r = ps_next_compressed_seq_id s \<and>
     ps_max_allowed_packet r \<le> usize_max"

text \<open>The limit is applied to the inflated bytes, so it counts the four header bytes of each frame.\<close>

definition compressed_sendable :: "packet_stream \<Rightarrow> bytes \<Rightarrow> bool" where
  "compressed_sendable r p \<longleftrightarrow> length p + 4 * frame_count p \<le> ps_max_allowed_packet r \<and> not_err p"

lemma frames_total_length: "length (frames seq xs) = length xs + 4 * frame_count xs"
proof (induction seq xs rule: frames.induct)
  case (1 seq xs)
  then show ?case
    by (subst frames.simps) (auto simp: frame_count_small frame_count_drop [of xs])
qed

lemma parse_decompressed_stream:
  assumes "ps_decompressed_buffer st = stream_of (ps_next_seq_id st) ps"
    and "\<forall>p \<in> set ps. length p \<le> ps_max_allowed_packet st \<and> not_err p"
    and "ps_max_allowed_packet st \<le> usize_max"
  shows "parse_decompressed st =
    (Inr (length ps), (fold push_packet ps st)\<lparr>ps_decompressed_buffer := []\<rparr>)"
proof -
  let ?st = "st\<lparr>ps_decompressed_buffer := []\<rparr>"
  have "parse_plain_loop 0 (?st, stream_of (ps_next_seq_id ?st) ps @ []) =
      (Inr (length ps), (fold push_packet ps ?st, []))"
    using assms parse_plain_loop_stream [of ps ?st 0 "[]"] by simp
  with assms(1) show ?thesis
    by (simp add: parse_decompressed_def parse_plain_packets_def fold_push_packet_decompressed_buffer)
qed

lemma ps_feed_bytes_compressed:
  assumes "feed_compressed_packets Z (st\<lparr>ps_recv_buffer := ps_recv_buffer st @ d\<rparr>) = (Inr (), st1)"
    and "parse_decompressed st1 = (Inr n, st2)"
    and "ps_compressed st" and "ps_compressed st2"
  shows "ps_feed_bytes Z d st = (Inr n, st2)"
  using assms by (simp add: ps_feed_bytes_def st_simps)

interpretation zipped: packet_transport "ps_write_packet Z" ps_send_queue "ps_feed_bytes Z"
    ps_recv_queue "compressed_sync Z" compressed_sendable for Z
proof unfold_locales
  fix s r p assume sync: "compressed_sync Z s r" and ok: "compressed_sendable r p"
  let ?plain = "frames (ps_next_seq_id s) p"
  let ?ds = "compressed_frames Z (ps_next_compressed_seq_id s) ?plain"
  let ?cseq = "ps_next_compressed_seq_id s + word_of_nat (length ?ds)"
  let ?s' = "s\<lparr>ps_next_seq_id := seq_after (ps_next_seq_id s) p,
    ps_send_queue := ps_send_queue s @ ?ds, ps_next_compressed_seq_id := ?cseq\<rparr>"
  let ?r1 = "r\<lparr>ps_next_compressed_seq_id := ?cseq, ps_decompressed_buffer := ?plain, ps_recv_buffer := []\<rparr>"
  let ?r' = "(push_packet p ?r1)\<lparr>ps_decompressed_buffer := []\<rparr>"
  have Z: "zlib_ok Z" using sync by (simp add: compressed_sync_def)
  have w: "ps_write_packet Z p s = (Inr (), ?s')"
    using sync
    by (simp add: ps_write_packet_def compressed_sync_def write_compressed_packet_def Let_def
        build_plain_packets_frames seq_after_def write_compressed_loop_frames)
  have inflate: "feed_compressed_packets Z (r\<lparr>ps_recv_buffer := ps_recv_buffer r @ concat ?ds\<rparr>) =
      (Inr (), ?r1)"
    using sync ok
    by (subst feed_compressed_frames [where plain = ?plain and seq = "ps_next_compressed_seq_id s"])
      (simp_all add: compressed_sync_def compressed_sendable_def frames_total_length)
  have parse: "parse_decompressed ?r1 = (Inr 1, ?r')"
    using sync ok parse_decompressed_stream [of ?r1 "[p]"]
    by (simp add: compressed_sync_def compressed_sendable_def)
  have f: "ps_feed_bytes Z (concat ?ds) r = (Inr 1, ?r')"
    using sync by (intro ps_feed_bytes_compressed [OF inflate parse])
      (simp_all add: compressed_sync_def)
  show "\<exists>s' ds r'. ps_write_packet Z p s = (Inr (), s') \<and> ps_send_queue s' = ps_send_queue s @ ds \<and>
      ps_feed_bytes Z (concat ds) r = (Inr 1, r') \<and>
      ps_recv_queue r' = ps_recv_queue r @ [packet_new p] \<and> compressed_sync Z s' r' \<and>
      (\<forall>q. compressed_sendable r' q \<longleftrightarrow> compressed_sendable r q)"
    using w f sync
    by (intro exI [of _ ?s'] exI [of _ ?ds] exI [of _ ?r'])
      (simp add: compressed_sync_def compressed_sendable_def)
qed

section \<open>Reads of any size\<close>

text \<open>
  Bytes arrive in pieces that need not be aligned with frames: feeding them one after another adds
  up the packets completed.
\<close>

fun feed_all :: "zlib \<Rightarrow> bytes list \<Rightarrow> (packet_stream, nat) rs" where
  "feed_all Z [] = ret 0"
| "feed_all Z (d # ds) =
     bind_st (ps_feed_bytes Z d) (\<lambda>n. bind_st (feed_all Z ds) (\<lambda>m. ret (n + m)))"

definition deliverable :: "nat \<Rightarrow> bytes list \<Rightarrow> bool" where
  "deliverable m ps \<longleftrightarrow> m \<le> usize_max \<and>
     list_all (\<lambda>p. length p \<le> m \<and> length p < MAX_PACKET_LEN \<and> not_err p) ps"

text \<open>An incomplete frame is left in the buffer.\<close>

lemma parse_plain_loop_stuck:
  assumes "a @ b = frame seq p" and "b \<noteq> []" and "length p \<le> ps_max_allowed_packet st"
    and "length p < MAX_PACKET_LEN"
  shows "parse_plain_loop n (st, a) = (Inr n, (st, a))"
proof (cases "length a < 4")
  case True
  then show ?thesis by (subst parse_plain_loop.simps) simp
next
  case False
  then have "take 3 a = take 3 (frame seq p)"
    using arg_cong [OF assms(1), of "take 3"] by simp
  then have "read_int3 (take 3 a) = length p" using assms(4) by simp
  moreover have "length a < 4 + length p"
    using arg_cong [OF assms(1), of length] assms(2) by (cases b) simp_all
  ultimately show ?thesis
    using False assms(3) by (subst parse_plain_loop.simps) simp
qed

lemma parse_plain_loop_prefix:
  assumes "a @ b = stream_of (ps_next_seq_id st) ps" and "deliverable (ps_max_allowed_packet st) ps"
  shows "\<exists>ps1 ps2 r. ps = ps1 @ ps2 \<and>
    parse_plain_loop n (st, a) = (Inr (n + length ps1), (fold push_packet ps1 st, r)) \<and>
    r @ b = stream_of (ps_next_seq_id (fold push_packet ps1 st)) ps2"
  using assms
proof (induction ps arbitrary: st a n)
  case Nil
  then show ?case by simp
next
  case (Cons p ps)
  let ?seq = "ps_next_seq_id st"
  from Cons.prems have p: "length p \<le> ps_max_allowed_packet st" "length p < MAX_PACKET_LEN"
      "not_err p" "deliverable (ps_max_allowed_packet st) ps" "ps_max_allowed_packet st \<le> usize_max"
    by (auto simp: deliverable_def)
  have fr: "frames ?seq p = frame ?seq p" using p(2) by (subst frames.simps) simp
  have stream: "a @ b = frame ?seq p @ stream_of (seq_after ?seq p) ps"
    using Cons.prems(1) by (simp add: fr seq_after_def)
  from append_eq_append_conv2 [THEN iffD1, OF stream] obtain us where
    "a = frame ?seq p @ us \<and> us @ b = stream_of (seq_after ?seq p) ps \<or>
     a @ us = frame ?seq p \<and> b = us @ stream_of (seq_after ?seq p) ps" by blast
  then consider (whole) us where "a = frame ?seq p @ us" "us @ b = stream_of (seq_after ?seq p) ps"
    | (part) us where "a @ us = frame ?seq p" "us \<noteq> []"
    by (metis append_Nil append_Nil2)
  then show ?case
  proof cases
    case whole
    have step: "parse_plain_loop n (st, a) = parse_plain_loop (n + 1) (push_packet p st, us)"
      using parse_plain_loop_frames [of p st n us] p whole(1) by (simp add: fr)
    from Cons.IH [of us "push_packet p st" "n + 1"] whole(2) p(4) obtain ps1 ps2 r where
      "ps = ps1 @ ps2"
      "parse_plain_loop (n + 1) (push_packet p st, us) =
         (Inr (n + 1 + length ps1), (fold push_packet ps1 (push_packet p st), r))"
      "r @ b = stream_of (ps_next_seq_id (fold push_packet ps1 (push_packet p st))) ps2"
      by auto
    then show ?thesis
      by (intro exI [of _ "p # ps1"] exI [of _ ps2] exI [of _ r]) (simp add: step)
  next
    case part
    have "parse_plain_loop n (st, a) = (Inr n, (st, a))"
      by (rule parse_plain_loop_stuck [OF part p(1,2)])
    then show ?thesis
      using Cons.prems(1) by (intro exI [of _ "[]"] exI [of _ "p # ps"] exI [of _ a]) simp
  qed
qed

lemma parse_received_prefix:
  assumes "ps_recv_buffer st @ b = stream_of (ps_next_seq_id st) ps" and "deliverable (ps_max_allowed_packet st) ps"
  shows "\<exists>ps1 ps2 r. ps = ps1 @ ps2 \<and>
    parse_received st = (Inr (length ps1), (fold push_packet ps1 st)\<lparr>ps_recv_buffer := r\<rparr>) \<and>
    r @ b = stream_of (ps_next_seq_id (fold push_packet ps1 st)) ps2"
proof -
  let ?st = "st\<lparr>ps_recv_buffer := []\<rparr>"
  from parse_plain_loop_prefix [of "ps_recv_buffer st" b ?st ps 0] assms obtain ps1 ps2 r where
    "ps = ps1 @ ps2"
    "parse_plain_loop 0 (?st, ps_recv_buffer st) = (Inr (length ps1), (fold push_packet ps1 ?st, r))"
    "r @ b = stream_of (ps_next_seq_id (fold push_packet ps1 ?st)) ps2"
    by auto
  then show ?thesis
    by (intro exI [of _ ps1] exI [of _ ps2] exI [of _ r])
      (simp add: parse_received_def parse_plain_packets_def fold_push_packet_recv_buffer)
qed

lemma feed_all_stream:
  assumes "segs \<noteq> []" and "plain_idle st"
    and "ps_recv_buffer st @ concat segs = stream_of (ps_next_seq_id st) ps"
    and "deliverable (ps_max_allowed_packet st) ps"
  shows "feed_all Z segs st = (Inr (length ps), (fold push_packet ps st)\<lparr>ps_recv_buffer := []\<rparr>)"
  using assms
proof (induction segs arbitrary: st ps rule: list_nonempty_induct)
  case (single d)
  then show ?case
    using parse_received_stream [of "st\<lparr>ps_recv_buffer := ps_recv_buffer st @ d\<rparr>" ps]
    by (simp add: ps_feed_bytes_plain st_simps deliverable_def list_all_iff
        fold_push_packet_recv_buffer)
next
  case (cons d ds)
  let ?st = "st\<lparr>ps_recv_buffer := ps_recv_buffer st @ d\<rparr>"
  from parse_received_prefix [of ?st "concat ds" ps] cons.prems obtain ps1 ps2 r where
    ps: "ps = ps1 @ ps2" and
    rec: "parse_received ?st = (Inr (length ps1), (fold push_packet ps1 ?st)\<lparr>ps_recv_buffer := r\<rparr>)"
    and r: "r @ concat ds = stream_of (ps_next_seq_id (fold push_packet ps1 ?st)) ps2"
    by auto
  let ?st1 = "(fold push_packet ps1 st)\<lparr>ps_recv_buffer := r\<rparr>"
  have "feed_all Z ds ?st1 = (Inr (length ps2), (fold push_packet ps2 ?st1)\<lparr>ps_recv_buffer := []\<rparr>)"
    using cons.prems r ps
    by (intro cons.IH) (auto simp: plain_idle_def fold_push_packet_recv_buffer deliverable_def)
  then show ?case
    using cons.prems(1) rec
    by (simp add: ps_feed_bytes_plain st_simps ps fold_push_packet_recv_buffer)
qed

section \<open>The receive queue\<close>

text \<open>
  Every queued packet is unread, is no \<open>ERR\<close> packet and respects the limit of the stream.
\<close>

definition queued_ok :: "packet_stream \<Rightarrow> bool" where
  "queued_ok st \<longleftrightarrow> ps_max_allowed_packet st < usize_max \<and>
     list_all (\<lambda>p. pkt_position p = 0 \<and> \<not> is_error_packet p \<and>
       length (pkt_data p) \<le> ps_max_allowed_packet st) (ps_recv_queue st)"

lemma queued_ok_force_close: "queued_ok st \<Longrightarrow> queued_ok (ps_force_close st)"
  by (simp add: queued_ok_def ps_force_close_def)

lemma queued_ok_update [simp]:
  "queued_ok (st\<lparr>ps_next_seq_id := n\<rparr>) = queued_ok st"
  "queued_ok (st\<lparr>ps_next_compressed_seq_id := n\<rparr>) = queued_ok st"
  "queued_ok (st\<lparr>ps_recv_buffer := b\<rparr>) = queued_ok st"
  "queued_ok (st\<lparr>ps_decompressed_buffer := b\<rparr>) = queued_ok st"
  "queued_ok (st\<lparr>ps_send_queue := q\<rparr>) = queued_ok st"
  by (simp_all add: queued_ok_def)

lemma max_force_close [simp]:
  "ps_max_allowed_packet (ps_force_close st) = ps_max_allowed_packet st"
  by (simp add: ps_force_close_def)

lemma join_chunks_bound:
  assumes "queued_ok st" and "length buff \<le> ps_max_allowed_packet st"
    and "join_chunks buff (st, buffer) = (r, (st', buffer'))"
  shows "queued_ok st' \<and> ps_max_allowed_packet st' = ps_max_allowed_packet st \<and>
    (\<forall>x. r = Inr x \<longrightarrow> length x \<le> ps_max_allowed_packet st)"
  using assms
proof (induction buff "(st, buffer)" arbitrary: st buffer rule: join_chunks.induct)
  case (1 buff st buffer)
  let ?n = "read_int3 (take 3 buffer)"
  let ?st1 = "st\<lparr>ps_next_seq_id := ps_next_seq_id st + 1\<rparr>"
  let ?buff = "buff @ slice_of 4 (4 + ?n) buffer" and ?rest = "drop (4 + ?n) buffer"
  show ?case
  proof (cases "4 \<le> length buffer \<and> ?n \<le> ps_max_allowed_packet st \<and> 4 + ?n \<le> length buffer \<and>
      buffer ! 3 = ps_next_seq_id st \<and>
      sat_add (length buff) ?n \<le> ps_max_allowed_packet st")
    case False
    with "1.prems" show ?thesis
      by (subst (asm) join_chunks.simps)
        (auto simp: Let_def err_panic_apply queued_ok_force_close split: if_splits)
  next
    case True
    then have len: "length ?buff \<le> ps_max_allowed_packet st"
      using "1.prems"(1) by (simp add: sat_add_def queued_ok_def slice_of_length min_def split: if_splits)
    show ?thesis
    proof (cases "?n < MAX_PACKET_LEN")
      case small: True
      with True len "1.prems" show ?thesis
        by (subst (asm) join_chunks.simps) (auto simp: Let_def)
    next
      case False
      with True "1.prems"(3) have "join_chunks ?buff (?st1, ?rest) = (r, (st', buffer'))"
        by (subst (asm) join_chunks.simps) (simp add: Let_def)
      moreover have "queued_ok ?st1" "length ?buff \<le> ps_max_allowed_packet ?st1"
        using "1.prems"(1) len by simp_all
      ultimately show ?thesis
        using "1.hyps" [OF _ refl refl refl refl refl refl refl refl] True False by simp
    qed
  qed
qed

lemma parse_plain_loop_queued:
  assumes "queued_ok st" and "parse_plain_loop n (st, buffer) = (r, (st', buffer'))"
  shows "queued_ok st'"
  using assms
proof (induction n "(st, buffer)" arbitrary: st buffer rule: parse_plain_loop.induct)
  case (1 n st buffer)
  let ?n = "read_int3 (take 3 buffer)"
  show ?case
  proof (cases "4 \<le> length buffer \<and> ?n \<le> ps_max_allowed_packet st \<and> 4 + ?n \<le> length buffer")
    case False
    with "1.prems" show ?thesis
      by (subst (asm) parse_plain_loop.simps)
        (auto simp: Let_def err_panic_apply queued_ok_force_close split: if_splits)
  next
    case True
    obtain j st1 buffer1 where j: "join_chunks [] (st, buffer) = (j, (st1, buffer1))"
      by (metis prod_cases3)
    note b = join_chunks_bound [OF "1.prems"(1) _ j]
    show ?thesis
    proof (cases j)
      case (Inl e)
      with True j b "1.prems"(2) show ?thesis
        by (subst (asm) parse_plain_loop.simps) (simp add: Let_def)
    next
      case (Inr x)
      let ?st2 = "st1\<lparr>ps_recv_queue := ps_recv_queue st1 @ [packet_new x]\<rparr>"
      show ?thesis
      proof (cases "is_error_packet (packet_new x)")
        case err: True
        with True Inr j b "1.prems"(2) show ?thesis
          by (subst (asm) parse_plain_loop.simps) (simp add: Let_def err_panic_apply)
      next
        case False
        have "queued_ok ?st2"
          using b Inr False by (auto simp: queued_ok_def packet_new_def)
        moreover have "parse_plain_loop (n + 1) (?st2, buffer1) = (r, (st', buffer'))"
          using True False Inr j "1.prems"(2)
          by (subst (asm) parse_plain_loop.simps) (simp add: Let_def)
        ultimately show ?thesis
          using "1.hyps" [OF _ refl refl _ _ j [symmetric] Inr refl refl] True False Inr
          by simp
      qed
    qed
  qed
qed

lemma parse_received_queued: "keeps queued_ok parse_received"
  by (rule keepsI) (auto simp: parse_received_def parse_plain_packets_def
      dest!: parse_plain_loop_queued [rotated] split: prod.splits sum.splits)

lemma parse_decompressed_queued: "keeps queued_ok parse_decompressed"
  by (rule keepsI) (auto simp: parse_decompressed_def parse_plain_packets_def
      dest!: parse_plain_loop_queued [rotated] split: prod.splits sum.splits)

lemma feed_compressed_queued: "queued_ok st \<Longrightarrow> queued_ok (snd (feed_compressed_packets Z st))"
proof (induction Z st rule: feed_compressed_packets.induct)
  case (1 Z st)
  then show ?case
    by (subst feed_compressed_packets.simps)
      (auto simp: Let_def err_panic_apply queued_ok_force_close split: sum.splits prod.splits)
qed

lemma write_packet_queued: "keeps queued_ok (ps_write_packet Z payload)"
proof (rule keepsI)
  have loop: "queued_ok st \<Longrightarrow> queued_ok (snd (write_compressed_loop Z plain offset st))" for plain offset st
  proof (induction Z plain offset st rule: write_compressed_loop.induct)
    case (1 Z plain offset st)
    then show ?case
      by (subst write_compressed_loop.simps)
        (auto simp: Let_def err_panic_apply split: sum.splits)
  qed
  fix st :: packet_stream assume "queued_ok st"
  then show "queued_ok (snd (ps_write_packet Z payload st))"
    by (simp add: ps_write_packet_def write_compressed_packet_def build_plain_packets_frames loop)
qed

section \<open>Guarantees of the packet stream\<close>

text \<open>A codec that stores its input behind a marker byte, for the concrete instances below.\<close>

definition stored_zlib :: zlib where
  "stored_zlib = \<lparr>zlib_compress = (\<lambda>xs. Inr (0 # xs)), zlib_decompress = (\<lambda>c. Inr (tl c))\<rparr>"

lemma stored_zlib_ok: "zlib_ok stored_zlib"
  by (simp add: zlib_ok_def stored_zlib_def)

text \<open>C1: Uncompressed delivery.  When sender and receiver agree on the sequence number and the receiver
  holds no partial data, every list of payloads within the limit and not starting with the \<open>ERR\<close> marker
  is accepted by \<open>write_packet\<close>, and feeding the bytes queued for sending makes \<open>feed_bytes\<close> queue exactly
  those payloads, in order, leaving both sides in agreement.  Payloads of \<open>2^24 - 1\<close> bytes and more,
  which are split into several frames, are included.\<close>

theorem plain_exchange_delivers:
  assumes "plain_sync s r" and "\<forall>p \<in> set ps. plain_sendable r p"
  shows "\<exists>s' r'. exchange (ps_write_packet Z) ps_send_queue (ps_feed_bytes Z) ps s r = Some (s', r') \<and>
    ps_recv_queue r' = ps_recv_queue r @ map packet_new ps \<and> plain_sync s' r'"
  by (rule plain.deliver_all [OF assms])

theorem plain_exchange_delivers_witness:
  "\<exists>s' r'. exchange (ps_write_packet stored_zlib) ps_send_queue (ps_feed_bytes stored_zlib)
      [[1, 2, 3], replicate (2 ^ 24 - 1) 0, []] (ps_new (2 ^ 24)) (ps_new (2 ^ 24)) = Some (s', r') \<and>
    ps_recv_queue r' = [packet_new [1, 2, 3], packet_new (replicate (2 ^ 24 - 1) 0), packet_new []] \<and>
    plain_sync s' r'"
proof -
  have "plain_sync (ps_new (2 ^ 24)) (ps_new (2 ^ 24))"
    and "\<forall>p \<in> set [[1, 2, 3], replicate (2 ^ 24 - 1) 0, []]. plain_sendable (ps_new (2 ^ 24)) p"
    by (simp_all add: plain_sync_def plain_sendable_def plain_idle_def ps_new_def usize_max_def)
  from plain_exchange_delivers [OF this, of stored_zlib] show ?thesis
    by (simp only: list.map) (simp add: ps_new_def)
qed

text \<open>C2: Compressed delivery.  With a codec whose decompression undoes its compression, the same holds in
  compressed mode for every payload whose framed length is within the limit: the compressed frames
  (stored when compression does not pay) are inflated and reassembled to the payloads sent, and plain
  and compressed sequence numbers stay in agreement.\<close>

theorem compressed_exchange_delivers:
  assumes "compressed_sync Z s r" and "\<forall>p \<in> set ps. compressed_sendable r p"
  shows "\<exists>s' r'. exchange (ps_write_packet Z) ps_send_queue (ps_feed_bytes Z) ps s r = Some (s', r') \<and>
    ps_recv_queue r' = ps_recv_queue r @ map packet_new ps \<and> compressed_sync Z s' r'"
  by (rule zipped.deliver_all [OF assms])

theorem compressed_exchange_delivers_witness:
  "\<exists>s' r'. exchange (ps_write_packet stored_zlib) ps_send_queue (ps_feed_bytes stored_zlib) [[1, 2, 3], [7]]
      (ps_enable_compression (ps_new 1024)) (ps_enable_compression (ps_new 1024)) = Some (s', r') \<and>
    ps_recv_queue r' = [packet_new [1, 2, 3], packet_new [7]] \<and> compressed_sync stored_zlib s' r'"
proof -
  let ?st = "ps_enable_compression (ps_new 1024)"
  have "compressed_sync stored_zlib ?st ?st"
    and "\<forall>p \<in> set [[1, 2, 3], [7]]. compressed_sendable ?st p"
    by (simp_all add: compressed_sync_def compressed_sendable_def ps_new_def ps_enable_compression_def
        usize_max_def stored_zlib_ok frame_count_def MAX_PACKET_LEN_def)
  from compressed_exchange_delivers [OF this] show ?thesis
    by (simp only: list.map) (simp add: ps_new_def ps_enable_compression_def)
qed

text \<open>C3: Independence of read sizes, for packets of one frame.  On a plain (uncompressed) stream, let the server send packets that are
  each shorter than \<open>2^24 - 1\<close> bytes and within \<open>max_allowed_packet\<close>, none of them an ERR packet (\<open>deliverable\<close>).  However their bytes
  are cut into reads, feeding the reads one after another queues exactly the payloads, in order, reports
  their number in total, advances the sequence number past them and leaves the buffer empty.  The
  conditions are needed: a longer packet that is cut at the end of a frame arrives in pieces
  as the last theorem of this file shows, and an ERR packet ends the feeding with an error.\<close>

theorem feed_bytes_segmentation:
  assumes "plain_idle st" and "ps_recv_buffer st = []" and "segs \<noteq> []"
    and "concat segs = stream_of (ps_next_seq_id st) ps"
    and "deliverable (ps_max_allowed_packet st) ps"
  shows "feed_all Z segs st = (Inr (length ps), fold push_packet ps st)"
  using assms feed_all_stream [of segs st ps Z]
  by (simp add: recv_buffer_self)

theorem feed_bytes_segmentation_witness:
  "feed_all stored_zlib [[3, 0, 0], [0, 1, 2], [3, 1, 0, 0, 1], [9]] (ps_new 1024) =
     (Inr 2, fold push_packet [[1, 2, 3], [9]] (ps_new 1024))"
proof -
  have "stream_of 0 [[1, 2, 3], [9]] = [3, 0, 0, 0, 1, 2, 3, 1, 0, 0, 1, 9]"
    by (simp add: frames.simps frame_def MAX_PACKET_LEN_def frame_count_def write_int3_eq byte_eval)
  then show ?thesis
    using feed_bytes_segmentation [of "ps_new 1024" "[[3, 0, 0], [0, 1, 2], [3, 1, 0, 0, 1], [9]]"
        "[[1, 2, 3], [9]]" stored_zlib]
    by (simp add: ps_new_def plain_idle_def deliverable_def usize_max_def MAX_PACKET_LEN_def)
qed

text \<open>C14: The receive queue is bounded and clean.  Whatever bytes the peer sends, in either mode and
  whatever the codec does, \<open>feed_bytes\<close> and \<open>write_packet\<close> keep every queued packet unread, not an \<open>ERR\<close>
  packet and at most \<open>max_allowed_packet\<close> bytes long, on success and on every error path.\<close>

theorem packet_stream_keeps_queued_ok:
  "keeps queued_ok (ps_feed_bytes Z d) \<and> keeps queued_ok (ps_write_packet Z payload) \<and>
   keeps queued_ok ps_read_packet"
proof (intro conjI)
  have "keeps queued_ok (feed_compressed_packets Z)"
    by (rule keepsI) (rule feed_compressed_queued)
  then show "keeps queued_ok (ps_feed_bytes Z d)"
    unfolding ps_feed_bytes_def
    by (intro keeps_bind keeps_modify keeps_get_st parse_decompressed_queued)
      (auto intro: parse_received_queued)
  show "keeps queued_ok (ps_write_packet Z payload)" by (rule write_packet_queued)
  show "keeps queued_ok ps_read_packet"
    by (rule keepsI) (auto simp: ps_read_packet_def queued_ok_def err_panic_apply split: list.splits)
qed

text \<open>C30: A frame out of sequence.  A complete frame within the limit whose sequence number is not the
  expected one makes \<open>feed_bytes\<close> fail with \<open>CR_SERVER_LOST\<close> when the number is 0 and with
  \<open>CR_COMMANDS_OUT_OF_SYNC\<close> otherwise, and clears all buffers and queues; nothing after the frame is
  looked at.\<close>

theorem out_of_sequence_closes:
  assumes "plain_idle st" and "ps_recv_buffer st = []" and "seq \<noteq> ps_next_seq_id st"
    and "length p \<le> ps_max_allowed_packet st" and "length p \<le> MAX_PACKET_LEN"
  shows "ps_feed_bytes Z (frame seq p @ rest) st =
    (Inl (Fail (if seq = 0 then server_lost
       else InternalError CR_COMMANDS_OUT_OF_SYNC (''Packet sequence number wrong - got '' @
         dec (unat seq) @ '' expected '' @ dec (unat (ps_next_seq_id st))))),
     ps_force_close st)"
proof -
  let ?st = "st\<lparr>ps_recv_buffer := []\<rparr>" and ?buffer = "frame seq p @ rest"
  have j: "join_chunks [] (?st, ?buffer) =
      err (wrong_seq ''Packet'' seq (ps_next_seq_id st)) (ps_force_close ?st, ?buffer)"
    using assms by (subst join_chunks.simps) (simp add: frame_seq)
  have "parse_plain_loop 0 (?st, ?buffer) =
      err (wrong_seq ''Packet'' seq (ps_next_seq_id st)) (ps_force_close ?st, ?buffer)"
    using assms by (subst parse_plain_loop.simps) (simp add: j err_panic_apply)
  then show ?thesis
    using assms(1,2)
    by (simp add: ps_feed_bytes_plain parse_received_def parse_plain_packets_def err_panic_apply
        wrong_seq_def ps_force_close_def)
qed

theorem out_of_sequence_closes_witness:
  "ps_feed_bytes stored_zlib (frame 7 [1, 2] @ []) (ps_new 1024) =
     (Inl (Fail (InternalError 2014 ''Packet sequence number wrong - got 7 expected 0'')),
      ps_force_close (ps_new 1024))"
  using out_of_sequence_closes [of "ps_new 1024" 7 "[1, 2]" stored_zlib "[]"]
  by (simp add: ps_new_def plain_idle_def MAX_PACKET_LEN_def dec.simps byte_eval)

text \<open>An \<open>ERR\<close> packet among others.  When an \<open>ERR\<close> packet follows complete packets in the bytes fed,
  \<open>feed_bytes\<close> fails with the error it describes, the packets before it stay queued and the bytes after
  it are discarded, so the packets of an aborted response are still there for the next read.\<close>

lemma error_packet_keeps_earlier:
  assumes "plain_idle st" and "ps_recv_buffer st = []"
    and "deliverable (ps_max_allowed_packet st) ps"
    and "length e \<le> ps_max_allowed_packet st" and "\<not> not_err e"
    and "seq = ps_next_seq_id (fold push_packet ps st)"
  shows "ps_feed_bytes Z (stream_of (ps_next_seq_id st) ps @ frames seq e @ rest) st =
    (Inl (Fail (raise_mysql_exception e)),
     (fold push_packet ps st)\<lparr>ps_next_seq_id := seq_after seq e\<rparr>)"
proof -
  let ?st1 = "fold push_packet ps st"
  have "parse_plain_loop 0 (st, stream_of (ps_next_seq_id st) ps @ frames seq e @ rest) =
      parse_plain_loop (length ps) (?st1, frames seq e @ rest)"
    using assms parse_plain_loop_stream [of ps st 0 "frames seq e @ rest"]
    by (simp add: deliverable_def list_all_iff)
  also have "\<dots> = err (raise_mysql_exception e) (?st1\<lparr>ps_next_seq_id := seq_after seq e\<rparr>, rest)"
    using assms parse_plain_loop_frames [of e ?st1 "length ps" rest] by (simp add: deliverable_def)
  finally show ?thesis
    using assms(1,2)
    by (simp add: ps_feed_bytes_plain parse_received_def parse_plain_packets_def err_panic_apply
        recv_buffer_self)
qed

lemma error_packet_keeps_earlier_instance:
  "ps_feed_bytes stored_zlib (stream_of 0 [[1, 5]] @ frames 1 [0xFF, 0x28, 0x04] @ [9, 9]) (ps_new 1024) =
     (Inl (Fail (raise_mysql_exception [0xFF, 0x28, 0x04])),
      (push_packet [1, 5] (ps_new 1024))\<lparr>ps_next_seq_id := seq_after 1 [0xFF, 0x28, 0x04]\<rparr>)"
  using error_packet_keeps_earlier [of "ps_new 1024" "[[1, 5]]" "[0xFF, 0x28, 0x04]" 1 stored_zlib "[9, 9]"]
  by (simp add: ps_new_def plain_idle_def deliverable_def usize_max_def MAX_PACKET_LEN_def seq_after_def frame_count_def)

text \<open>C37: A large packet split between reads.  A frame of the maximal length \<open>2^24 - 1\<close> announces a
  continuation, but when the continuation has not arrived yet \<open>feed_bytes\<close> queues the first part as a
  packet of its own.\<close>

theorem large_packet_truncated:
  assumes "plain_idle st" and "ps_recv_buffer st = []" and "length p = MAX_PACKET_LEN"
    and "MAX_PACKET_LEN \<le> ps_max_allowed_packet st" and "ps_max_allowed_packet st \<le> usize_max"
    and "not_err p"
  shows "ps_feed_bytes Z (frame (ps_next_seq_id st) p) st =
    (Inr 1, st\<lparr>ps_next_seq_id := ps_next_seq_id st + 1,
       ps_recv_queue := ps_recv_queue st @ [packet_new p]\<rparr>)"
proof -
  let ?st1 = "st\<lparr>ps_next_seq_id := ps_next_seq_id st + 1\<rparr>"
  have "join_chunks p (?st1, []) = (Inr p, (?st1, []))" by (subst join_chunks.simps) simp
  then have j: "join_chunks [] (st, frame (ps_next_seq_id st) p) = (Inr p, (?st1, []))"
    using assms join_chunks_frame [of p "[]" st "[]"] by simp
  have "parse_plain_loop 0 (st, frame (ps_next_seq_id st) p) =
      (Inr 1, (?st1\<lparr>ps_recv_queue := ps_recv_queue st @ [packet_new p]\<rparr>, []))"
    using assms by (subst parse_plain_loop.simps) (simp add: j not_err_packet)
  then show ?thesis
    using assms(1,2)
    by (simp add: ps_feed_bytes_plain parse_received_def parse_plain_packets_def recv_buffer_self)
qed

theorem large_packet_truncated_witness:
  "ps_feed_bytes stored_zlib (frame 0 (replicate MAX_PACKET_LEN 1)) (ps_new (2 ^ 26)) =
     (Inr 1, (ps_new (2 ^ 26))\<lparr>ps_next_seq_id := 1,
        ps_recv_queue := [packet_new (replicate MAX_PACKET_LEN 1)]\<rparr>)"
  using large_packet_truncated [of "ps_new (2 ^ 26)" "replicate MAX_PACKET_LEN 1" stored_zlib]
    MAX_PACKET_LEN_pos
  by (simp add: ps_new_def plain_idle_def usize_max_def MAX_PACKET_LEN_def)

end
