(* ===== verification/Core_State.thy ===== *)
theory Core_State
  imports Packet_Delivery Auth_Plugins Converters
begin

text \<open>
  The state of the sans-I/O connection: the options, the result set under construction and the
  connection of \<^verbatim>\<open>mysql-core/src/connection.rs\<close>, \<^verbatim>\<open>connection/result.rs\<close> and \<^verbatim>\<open>connection/auth.rs\<close>, and the
  parameters that stand for the libraries (record \<open>env\<close>).  A \<open>Duration\<close> is its number of nanoseconds and
  a path is a string.
\<close>

section \<open>Options\<close>

datatype ssl_mode = Disabled | Preferred | Required

record connect_options =
  co_host :: string
  co_port :: u16
  co_user :: string
  co_password :: bytes
  co_database :: "string option"
  co_charset :: string
  co_collation :: "string option"
  co_connect_timeout :: nat
  co_ssl_mode :: ssl_mode
  co_ssl_ca :: "string option"
  co_ssl_cert :: "string option"
  co_ssl_key :: "string option"
  co_ssl_verify_identity :: bool
  co_autocommit :: "bool option"
  co_sql_mode :: "string option"
  co_init_command :: "string option"
  co_local_infile :: bool
  co_compress :: bool
  co_max_allowed_packet :: nat
  co_program_name :: "string option"
  co_server_public_key :: "bytes option"
  co_use_unicode :: bool
  co_read_default_file :: "string option"
  co_read_default_group :: "string option"

definition DEFAULT_CHARSET :: string where
  "DEFAULT_CHARSET = ''utf8mb4''"

definition default_options :: connect_options where
  "default_options =
     \<lparr>co_host = ''localhost'', co_port = 3306, co_user = [], co_password = [], co_database = None,
      co_charset = DEFAULT_CHARSET, co_collation = None, co_connect_timeout = 10 * 10 ^ 9,
      co_ssl_mode = Preferred, co_ssl_ca = None, co_ssl_cert = None, co_ssl_key = None,
      co_ssl_verify_identity = False, co_autocommit = Some False, co_sql_mode = None,
      co_init_command = None, co_local_infile = False, co_compress = False,
      co_max_allowed_packet = 16 * 1024 * 1024, co_program_name = None, co_server_public_key = None,
      co_use_unicode = True, co_read_default_file = None, co_read_default_group = None\<rparr>"

section \<open>Results\<close>

text \<open>A converter is a function on decoded text; the built-in ones return on every text (\<open>decoders_return\<close> in Converters).\<close>

type_synonym 'x converter = "string \<Rightarrow> 'x mysql_value"

record 'x field_converter =
  fc_encoding :: "string option"
  fc_converter :: "'x converter option"

datatype read_state = RS_Initial | RS_Descriptions | RS_Rows | RS_UnbufferedReady | RS_Done

datatype feed_result = FR_NeedMore | FR_Done | FR_UnbufferedReady

record 'x mysql_result =
  mr_affected_rows :: int
  mr_insert_id :: "u64 option"
  mr_server_status :: "u16 option"
  mr_warning_count :: u16
  mr_message :: "bytes option"
  mr_field_count :: u64
  mr_description :: "column_description list option"
  mr_rows :: "'x mysql_value list list option"
  mr_fields :: "field_descriptor_packet list"
  mr_has_next :: bool
  mr_unbuffered_active :: bool
  mr_converters :: "'x field_converter list"
  mr_read_state :: read_state

definition result_new :: "'x mysql_result" where
  "result_new =
     \<lparr>mr_affected_rows = 0, mr_insert_id = None, mr_server_status = None, mr_warning_count = 0,
      mr_message = None, mr_field_count = 0, mr_description = None, mr_rows = None, mr_fields = [],
      mr_has_next = False, mr_unbuffered_active = False, mr_converters = [],
      mr_read_state = RS_Initial\<rparr>"

section \<open>The connection\<close>

datatype auth_state = NeedRead | Send | Success

datatype auth_phase = AP_Initial | AP_CachingSha2FastSuccess | AP_CachingSha2PublicKey | AP_Sha256Password

record 'x connection =
  cn_options :: connect_options
  cn_packet_stream :: packet_stream
  cn_protocol_version :: u8
  cn_server_version :: string
  cn_server_thread_id :: u32
  cn_salt :: bytes
  cn_server_capabilities :: u32
  cn_server_status :: u16
  cn_server_language :: u8
  cn_server_charset :: "string option"
  cn_auth_plugin_name :: auth_plugin
  cn_client_flag :: u32
  cn_secure :: bool
  cn_encoding :: string
  cn_use_unicode :: bool
  cn_result :: "'x mysql_result option"
  cn_affected_rows :: int
  cn_server_public_key :: "bytes option"
  cn_closed :: bool
  cn_auth_phase :: auth_phase
  cn_needs_tls_upgrade :: bool
  cn_field_converters :: "u8 \<rightharpoonup> 'x converter"

text \<open>The connection that \<open>Connection::connect\<close> starts with.\<close>

definition connection_new :: "connect_options \<Rightarrow> string \<Rightarrow> 'x connection" where
  "connection_new options enc =
     \<lparr>cn_options = options, cn_packet_stream = ps_new (co_max_allowed_packet options),
      cn_protocol_version = 0, cn_server_version = [], cn_server_thread_id = 0, cn_salt = [],
      cn_server_capabilities = 0, cn_server_status = 0, cn_server_language = 0,
      cn_server_charset = None, cn_auth_plugin_name = MysqlNativePassword,
      cn_client_flag = CAPABILITIES, cn_secure = False, cn_encoding = enc,
      cn_use_unicode = co_use_unicode options, cn_result = None, cn_affected_rows = 0,
      cn_server_public_key = co_server_public_key options, cn_closed = False,
      cn_auth_phase = AP_Initial, cn_needs_tls_upgrade = False, cn_field_converters = Map.empty\<rparr>"

text \<open>
  The parameters: the libraries, \<open>str::to_lowercase\<close>, the version of the crate, the process id, the
  iteration order of the hash map of connection attributes and the debug text of a string.
\<close>

record 'x env =
  env_zlib :: zlib
  env_encodings :: encodings
  env_crypto :: crypto
  env_externs :: "'x externs"
  env_lc :: "string \<Rightarrow> string"
  env_pkg_version :: string
  env_pid :: nat
  env_attr_order :: "(string \<times> string) list \<Rightarrow> (string \<times> string) list"
  env_debug_str :: "string \<Rightarrow> string"

text \<open>Operations of the packet stream as operations of the connection.\<close>

definition lift_ps :: "(packet_stream, 'a) rs \<Rightarrow> ('x connection, 'a) rs" where
  "lift_ps m c = (case m (cn_packet_stream c) of (r, ps) \<Rightarrow> (r, c\<lparr>cn_packet_stream := ps\<rparr>))"

definition conn_write_packet :: "'x env \<Rightarrow> bytes \<Rightarrow> ('x connection, unit) rs" where
  "conn_write_packet V payload = lift_ps (ps_write_packet (env_zlib V) payload)"

definition conn_feed_bytes :: "'x env \<Rightarrow> bytes \<Rightarrow> ('x connection, nat) rs" where
  "conn_feed_bytes V d = lift_ps (ps_feed_bytes (env_zlib V) d)"

definition conn_read_packet :: "('x connection, mysql_packet) rs" where
  "conn_read_packet = lift_ps ps_read_packet"

text \<open>The packets received and not yet read.\<close>

abbreviation recv_queue :: "'x connection \<Rightarrow> mysql_packet list" where
  "recv_queue c \<equiv> ps_recv_queue (cn_packet_stream c)"

lemma conn_read_packet_Cons:
  "recv_queue c = p # ps \<Longrightarrow>
     conn_read_packet c = (Inr p, c\<lparr>cn_packet_stream := (cn_packet_stream c)\<lparr>ps_recv_queue := ps\<rparr>\<rparr>)"
  by (simp add: conn_read_packet_def lift_ps_def ps_read_packet_def)

lemma conn_read_packet_Nil:
  "recv_queue c = [] \<Longrightarrow> conn_read_packet c = (Inl (Fail NeedMoreData), c)"
  by (simp add: conn_read_packet_def lift_ps_def ps_read_packet_def err_panic_apply)

lemma conn_read_packet_cases:
  obtains (empty) "recv_queue c = []" "conn_read_packet c = (Inl (Fail NeedMoreData), c)"
  | (packet) p ps where "recv_queue c = p # ps"
      "conn_read_packet c = (Inr p, c\<lparr>cn_packet_stream := (cn_packet_stream c)\<lparr>ps_recv_queue := ps\<rparr>\<rparr>)"
  by (cases "recv_queue c") (auto simp: conn_read_packet_Cons conn_read_packet_Nil)

section \<open>A concrete environment\<close>

text \<open>An instance of the parameters for the concrete instances of the theorems: UTF-8 only.\<close>

definition sample_encodings :: encodings where
  "sample_encodings = \<lparr>for_label = (\<lambda>_. None), utf8_encoding = 0, decode = (\<lambda>_. from_utf8_lossy)\<rparr>"

definition sample_env :: "int env" where
  "sample_env =
     \<lparr>env_zlib = stored_zlib, env_encodings = sample_encodings, env_crypto = plain_crypto,
      env_externs = int_externs, env_lc = map ascii_lower, env_pkg_version = ''0.1.0'', env_pid = 1,
      env_attr_order = (\<lambda>attrs. attrs), env_debug_str = (\<lambda>s. s)\<rparr>"

definition sample_conn :: "int connection" where
  "sample_conn = connection_new default_options ''utf8''"

end
