(* ===== verification/Core_Result.thy ===== *)
theory Core_Result
  imports Core_State
begin

text \<open>
  Reading of result sets, \<^verbatim>\<open>mysql-core/src/connection/result.rs\<close>: the state machine that consumes one packet
  at a time, the decoding of rows, and the buffered and unbuffered reading on top of it.
\<close>

section \<open>One packet\<close>

definition TEXT_TYPES :: "u8 list" where
  "TEXT_TYPES = [BIT, BLOB, LONG_BLOB, MEDIUM_BLOB, STRING, TINY_BLOB, VAR_STRING, VARCHAR, GEOMETRY]"

definition is_done :: "'x mysql_result \<Rightarrow> bool" where
  "is_done r \<longleftrightarrow> mr_read_state r = RS_Done"

definition is_initial :: "'x mysql_result \<Rightarrow> bool" where
  "is_initial r \<longleftrightarrow> mr_read_state r = RS_Initial"

text \<open>A reader of a packet, applied to a packet that is then dropped.\<close>

definition run_reader :: "(mysql_packet, 'a) rs \<Rightarrow> mysql_packet \<Rightarrow> ('s, 'a) rs" where
  "run_reader m p = lift_res (fst (m p))"

definition read_load_local_packet :: "'x connection \<Rightarrow> mysql_packet \<Rightarrow> ('x mysql_result, feed_result) rs" where
  "read_load_local_packet conn pkt =
     (if \<not> co_local_infile (cn_options conn) then
        err (OperationalError CR_LOAD_DATA_LOCAL_INFILE_REJECTED
          ''Received LOAD_LOCAL packet but local_infile option is false'')
      else
        bind_st (lift_res (load_local_from_packet pkt)) (\<lambda>name.
          err (OperationalError CR_LOAD_DATA_LOCAL_INFILE_REJECTED
            (''LOAD DATA LOCAL INFILE requires I/O driver support: '' @ from_utf8_lossy name))))"

definition feed_initial :: "mysql_packet \<Rightarrow> 'x connection \<Rightarrow> ('x mysql_result, feed_result) rs" where
  "feed_initial packet conn =
     (if is_ok_packet packet then
        bind_st (run_reader ok_from_packet packet) (\<lambda>ok.
        bind_st (modify_st (\<lambda>r. r\<lparr>
          mr_affected_rows := sint (case ok_affected_rows ok of Some n \<Rightarrow> n | None \<Rightarrow> 0),
          mr_insert_id := ok_insert_id ok,
          mr_server_status := Some (ok_server_status ok),
          mr_warning_count := ok_warning_count ok,
          mr_message := Some (ok_message ok),
          mr_has_next := ok_has_next ok,
          mr_read_state := RS_Done\<rparr>)) (\<lambda>_. ret FR_Done))
      else if is_load_local_packet packet then read_load_local_packet conn packet
      else
        bind_st (run_reader read_length_encoded_integer packet) (\<lambda>n.
        bind_st (modify_st (\<lambda>r. r\<lparr>
          mr_field_count := (case n of Some k \<Rightarrow> k | None \<Rightarrow> 0),
          mr_fields := [], mr_converters := [], mr_description := None, mr_rows := None,
          mr_read_state := RS_Descriptions\<rparr>)) (\<lambda>_. ret FR_NeedMore)))"

definition field_encoding :: "'x connection \<Rightarrow> field_descriptor_packet \<Rightarrow> string option" where
  "field_encoding conn field =
     (if cn_use_unicode conn then
        (if fd_type_code field = JSON then Some (cn_encoding conn)
         else if fd_type_code field \<in> set TEXT_TYPES then
           (if fd_charsetnr field = 63 then None else Some (cn_encoding conn))
         else Some ''ascii'')
      else None)"

definition build_converter :: "'x env \<Rightarrow> field_descriptor_packet \<Rightarrow> 'x connection \<Rightarrow> 'x field_converter" where
  "build_converter V field conn =
     \<lparr>fc_encoding = field_encoding conn field,
      fc_converter = (case cn_field_converters conn (fd_type_code field) of
        Some conv \<Rightarrow> Some conv | None \<Rightarrow> decoder_for (env_externs V) (fd_type_code field))\<rparr>"

definition store_eof :: "eof_packet_wrapper \<Rightarrow> 'x mysql_result \<Rightarrow> 'x mysql_result" where
  "store_eof wp r = r\<lparr>mr_warning_count := eof_warning_count wp, mr_has_next := eof_has_next wp,
     mr_server_status := Some (eof_server_status wp)\<rparr>"

definition feed_description :: "'x env \<Rightarrow> mysql_packet \<Rightarrow> 'x connection \<Rightarrow> ('x mysql_result, feed_result) rs" where
  "feed_description V packet conn =
     bind_st get_st (\<lambda>r.
     if length (mr_fields r) < unat (mr_field_count r) then
       bind_st (lift_res (field_parse (env_encodings V) (get_all_data packet) (cn_encoding conn))) (\<lambda>field.
       bind_st (modify_st (\<lambda>r. r\<lparr>mr_converters := mr_converters r @ [build_converter V field conn],
         mr_fields := mr_fields r @ [field]\<rparr>)) (\<lambda>_. ret FR_NeedMore))
     else if \<not> is_eof_packet packet then
       err (InternalError CR_MALFORMED_PACKET ''Protocol error, expecting EOF'')
     else
       bind_st (run_reader eof_from_packet packet) (\<lambda>wp.
       bind_st (modify_st (\<lambda>r. (store_eof wp r)\<lparr>mr_description := Some (map description (mr_fields r))\<rparr>)) (\<lambda>_.
       bind_st get_st (\<lambda>r.
       if mr_unbuffered_active r then
         bind_st (modify_st (\<lambda>r. r\<lparr>mr_read_state := RS_UnbufferedReady\<rparr>)) (\<lambda>_. ret FR_UnbufferedReady)
       else
         bind_st (modify_st (\<lambda>r. r\<lparr>mr_read_state := RS_Rows\<rparr>)) (\<lambda>_. ret FR_NeedMore)))))"

definition check_packet_is_eof :: "mysql_packet \<Rightarrow> ('x mysql_result, bool) rs" where
  "check_packet_is_eof packet =
     (if \<not> is_eof_packet packet then ret False
      else
        bind_st (run_reader eof_from_packet packet) (\<lambda>wp.
        bind_st (modify_st (store_eof wp)) (\<lambda>_. ret True)))"

text \<open>The value of one column.\<close>

definition column_value :: "'x env \<Rightarrow> 'x field_converter \<Rightarrow> bytes option \<Rightarrow> 'x mysql_value" where
  "column_value V fc d =
     (case d of
        None \<Rightarrow> VNull
      | Some bs \<Rightarrow>
          (case fc_encoding fc of
             Some enc \<Rightarrow>
               (let s = decode_label (env_encodings V) enc bs
                in case fc_converter fc of Some conv \<Rightarrow> conv s | None \<Rightarrow> VString s)
           | None \<Rightarrow> VBytes bs))"

fun read_columns :: "'x env \<Rightarrow> 'x field_converter list \<Rightarrow> (mysql_packet, 'x mysql_value list) rs" where
  "read_columns V [] = ret []"
| "read_columns V (fc # fcs) =
     bind_st read_length_coded_string (\<lambda>d.
     bind_st (read_columns V fcs) (\<lambda>row. ret (column_value V fc d # row)))"

definition read_row_from_packet :: "'x env \<Rightarrow> mysql_packet \<Rightarrow> ('x mysql_result, 'x mysql_value list) rs" where
  "read_row_from_packet V packet =
     bind_st get_st (\<lambda>r. run_reader (read_columns V (mr_converters r)) packet)"

definition feed_row :: "'x env \<Rightarrow> mysql_packet \<Rightarrow> ('x mysql_result, feed_result) rs" where
  "feed_row V packet =
     bind_st (check_packet_is_eof packet) (\<lambda>eof.
     if eof then
       bind_st (modify_st (\<lambda>r. r\<lparr>mr_read_state := RS_Done\<rparr>)) (\<lambda>_. ret FR_Done)
     else
       bind_st (read_row_from_packet V packet) (\<lambda>row.
       bind_st (modify_st (\<lambda>r. r\<lparr>mr_rows :=
         Some ((case mr_rows r of Some rows \<Rightarrow> rows | None \<Rightarrow> []) @ [row])\<rparr>)) (\<lambda>_. ret FR_NeedMore)))"

definition feed_packet :: "'x env \<Rightarrow> mysql_packet \<Rightarrow> 'x connection \<Rightarrow> ('x mysql_result, feed_result) rs" where
  "feed_packet V packet conn =
     bind_st get_st (\<lambda>r.
     case mr_read_state r of
       RS_Initial \<Rightarrow> feed_initial packet conn
     | RS_Descriptions \<Rightarrow> feed_description V packet conn
     | RS_Rows \<Rightarrow> feed_row V packet
     | RS_UnbufferedReady \<Rightarrow> feed_row V packet
     | RS_Done \<Rightarrow> ret FR_Done)"

section \<open>Reading from the connection\<close>

text \<open>
  The loops below take the packets from the receive queue of the connection, so they end with the queue.
  Their state is the result and the connection.
\<close>

function result_read :: "'x env \<Rightarrow> ('x mysql_result \<times> 'x connection, unit) rs" where
  "result_read V (r, c) =
     (case conn_read_packet c of
        (Inl e, c') \<Rightarrow> (Inl e, (r, c'))
      | (Inr packet, c') \<Rightarrow>
          (case feed_packet V packet c' r of
             (Inl e, r') \<Rightarrow> (Inl e, (r', c'))
           | (Inr FR_NeedMore, r') \<Rightarrow> result_read V (r', c')
           | (Inr _, r') \<Rightarrow> (Inr (), (r', c'))))"
  by pat_completeness auto
termination
proof (relation "measure (\<lambda>(_, _, c). length (recv_queue c))", goal_cases)
  case (2 V r c x c' packet x' r')
  then show ?case by (cases c rule: conn_read_packet_cases) auto
qed simp

declare result_read.simps [simp del]

text \<open>\<open>u64::MAX as i64\<close> is \<open>- 1\<close>.\<close>

function init_unbuffered_loop :: "'x env \<Rightarrow> ('x mysql_result \<times> 'x connection, unit) rs" where
  "init_unbuffered_loop V (r, c) =
     (case conn_read_packet c of
        (Inl e, c') \<Rightarrow> (Inl e, (r, c'))
      | (Inr packet, c') \<Rightarrow>
          (case feed_packet V packet c' r of
             (Inl e, r') \<Rightarrow> (Inl e, (r', c'))
           | (Inr FR_UnbufferedReady, r') \<Rightarrow> (Inr (), (r'\<lparr>mr_affected_rows := - 1\<rparr>, c'))
           | (Inr FR_Done, r') \<Rightarrow> (Inr (), (r', c'))
           | (Inr FR_NeedMore, r') \<Rightarrow> init_unbuffered_loop V (r', c')))"
  by pat_completeness auto
termination
proof (relation "measure (\<lambda>(_, _, c). length (recv_queue c))", goal_cases)
  case (2 V r c x c' packet x' r')
  then show ?case by (cases c rule: conn_read_packet_cases) auto
qed simp

declare init_unbuffered_loop.simps [simp del]

definition init_unbuffered_query :: "'x env \<Rightarrow> ('x mysql_result \<times> 'x connection, unit) rs" where
  "init_unbuffered_query V s =
     (case s of (r, c) \<Rightarrow>
        (case conn_read_packet c of
           (Inl e, c') \<Rightarrow> (Inl e, (r, c'))
         | (Inr packet, c') \<Rightarrow>
             (case feed_packet V packet c' r of
                (Inl e, r') \<Rightarrow> (Inl e, (r', c'))
              | (Inr FR_UnbufferedReady, r') \<Rightarrow> (Inr (), (r'\<lparr>mr_affected_rows := - 1\<rparr>, c'))
              | (Inr _, r') \<Rightarrow> init_unbuffered_loop V (r', c'))))"

function finish_unbuffered_query :: "('x mysql_result \<times> 'x connection, unit) rs" where
  "finish_unbuffered_query (r, c) =
     (if mr_unbuffered_active r then
        (case conn_read_packet c of
           (Inl e, c') \<Rightarrow> (Inl e, (r, c'))
         | (Inr packet, c') \<Rightarrow>
             (case check_packet_is_eof packet r of
                (Inl e, r') \<Rightarrow> (Inl e, (r', c'))
              | (Inr eof, r') \<Rightarrow>
                  finish_unbuffered_query
                    (if eof then r'\<lparr>mr_unbuffered_active := False, mr_read_state := RS_Done\<rparr> else r', c')))
      else (Inr (), (r, c)))"
  by pat_completeness auto
termination
proof (relation "measure (\<lambda>(_, c). length (recv_queue c))", goal_cases)
  case (2 r c x c' packet x' r' eof)
  then show ?case by (cases c rule: conn_read_packet_cases) auto
qed simp

declare finish_unbuffered_query.simps [simp del]

definition read_rowdata_packet_unbuffered :: "'x env \<Rightarrow> mysql_packet \<Rightarrow>
    ('x mysql_result, 'x mysql_value list option) rs" where
  "read_rowdata_packet_unbuffered V packet =
     bind_st get_st (\<lambda>r.
     if \<not> mr_unbuffered_active r then ret None
     else
       bind_st (check_packet_is_eof packet) (\<lambda>eof.
       if eof then
         bind_st (modify_st (\<lambda>r. r\<lparr>mr_unbuffered_active := False, mr_read_state := RS_Done\<rparr>)) (\<lambda>_. ret None)
       else
         bind_st (modify_st (\<lambda>r. r\<lparr>mr_affected_rows := 1\<rparr>)) (\<lambda>_.
         bind_st (read_row_from_packet V packet) (\<lambda>row.
         bind_st (modify_st (\<lambda>r. r\<lparr>mr_rows := Some [row]\<rparr>)) (\<lambda>_. ret (Some row))))))"

section \<open>No packet makes the reader panic\<close>

lemma safe_read_columns: "safe_reader (read_columns V fcs)"
  by (induction fcs) (auto intro!: safe_intros)

lemma safe_reader_run: "safe_reader m \<Longrightarrow> pkt_wf p \<Longrightarrow> fst (run_reader m p s) \<noteq> Inl Panic"
  by (simp add: run_reader_def lift_res_def safe_reader_def)

text \<open>Computations on a result that do not panic, whatever the result is.\<close>

definition calm :: "('s, 'a) rs \<Rightarrow> bool" where
  "calm m \<longleftrightarrow> (\<forall>s. fst (m s) \<noteq> Inl Panic)"

named_theorems calm_intros \<open>computations that do not panic\<close>

lemma calm_basic [calm_intros]:
  "calm (ret x)" "calm (err e)" "calm (modify_st f)" "calm get_st"
  by (simp_all add: calm_def st_simps)

lemma calm_bind [calm_intros]: "calm m \<Longrightarrow> (\<And>x. calm (f x)) \<Longrightarrow> calm (bind_st m f)"
  by (auto simp: calm_def bind_st_def split: prod.splits sum.splits) (metis fst_conv)+

lemma calm_if [calm_intros]:
  "(b \<Longrightarrow> calm m) \<Longrightarrow> (\<not> b \<Longrightarrow> calm m') \<Longrightarrow> calm (if b then m else m')"
  by simp

lemma calm_option_case [calm_intros]:
  "calm m \<Longrightarrow> (\<And>x. calm (f x)) \<Longrightarrow> calm (case v of None \<Rightarrow> m | Some x \<Rightarrow> f x)"
  by (cases v) simp_all

lemma calmD: "calm m \<Longrightarrow> fst (m s) \<noteq> Inl Panic"
  by (simp add: calm_def)

lemma bind_get: "bind_st get_st f s = f s s"
  by (simp add: bind_st_def get_st_def)

lemma calm_reader [calm_intros]: "safe_reader m \<Longrightarrow> pkt_wf p \<Longrightarrow> calm (run_reader m p)"
  by (simp add: calm_def safe_reader_run)

lemma calm_field_parse [calm_intros]: "calm (lift_res (field_parse C d enc))"
  using safe_parse_fields [of C enc] by (simp add: calm_def lift_res_def field_parse_def safe_reader_def)

lemma calm_load_local [calm_intros]: "calm (lift_res (load_local_from_packet p))"
  by (simp add: calm_def lift_res_def load_local_from_packet_def)

lemma calm_check_eof [calm_intros]: "pkt_wf p \<Longrightarrow> calm (check_packet_is_eof p)"
  unfolding check_packet_is_eof_def by (intro calm_intros safe_wrappers)

lemma calm_read_row [calm_intros]: "pkt_wf p \<Longrightarrow> calm (read_row_from_packet V p)"
  unfolding read_row_from_packet_def by (intro calm_intros safe_read_columns)

lemma calm_feed_packet:
  assumes "pkt_wf p"
  shows "calm (feed_packet V p conn)"
proof -
  have "calm (feed_initial p conn)"
    unfolding feed_initial_def read_load_local_packet_def
    using assms by (intro calm_intros safe_wrappers safe_lenenc)
  moreover have "calm (feed_description V p conn)"
    unfolding feed_description_def using assms by (intro calm_intros safe_wrappers)
  moreover have "calm (feed_row V p)"
    unfolding feed_row_def using assms by (intro calm_intros)
  ultimately have "calm (case st of RS_Initial \<Rightarrow> feed_initial p conn | RS_Descriptions \<Rightarrow> feed_description V p conn
      | RS_Rows \<Rightarrow> feed_row V p | RS_UnbufferedReady \<Rightarrow> feed_row V p | RS_Done \<Rightarrow> ret FR_Done)" for st
    by (cases st) (simp_all add: calm_basic)
  then show ?thesis unfolding feed_packet_def by (intro calm_intros)
qed

lemma calm_read_rowdata: "pkt_wf p \<Longrightarrow> calm (read_rowdata_packet_unbuffered V p)"
  unfolding read_rowdata_packet_unbuffered_def by (intro calm_intros)

section \<open>Reachable results\<close>

text \<open>
  The results that reading produces: a new result, and what one packet or, once the columns are known, one
  unbuffered row makes of a reachable one, on success and on failure.
\<close>

inductive result_reach :: "'x env \<Rightarrow> 'x connection \<Rightarrow> 'x mysql_result \<Rightarrow> bool" for V conn where
  reach_new: "result_reach V conn (result_new\<lparr>mr_unbuffered_active := u\<rparr>)"
| reach_feed: "result_reach V conn r \<Longrightarrow> result_reach V conn (snd (feed_packet V p conn r))"
| reach_row: "result_reach V conn r \<Longrightarrow> mr_read_state r = RS_UnbufferedReady \<or> mr_read_state r = RS_Done \<Longrightarrow>
    result_reach V conn (snd (read_rowdata_packet_unbuffered V p r))"

inductive_cases result_reachE: "result_reach V conn r"

text \<open>
  One converter per column; rows have one value per column; once rows can arrive all announced columns
  have been read and described.
\<close>

definition result_inv :: "'x mysql_result \<Rightarrow> bool" where
  "result_inv r \<longleftrightarrow>
     length (mr_converters r) = length (mr_fields r) \<and>
     length (mr_fields r) \<le> unat (mr_field_count r) \<and>
     (\<forall>rows. mr_rows r = Some rows \<longrightarrow> list_all (\<lambda>row. length row = length (mr_fields r)) rows) \<and>
     (mr_read_state r = RS_Initial \<longrightarrow> mr_rows r = None \<and> mr_fields r = []) \<and>
     (mr_read_state r = RS_Descriptions \<longrightarrow> mr_rows r = None) \<and>
     (mr_read_state r = RS_Rows \<or> mr_read_state r = RS_UnbufferedReady \<longrightarrow>
        length (mr_fields r) = unat (mr_field_count r) \<and>
        mr_description r = Some (map description (mr_fields r)))"

lemma read_columns_length:
  "fst (read_columns V fcs p) = Inr row \<Longrightarrow> length row = length fcs"
proof (induction fcs arbitrary: row p)
  case (Cons fc fcs)
  then show ?case
    by (auto simp: st_simps split: prod.splits sum.splits) (metis fst_conv length_Cons)
qed (simp add: ret_def)

lemma read_row_length:
  "read_row_from_packet V p r = (x, r') \<Longrightarrow> r' = r \<and> (\<forall>row. x = Inr row \<longrightarrow> length row = length (mr_converters r))"
  by (auto simp: read_row_from_packet_def run_reader_def st_simps read_columns_length)

lemma check_eof_result:
  "check_packet_is_eof p r = (x, r') \<Longrightarrow> r' = r \<or> (\<exists>wp. r' = store_eof wp r)"
  by (auto simp: check_packet_is_eof_def run_reader_def st_simps split: if_splits sum.splits)

lemma result_inv_store_eof [simp]: "result_inv (store_eof wp r) = result_inv r"
  by (simp add: result_inv_def store_eof_def)

lemma store_eof_sel [simp]:
  "mr_fields (store_eof wp r) = mr_fields r" "mr_rows (store_eof wp r) = mr_rows r"
  "mr_converters (store_eof wp r) = mr_converters r" "mr_read_state (store_eof wp r) = mr_read_state r"
  "mr_field_count (store_eof wp r) = mr_field_count r" "mr_description (store_eof wp r) = mr_description r"
  "mr_unbuffered_active (store_eof wp r) = mr_unbuffered_active r"
  by (simp_all add: store_eof_def)

lemma feed_initial_inv:
  "result_inv r \<Longrightarrow> mr_read_state r = RS_Initial \<Longrightarrow> result_inv (snd (feed_initial p conn r))"
  by (auto simp: feed_initial_def read_load_local_packet_def run_reader_def st_simps result_inv_def
      split: sum.splits)

lemma feed_description_inv:
  "result_inv r \<Longrightarrow> mr_read_state r = RS_Descriptions \<Longrightarrow> result_inv (snd (feed_description V p conn r))"
  by (auto simp: feed_description_def run_reader_def st_simps result_inv_def split: sum.splits)

lemma feed_row_inv:
  assumes "result_inv r" and "mr_read_state r = RS_Rows \<or> mr_read_state r = RS_UnbufferedReady"
  shows "result_inv (snd (feed_row V p r))"
proof -
  obtain x r1 where c: "check_packet_is_eof p r = (x, r1)" by fastforce
  have r1: "result_inv r1" "mr_read_state r1 = mr_read_state r" "mr_converters r1 = mr_converters r"
      "mr_fields r1 = mr_fields r" "mr_rows r1 = mr_rows r"
    using check_eof_result [OF c] assms(1) by auto
  obtain y r2 where d: "read_row_from_packet V p r1 = (y, r2)" by fastforce
  note row = read_row_length [OF d]
  show ?thesis
    using c d row r1 assms
    by (auto simp: feed_row_def st_simps result_inv_def split: sum.splits option.splits)
qed

lemma feed_packet_inv: "keeps result_inv (feed_packet (V :: 'x env) p conn)"
proof (rule keepsI)
  fix r :: "'x mysql_result" assume "result_inv r"
  then show "result_inv (snd (feed_packet V p conn r))"
    by (cases "mr_read_state r")
      (simp_all add: feed_packet_def st_simps feed_initial_inv feed_description_inv feed_row_inv)
qed

lemma read_rowdata_inv:
  assumes "result_inv r" and "mr_read_state r = RS_UnbufferedReady \<or> mr_read_state r = RS_Done"
  shows "result_inv (snd (read_rowdata_packet_unbuffered V p r))"
proof -
  obtain x r1 where c: "check_packet_is_eof p r = (x, r1)" by fastforce
  have r1: "result_inv r1" "mr_read_state r1 = mr_read_state r" "mr_converters r1 = mr_converters r"
      "mr_fields r1 = mr_fields r"
    using check_eof_result [OF c] assms by auto
  obtain y r3 where d: "read_row_from_packet V p (r1\<lparr>mr_affected_rows := 1\<rparr>) = (y, r3)" by fastforce
  note row = read_row_length [OF d]
  show ?thesis
    using c d row r1 assms
    by (auto simp: read_rowdata_packet_unbuffered_def st_simps result_inv_def split: sum.splits)
qed

text \<open>C15: Results stay consistent.  Every result that reading can produce, from any packets, errors included, has
  one converter per column and rows with exactly one value per column, never more columns than the server
  announced, and all of them described before any row is accepted.\<close>

theorem result_reach_inv:
  assumes "result_reach V conn r"
  shows "result_inv r"
  using assms
proof induction
  case (reach_new u)
  then show ?case by (simp add: result_inv_def result_new_def)
next
  case (reach_feed r p)
  then show ?case using feed_packet_inv by (auto dest: keepsD)
next
  case (reach_row r p)
  then show ?case by (auto intro: read_rowdata_inv)
qed

theorem result_reach_inv_witness:
  "result_inv (snd (feed_packet sample_env (packet_new [2]) sample_conn (result_new\<lparr>mr_unbuffered_active := True\<rparr>)))"
  by (rule result_reach_inv [OF reach_feed [OF reach_new]])

text \<open>C29: Reading a result never panics: whatever bytes a packet holds and whatever state the result is in,
  consuming the packet returns a value or an error.  The converters of the columns are functions that return; that the
  built-in ones do not panic either is shown in \<open>Converters\<close> (\<open>decoders_return\<close>).\<close>

theorem feed_packet_never_panics:
  "fst (feed_packet V (packet_new d) conn r) \<noteq> Inl Panic \<and>
   fst (read_rowdata_packet_unbuffered V (packet_new d) r) \<noteq> Inl Panic"
  using calm_feed_packet [of "packet_new d" V conn] calm_read_rowdata [of "packet_new d" V]
  by (simp add: calm_def)

section \<open>Text result sets\<close>

text \<open>
  A result set as the server sends it: the number of columns, the column definitions, an EOF packet, the
  rows as length-coded strings with the NULL marker, and an EOF packet.
\<close>

definition text_row :: "bytes option list \<Rightarrow> bytes" where
  "text_row cells = concat (map lenenc_string cells)"

definition resultset_packets :: "bytes list \<Rightarrow> bytes option list list \<Rightarrow> u16 \<Rightarrow> u16 \<Rightarrow> u16 \<Rightarrow> u16 \<Rightarrow> bytes list" where
  "resultset_packets cols rows w1 s1 w2 s2 =
     lenenc_int (length cols) # cols @ eof_packet w1 s1 # map text_row rows @ [eof_packet w2 s2]"

definition decode_row :: "'x env \<Rightarrow> 'x connection \<Rightarrow> field_descriptor_packet list \<Rightarrow> bytes option list \<Rightarrow>
    'x mysql_value list" where
  "decode_row V conn fs cells = map2 (\<lambda>f. column_value V (build_converter V f conn)) fs cells"

text \<open>Feeding packets until the result wants no more; what is left over is returned.\<close>

fun feed_packets :: "'x env \<Rightarrow> 'x connection \<Rightarrow> bytes list \<Rightarrow> ('x mysql_result, feed_result \<times> bytes list) rs" where
  "feed_packets V conn [] = ret (FR_NeedMore, [])"
| "feed_packets V conn (p # ps) =
     bind_st (feed_packet V (packet_new p) conn) (\<lambda>x.
       if x = FR_NeedMore then feed_packets V conn ps else ret (x, ps))"

lemma read_columns_text_row:
  assumes "length fcs = length cells" and "fits pre (text_row cells @ rest)"
  shows "read_columns V fcs (cursor_at pre (text_row cells @ rest)) =
    (Inr (map2 (column_value V) fcs cells), cursor_at (pre @ text_row cells) rest)"
  using assms
proof (induction fcs cells arbitrary: pre rule: list_induct2)
  case Nil
  then show ?case by (simp add: text_row_def ret_def)
next
  case (Cons fc fcs c cells)
  have "read_columns V (fc # fcs) (cursor_at pre (lenenc_string c @ text_row cells @ rest)) =
      bind_st (read_columns V fcs) (\<lambda>row. ret (column_value V fc c # row))
        (cursor_at (pre @ lenenc_string c) (text_row cells @ rest))"
    using Cons.prems by (simp add: text_row_def wire_then)
  then show ?case
    using Cons.prems Cons.IH [of "pre @ lenenc_string c"]
    by (simp add: text_row_def st_simps)
qed

lemma lenenc_int_start:
  obtains b bs where "lenenc_int n = b # bs" "b = 0 \<longleftrightarrow> n = 0" "b \<noteq> 0xFB" "b \<noteq> 0xFF"
    "b = 0xFE \<longrightarrow> 2 ^ 24 \<le> n"
proof -
  have small: "unat (word_of_nat n :: u8) = n" if "n < 0xFB" using that by (simp add: unat_of_nat)
  have "word_of_nat n = (0 :: u8) \<longleftrightarrow> n = 0" "word_of_nat n \<noteq> (0xFB :: u8)" "word_of_nat n \<noteq> (0xFF :: u8)"
      "word_of_nat n \<noteq> (0xFE :: u8)" if "n < 0xFB"
    using small [OF that] that by (auto dest: arg_cong [where f = unat])
  then show ?thesis
    by (cases "n < 0xFB"; cases "n < 2 ^ 16"; cases "n < 2 ^ 24") (auto simp: lenenc_int_def intro: that)
qed

lemma text_row_kind:
  assumes "cells \<noteq> []"
  shows "\<not> is_eof_packet (packet_new (text_row cells))" and "not_err (text_row cells)"
proof -
  obtain c cs where cells: "cells = c # cs" using assms by (cases cells) auto
  have "\<not> is_eof_packet (packet_new (text_row cells)) \<and> not_err (text_row cells)"
  proof (cases c)
    case None
    then show ?thesis
      by (simp add: cells text_row_def lenenc_string_def is_eof_packet_def packet_new_def first_byte_def)
  next
    case (Some bs)
    obtain b rest where "lenenc_int (length bs) = b # rest" "b \<noteq> 0xFF" "b = 0xFE \<longrightarrow> 2 ^ 24 \<le> length bs"
      using lenenc_int_start [of "length bs"] by metis
    with Some show ?thesis
      by (auto simp: cells text_row_def lenenc_string_def is_eof_packet_def packet_new_def first_byte_def)
  qed
  then show "\<not> is_eof_packet (packet_new (text_row cells))" "not_err (text_row cells)" by auto
qed

lemma feed_count:
  assumes "mr_read_state r = RS_Initial" and "0 < n" and "n < 2 ^ 64"
  shows "feed_packet V (packet_new (lenenc_int n)) conn r =
    (Inr FR_NeedMore, r\<lparr>mr_field_count := word_of_nat n, mr_fields := [], mr_converters := [],
       mr_description := None, mr_rows := None, mr_read_state := RS_Descriptions\<rparr>)"
proof -
  obtain b bs where b: "lenenc_int n = b # bs" "b = 0 \<longleftrightarrow> n = 0" "b \<noteq> 0xFB" "b \<noteq> 0xFF"
      "b = 0xFE \<longrightarrow> 2 ^ 24 \<le> n"
    by (rule lenenc_int_start)
  have "fits [] (lenenc_int n @ [])" by (simp add: fits_def lenenc_int_def usize_max_def)
  with assms(3) have "read_length_encoded_integer (cursor_at [] (lenenc_int n @ [])) =
      (Inr (Some (word_of_nat n)), cursor_at ([] @ lenenc_int n) [])"
    by (rule lenencf.rd_enc)
  then have "fst (read_length_encoded_integer (packet_new (lenenc_int n))) = Inr (Some (word_of_nat n))"
    by (simp add: packet_new_cursor)
  moreover have "\<not> is_ok_packet (packet_new (lenenc_int n))" "\<not> is_load_local_packet (packet_new (lenenc_int n))"
    using b(1-3) assms(2) by (simp_all add: is_ok_packet_def is_load_local_packet_def packet_new_def first_byte_def)
  ultimately show ?thesis
    using assms(1) by (simp add: feed_packet_def feed_initial_def run_reader_def st_simps)
qed

lemma feed_columns:
  assumes "mr_read_state r = RS_Descriptions"
    and "list_all2 (\<lambda>d f. field_parse (env_encodings V) d (cn_encoding conn) = Inr f) cols fs"
    and "length (mr_fields r) + length cols = unat (mr_field_count r)"
  shows "feed_packets V conn (cols @ ps) r = feed_packets V conn ps
    (r\<lparr>mr_converters := mr_converters r @ map (\<lambda>f. build_converter V f conn) fs,
       mr_fields := mr_fields r @ fs\<rparr>)"
  using assms(2,1,3)
proof (induction cols fs arbitrary: r rule: list_all2_induct)
  case (Cons d cols f fs)
  let ?r = "r\<lparr>mr_converters := mr_converters r @ [build_converter V f conn], mr_fields := mr_fields r @ [f]\<rparr>"
  have "feed_packet V (packet_new d) conn r = (Inr FR_NeedMore, ?r)"
    using Cons.prems Cons.hyps
    by (simp add: feed_packet_def feed_description_def packet_new_def get_all_data_def st_simps)
  then have "feed_packets V conn ((d # cols) @ ps) r = feed_packets V conn (cols @ ps) ?r"
    by (simp add: bind_st_ok)
  with Cons.IH [of ?r] Cons.prems show ?case by simp
qed simp

abbreviation stored_eof :: "u16 \<Rightarrow> u16 \<Rightarrow> 'x mysql_result \<Rightarrow> 'x mysql_result" where
  "stored_eof w s \<equiv> store_eof \<lparr>eof_warning_count = w, eof_server_status = s, eof_has_next = bit s 3\<rparr>"

lemma feed_columns_end:
  assumes "mr_read_state r = RS_Descriptions" and "length (mr_fields r) = unat (mr_field_count r)"
  shows "feed_packet V (packet_new (eof_packet w s)) conn r =
    (let r' = (stored_eof w s r)\<lparr>mr_description := Some (map description (mr_fields r))\<rparr>
     in if mr_unbuffered_active r then (Inr FR_UnbufferedReady, r'\<lparr>mr_read_state := RS_UnbufferedReady\<rparr>)
        else (Inr FR_NeedMore, r'\<lparr>mr_read_state := RS_Rows\<rparr>))"
  using assms is_eof_packet_eof [of w s]
  by (simp add: feed_packet_def feed_description_def run_reader_def eof_packet_decodes st_simps)

lemma check_eof_eof: "check_packet_is_eof (packet_new (eof_packet w s)) r = (Inr True, stored_eof w s r)"
  using is_eof_packet_eof [of w s]
  by (simp add: check_packet_is_eof_def run_reader_def eof_packet_decodes st_simps)

lemma feed_rows_end:
  assumes "mr_read_state r = RS_Rows"
  shows "feed_packet V (packet_new (eof_packet w s)) conn r =
    (Inr FR_Done, (stored_eof w s r)\<lparr>mr_read_state := RS_Done\<rparr>)"
  using assms check_eof_eof [of w s r] by (simp add: feed_packet_def feed_row_def st_simps)

text \<open>Rows the server can send for \<open>n\<close> columns.\<close>

definition row_ok :: "nat \<Rightarrow> bytes option list \<Rightarrow> bool" where
  "row_ok n cells \<longleftrightarrow> length cells = n \<and> cells \<noteq> [] \<and> length (text_row cells) \<le> usize_max"

lemma read_row_text_row:
  assumes "row_ok (length fs) cells" and "mr_converters r = map (\<lambda>f. build_converter V f conn) fs"
  shows "read_row_from_packet V (packet_new (text_row cells)) r = (Inr (decode_row V conn fs cells), r)"
proof -
  have "read_columns V (mr_converters r) (cursor_at [] (text_row cells @ [])) =
      (Inr (map2 (column_value V) (mr_converters r) cells), cursor_at ([] @ text_row cells) [])"
    using assms by (intro read_columns_text_row) (simp_all add: row_ok_def fits_def)
  moreover have "map2 (column_value V) (mr_converters r) cells = decode_row V conn fs cells"
    by (simp add: assms(2) decode_row_def zip_map1 comp_def case_prod_unfold)
  ultimately show ?thesis
    by (simp add: read_row_from_packet_def run_reader_def st_simps packet_new_cursor)
qed

definition rows_of :: "'x mysql_result \<Rightarrow> 'x mysql_value list list" where
  "rows_of r = (case mr_rows r of Some rows \<Rightarrow> rows | None \<Rightarrow> [])"

lemma feed_rows:
  assumes "mr_read_state r = RS_Rows" and "mr_converters r = map (\<lambda>f. build_converter V f conn) fs"
    and "list_all (row_ok (length fs)) rows"
  shows "feed_packets V conn (map text_row rows @ ps) r = feed_packets V conn ps
    (if rows = [] then r else r\<lparr>mr_rows := Some (rows_of r @ map (decode_row V conn fs) rows)\<rparr>)"
  using assms
proof (induction rows arbitrary: r)
  case (Cons cells rows)
  let ?r = "r\<lparr>mr_rows := Some (rows_of r @ [decode_row V conn fs cells])\<rparr>"
  have "cells \<noteq> []" using Cons.prems(3) by (simp add: row_ok_def)
  then have "check_packet_is_eof (packet_new (text_row cells)) r = (Inr False, r)"
    by (simp add: check_packet_is_eof_def text_row_kind ret_def)
  then have "feed_packet V (packet_new (text_row cells)) conn r = (Inr FR_NeedMore, ?r)"
    using Cons.prems read_row_text_row [of fs cells r V conn]
    by (simp add: feed_packet_def feed_row_def st_simps rows_of_def)
  then have "feed_packets V conn (map text_row (cells # rows) @ ps) r = feed_packets V conn (map text_row rows @ ps) ?r"
    by (simp add: bind_st_ok)
  also have "\<dots> = feed_packets V conn ps
      (if rows = [] then ?r else ?r\<lparr>mr_rows := Some (rows_of ?r @ map (decode_row V conn fs) rows)\<rparr>)"
    using Cons.prems by (intro Cons.IH) simp_all
  finally show ?case by (simp add: rows_of_def)
qed simp

lemma feed_resultset:
  assumes "list_all2 (\<lambda>d f. field_parse (env_encodings V) d (cn_encoding conn) = Inr f) cols fs"
    and "cols \<noteq> []" and "length cols < 2 ^ 64" and "list_all (row_ok (length cols)) rows"
    and "mr_read_state r = RS_Initial" and "\<not> mr_unbuffered_active r"
  shows "feed_packets V conn (resultset_packets cols rows w1 s1 w2 s2 @ ps) r =
    (Inr (FR_Done, ps), r\<lparr>mr_field_count := word_of_nat (length cols), mr_fields := fs,
       mr_converters := map (\<lambda>f. build_converter V f conn) fs,
       mr_description := Some (map description fs),
       mr_rows := (if rows = [] then None else Some (map (decode_row V conn fs) rows)),
       mr_warning_count := w2, mr_has_next := bit s2 3, mr_server_status := Some s2,
       mr_read_state := RS_Done\<rparr>)"
proof -
  have len: "length fs = length cols" using assms(1) by (simp add: list_all2_lengthD)
  have n: "unat (word_of_nat (length cols) :: u64) = length cols" using assms(3) by (simp add: unat_of_nat)
  let ?r1 = "r\<lparr>mr_field_count := word_of_nat (length cols), mr_fields := [], mr_converters := [],
    mr_description := None, mr_rows := None, mr_read_state := RS_Descriptions\<rparr>"
  let ?r2 = "?r1\<lparr>mr_converters := map (\<lambda>f. build_converter V f conn) fs, mr_fields := fs\<rparr>"
  let ?r3 = "(stored_eof w1 s1 ?r2)\<lparr>mr_description := Some (map description fs), mr_read_state := RS_Rows\<rparr>"
  let ?r4 = "if rows = [] then ?r3 else ?r3\<lparr>mr_rows := Some (map (decode_row V conn fs) rows)\<rparr>"
  have "feed_packets V conn (resultset_packets cols rows w1 s1 w2 s2 @ ps) r =
      feed_packets V conn (cols @ eof_packet w1 s1 # map text_row rows @ eof_packet w2 s2 # ps) ?r1"
    using assms by (simp add: resultset_packets_def bind_st_ok [OF feed_count])
  also have "\<dots> = feed_packets V conn (eof_packet w1 s1 # map text_row rows @ eof_packet w2 s2 # ps) ?r2"
    using feed_columns [OF _ assms(1), of ?r1] n by simp
  also have "\<dots> = feed_packets V conn (map text_row rows @ eof_packet w2 s2 # ps) ?r3"
    using feed_columns_end [of ?r2 V w1 s1 conn] assms(6) n len by (simp add: st_simps)
  also have "\<dots> = feed_packets V conn (eof_packet w2 s2 # ps) ?r4"
    using feed_rows [of ?r3 V conn fs rows] assms(4) len by (simp add: rows_of_def)
  also have "\<dots> = (Inr (FR_Done, ps), (stored_eof w2 s2 ?r4)\<lparr>mr_read_state := RS_Done\<rparr>)"
    using feed_rows_end [of ?r4 V w2 s2 conn] by (simp add: st_simps)
  finally show ?thesis by (simp add: store_eof_def)
qed

text \<open>A buffered result set is decoded completely.  Fed the column count, the column definitions, an EOF packet,
  the rows and the final EOF packet, a new result ends exactly with the last of them and holds every column
  description, every row with every cell decoded by the converter of its column (NULL, text or bytes), and
  the warning count, status and more-results flag of the final EOF packet.\<close>

lemma resultset_decoded:
  assumes "list_all2 (\<lambda>d f. field_parse (env_encodings V) d (cn_encoding conn) = Inr f) cols fs"
    and "cols \<noteq> []" and "length cols < 2 ^ 64" and "list_all (row_ok (length cols)) rows"
  shows "\<exists>r. feed_packets V conn (resultset_packets cols rows w1 s1 w2 s2 @ ps) result_new =
      (Inr (FR_Done, ps), r) \<and>
    mr_fields r = fs \<and> mr_description r = Some (map description fs) \<and>
    mr_rows r = (if rows = [] then None else Some (map (decode_row V conn fs) rows)) \<and>
    mr_warning_count r = w2 \<and> mr_server_status r = Some s2 \<and> mr_has_next r = bit s2 3 \<and> is_done r"
  using feed_resultset [OF assms, of result_new] by (simp add: result_new_def is_done_def)

definition sample_column :: bytes where
  "sample_column = column_packet [None, None, None, None, Some [105, 100], None] 63 11 LONG 0 0 []"

definition sample_field :: field_descriptor_packet where
  "sample_field = \<lparr>fd_catalog = None, fd_db = None, fd_table_name = [], fd_org_table = [], fd_name = ''id'',
     fd_org_name = [], fd_charsetnr = 63, fd_length = 11, fd_type_code = LONG, fd_flags = 0, fd_scale = 0\<rparr>"

lemma sample_column_parses: "field_parse sample_encodings sample_column enc = Inr sample_field"
proof -
  have "length sample_column \<le> usize_max"
    by (simp add: sample_column_def column_packet_def lenenc_string_def lenenc_int_def to_le_bytes_length usize_max_def)
  then show ?thesis
    unfolding sample_column_def
    by (subst column_packet_decodes)
      (simp_all add: sample_column_def sample_field_def decode_or_empty_def decode_label_def sample_encodings_def
        from_utf8_lossy_ascii from_bytes_def char_of_eq_iff)
qed

lemma sample_cells:
  "decode_row sample_env sample_conn [sample_field] [Some [52, 50]] = [VInt 42]"
  "decode_row sample_env sample_conn [sample_field] [None] = [VNull]"
  by (simp_all add: decode_row_def column_value_def build_converter_def field_encoding_def sample_conn_def
      connection_new_def default_options_def sample_field_def decode_label_def sample_env_def sample_encodings_def
      from_utf8_lossy_ascii from_bytes_def TEXT_TYPES_def decoder_for_def convert_int_def parse_signed_def
      char_of_eq_iff is_digit_def digits_val_def digit_val_def)

lemma resultset_decoded_instance:
  "\<exists>r. feed_packets sample_env sample_conn
      (resultset_packets [sample_column] [[Some [52, 50]], [None]] 0 2 0 2 @ []) result_new = (Inr (FR_Done, []), r) \<and>
    mr_rows r = Some [[VInt 42], [VNull]]"
proof -
  have "list_all2 (\<lambda>d f. field_parse (env_encodings sample_env) d (cn_encoding sample_conn) = Inr f)
      [sample_column] [sample_field]"
    by (simp add: sample_env_def sample_column_parses)
  moreover have "list_all (row_ok (length [sample_column])) [[Some [52, 50]], [None]]"
    by (simp add: row_ok_def text_row_def lenenc_string_def lenenc_int_def usize_max_def)
  ultimately show ?thesis
    using resultset_decoded [of sample_env sample_conn "[sample_column]" "[sample_field]"
        "[[Some [52, 50]], [None]]" 0 2 0 2 "[]"]
    by (simp add: sample_cells) blast
qed

end
