(* ===== verification/Result_Loop.thy ===== *)
theory Result_Loop
  imports Core_Result
begin

text \<open>
  The contract between the source of packets (the receive queue of the sans-I/O connection, or the client
  reading from its stream) and the loops that read a result set from it, and what it gives the loops: the
  result is the one that feeding the packets in order gives.
\<close>

fun take_packets :: "('s, mysql_packet) rs \<Rightarrow> nat \<Rightarrow> ('s, mysql_packet list) rs" where
  "take_packets next_packet 0 = ret []"
| "take_packets next_packet (Suc n) =
     bind_st next_packet (\<lambda>p. bind_st (take_packets next_packet n) (\<lambda>ps. ret (p # ps)))"

text \<open>\<open>sees ps s\<close>: the next packets are \<open>ps\<close>; \<open>moves\<close> relates the states before and after reading.\<close>

locale packet_source =
  fixes next_packet :: "('s, mysql_packet) rs"
    and sees :: "bytes list \<Rightarrow> 's \<Rightarrow> bool"
    and moves :: "'s \<Rightarrow> 's \<Rightarrow> bool"
  assumes next_sees: "sees (p # ps) s \<Longrightarrow> \<exists>s'. next_packet s = (Inr (packet_new p), s') \<and> sees ps s' \<and> moves s s'"
    and moves_refl: "moves s s"
    and moves_trans: "moves s s' \<Longrightarrow> moves s' s'' \<Longrightarrow> moves s s''"
begin

lemma next_seesE:
  assumes "sees (p # ps) s"
  obtains s' where "next_packet s = (Inr (packet_new p), s')" "sees ps s'" "moves s s'"
  using next_sees [OF assms] by blast

lemma take_sees:
  assumes "sees (ps @ qs) s"
  shows "\<exists>s'. take_packets next_packet (length ps) s = (Inr (map packet_new ps), s') \<and> sees qs s' \<and> moves s s'"
  using assms
proof (induction ps arbitrary: s)
  case Nil
  then show ?case by (simp add: ret_def moves_refl)
next
  case (Cons p ps)
  from Cons.prems have "sees (p # ps @ qs) s" by simp
  then obtain s1 where s1: "next_packet s = (Inr (packet_new p), s1)" "sees (ps @ qs) s1" "moves s s1"
    by (rule next_seesE)
  from Cons.IH [OF s1(2)] obtain s2 where
    "take_packets next_packet (length ps) s1 = (Inr (map packet_new ps), s2)" "sees qs s2" "moves s1 s2" by blast
  with s1 show ?case by (auto simp: st_simps intro: moves_trans)
qed

end

text \<open>A loop that reads a packet, feeds it to the result and goes on while the result needs more.\<close>

locale result_loop = packet_source next_packet sees moves
  for next_packet :: "('s, mysql_packet) rs" and sees and moves +
  fixes V :: "'x env"
    and conn_of :: "'s \<Rightarrow> 'x connection"
    and loop :: "'x mysql_result \<Rightarrow> ('s, 'a) rs"
    and fin :: "'x mysql_result \<Rightarrow> ('s, 'a) rs"
  assumes loop_more: "next_packet s = (Inr p, s') \<Longrightarrow> feed_packet V p (conn_of s') r = (Inr FR_NeedMore, r') \<Longrightarrow>
      loop r s = loop r' s'"
    and loop_done: "next_packet s = (Inr p, s') \<Longrightarrow> feed_packet V p (conn_of s') r = (Inr x, r') \<Longrightarrow>
      x \<noteq> FR_NeedMore \<Longrightarrow> loop r s = fin r' s'"
    and conn_moves: "moves s s' \<Longrightarrow> feed_packet V p (conn_of s') = feed_packet V p (conn_of s)"
begin

lemma loop_feeds:
  assumes "feed_packets V (conn_of s0) ps r = (Inr (x, rest), r')" and "x \<noteq> FR_NeedMore"
    and "sees (ps @ qs) s" and "moves s0 s"
  shows "\<exists>s'. loop r s = fin r' s' \<and> sees (rest @ qs) s' \<and> moves s s'"
  using assms
proof (induction ps arbitrary: r s)
  case Nil
  then show ?case by (simp add: ret_def)
next
  case (Cons p ps)
  obtain y r1 where f: "feed_packet V (packet_new p) (conn_of s0) r = (Inr y, r1)"
    using Cons.prems(1) by (auto simp: bind_st_Inr_iff)
  note step = bind_st_ok [where m = "feed_packet V (packet_new p) (conn_of s0)", OF f]
  from Cons.prems(3) have "sees (p # ps @ qs) s" by simp
  then obtain s1 where s1: "next_packet s = (Inr (packet_new p), s1)" "sees (ps @ qs) s1" "moves s s1"
    by (rule next_seesE)
  have m: "moves s0 s1" using Cons.prems(4) s1(3) by (rule moves_trans)
  with f have f1: "feed_packet V (packet_new p) (conn_of s1) r = (Inr y, r1)" by (simp add: conn_moves)
  show ?case
  proof (cases "y = FR_NeedMore")
    case True
    then have "feed_packets V (conn_of s0) ps r1 = (Inr (x, rest), r')"
      using Cons.prems(1) by (simp add: step)
    from Cons.IH [OF this Cons.prems(2) s1(2) m] obtain s' where
      "loop r1 s1 = fin r' s'" "sees (rest @ qs) s'" "moves s1 s'" by blast
    with loop_more [OF s1(1)] f1 True s1(3) moves_trans show ?thesis by metis
  next
    case False
    then have "y = x" "rest = ps" "r' = r1"
      using Cons.prems(1) by (simp_all add: step ret_def)
    with loop_done [OF s1(1) f1 False] s1(2,3) show ?thesis by blast
  qed
qed

end

end
