(* ===== verification/Core_Connection.thy ===== *)
theory Core_Connection
  imports Result_Loop
begin

text \<open>
  The sans-I/O connection of \<^verbatim>\<open>mysql-core/src/connection.rs\<close>: construction, the server handshake, commands and
  their results, and the rendering of values in statements.
\<close>

section \<open>Construction and closing\<close>

definition unknown_error :: "string \<Rightarrow> error" where
  "unknown_error m = ProgrammingError CR_UNKNOWN_ERROR m"

definition unknown_charset :: "string \<Rightarrow> error" where
  "unknown_charset name = OperationalError CR_CANT_READ_CHARSET (''Unknown charset: '' @ name)"

definition core_connect :: "'x env \<Rightarrow> connect_options \<Rightarrow> error + 'x connection" where
  "core_connect V options =
     (if \<not> (co_host options \<noteq> [] \<and> hd (co_host options) = CHR ''/'') \<and> co_port options = 0 then
        Inl (unknown_error ''port must be greater than 0'')
      else if co_max_allowed_packet options = 0 then
        Inl (unknown_error ''max_allowed_packet must be greater than 0'')
      else if co_connect_timeout options = 0 \<or> 365 * 24 * 60 * 60 * 10 ^ 9 \<le> co_connect_timeout options then
        Inl (unknown_error ''connect_timeout must be greater than 0 and less than one year'')
      else
        (case charset_by_name (env_lc V) (co_charset options) of
           None \<Rightarrow> Inl (unknown_charset (co_charset options))
         | Some charset_info \<Rightarrow>
             (let conn = connection_new options (encoding charset_info);
                  conn = (if co_database options \<noteq> None
                    then conn\<lparr>cn_client_flag := cn_client_flag conn OR CONNECT_WITH_DB\<rparr> else conn);
                  conn = (if co_local_infile options
                    then conn\<lparr>cn_client_flag := cn_client_flag conn OR LOCAL_FILES\<rparr> else conn);
                  conn = (if co_compress options
                    then conn\<lparr>cn_client_flag := cn_client_flag conn OR COMPRESS\<rparr> else conn)
              in Inr conn)))"

definition core_close :: "'x env \<Rightarrow> ('x connection, unit) rs" where
  "core_close V =
     bind_st get_st (\<lambda>c.
     if cn_closed c then ret ()
     else
       bind_st (modify_st (\<lambda>c. c\<lparr>cn_closed := True, cn_packet_stream := ps_reset_seq_id (cn_packet_stream c)\<rparr>)) (\<lambda>_.
       conn_write_packet V [COM_QUIT]))"

definition core_force_close :: "'x connection \<Rightarrow> 'x connection" where
  "core_force_close c = c\<lparr>cn_packet_stream := ps_force_close (cn_packet_stream c), cn_closed := True\<rparr>"

definition set_secure :: "bool \<Rightarrow> 'x connection \<Rightarrow> 'x connection" where
  "set_secure b c = c\<lparr>cn_secure := b\<rparr>"

definition core_is_open :: "'x connection \<Rightarrow> bool" where
  "core_is_open c \<longleftrightarrow> \<not> cn_closed c"

definition core_enable_compression :: "'x connection \<Rightarrow> 'x connection" where
  "core_enable_compression c = c\<lparr>cn_packet_stream := ps_enable_compression (cn_packet_stream c)\<rparr>"

definition register_converter :: "u8 \<Rightarrow> 'x converter \<Rightarrow> 'x connection \<Rightarrow> 'x connection" where
  "register_converter type_code conv c = c\<lparr>cn_field_converters := (cn_field_converters c)(type_code \<mapsto> conv)\<rparr>"

definition pop_send_queue :: "'x connection \<Rightarrow> bytes option \<times> 'x connection" where
  "pop_send_queue c =
     (case ps_send_queue (cn_packet_stream c) of
        [] \<Rightarrow> (None, c)
      | d # ds \<Rightarrow> (Some d, c\<lparr>cn_packet_stream := (cn_packet_stream c)\<lparr>ps_send_queue := ds\<rparr>\<rparr>))"

section \<open>Results\<close>

text \<open>The loop of \<open>read_query_result\<close>; the result is a local variable, lost when the loop ends with an error.\<close>

function read_result_loop :: "'x env \<Rightarrow> 'x mysql_result \<Rightarrow> ('x connection, int) rs" where
  "read_result_loop V result c =
     (case conn_read_packet c of
        (Inl e, c') \<Rightarrow> (Inl e, c')
      | (Inr packet, c') \<Rightarrow>
          (case feed_packet V packet c' result of
             (Inl e, _) \<Rightarrow> (Inl e, c')
           | (Inr FR_NeedMore, result') \<Rightarrow> read_result_loop V result' c'
           | (Inr _, result') \<Rightarrow>
               (Inr (mr_affected_rows result'),
                c'\<lparr>cn_server_status := (case mr_server_status result' of Some s \<Rightarrow> s | None \<Rightarrow> cn_server_status c'),
                   cn_result := Some result'\<rparr>)))"
  by pat_completeness auto
termination
proof (relation "measure (\<lambda>(_, _, c). length (recv_queue c))", goal_cases)
  case (2 V result c x c' packet x' r')
  then show ?case by (cases c rule: conn_read_packet_cases) auto
qed simp

declare read_result_loop.simps [simp del]

definition core_read_query_result :: "'x env \<Rightarrow> bool \<Rightarrow> ('x connection, int) rs" where
  "core_read_query_result V unbuffered =
     bind_st get_st (\<lambda>c.
     bind_st (modify_st (\<lambda>c. c\<lparr>cn_result := None\<rparr>)) (\<lambda>_.
       (let result = (case cn_result c of Some r \<Rightarrow> (if \<not> is_done r then r else result_new) | None \<Rightarrow> result_new);
            result = (if is_initial result then result\<lparr>mr_unbuffered_active := unbuffered\<rparr> else result)
        in read_result_loop V result)))"

definition core_next_result :: "'x env \<Rightarrow> bool \<Rightarrow> ('x connection, int) rs" where
  "core_next_result V unbuffered =
     bind_st (core_read_query_result V unbuffered) (\<lambda>n.
     bind_st (modify_st (\<lambda>c. c\<lparr>cn_affected_rows := n\<rparr>)) (\<lambda>_. ret n))"

lemma read_result_loop_shrinks:
  "read_result_loop V result c = (Inr n, c') \<Longrightarrow> length (recv_queue c') < length (recv_queue c)"
proof (induction "length (recv_queue c)" arbitrary: result c rule: less_induct)
  case less
  show ?case
  proof (cases c rule: conn_read_packet_cases)
    case empty
    with less.prems show ?thesis by (subst (asm) read_result_loop.simps) simp
  next
    case (packet p ps)
    let ?c = "c\<lparr>cn_packet_stream := (cn_packet_stream c)\<lparr>ps_recv_queue := ps\<rparr>\<rparr>"
    obtain x r where f: "feed_packet V p ?c result = (x, r)" by fastforce
    have IH: "read_result_loop V r ?c = (Inr n, c') \<Longrightarrow> length (recv_queue c') < length (recv_queue ?c)"
      by (rule less.hyps) (simp_all add: packet(1))
    show ?thesis
      using less.prems packet f IH
      by (subst (asm) read_result_loop.simps) (auto split: sum.splits feed_result.splits)
  qed
qed

lemma core_next_result_shrinks:
  "core_next_result V u c = (Inr n, c') \<Longrightarrow> length (recv_queue c') < length (recv_queue c)"
  by (auto simp: core_next_result_def core_read_query_result_def st_simps Let_def
      dest!: read_result_loop_shrinks split: prod.splits sum.splits if_splits option.splits)

definition core_set_result :: "'x mysql_result \<Rightarrow> 'x connection \<Rightarrow> 'x connection" where
  "core_set_result result c =
     c\<lparr>cn_server_status := (case mr_server_status result of Some s \<Rightarrow> s | None \<Rightarrow> cn_server_status c),
       cn_affected_rows := mr_affected_rows result, cn_result := Some result\<rparr>"

definition insert_id :: "'x connection \<Rightarrow> u64" where
  "insert_id c =
     (case cn_result c of Some r \<Rightarrow> (case mr_insert_id r of Some i \<Rightarrow> i | None \<Rightarrow> 0) | None \<Rightarrow> 0)"

section \<open>Commands\<close>

text \<open>The loop of \<open>execute_command\<close> over the remaining result sets of the previous command.\<close>

function drain_results :: "'x env \<Rightarrow> 'x mysql_result \<Rightarrow> ('x connection, unit) rs" where
  "drain_results V result c =
     (if mr_has_next result then
        (case core_next_result V False c of
           (Inl e, c') \<Rightarrow> (Inl e, c')
         | (Inr n, c') \<Rightarrow>
             (case cn_result c' of
                Some r \<Rightarrow> drain_results V r (c'\<lparr>cn_result := None\<rparr>)
              | None \<Rightarrow> (Inr (), c')))
      else (Inr (), c))"
  by pat_completeness auto
termination
  by (relation "measure (\<lambda>(_, _, c). length (recv_queue c))") (auto dest!: sym [of "(_, _)"] core_next_result_shrinks)

declare drain_results.simps [simp del]

definition core_execute_command :: "'x env \<Rightarrow> u8 \<Rightarrow> bytes \<Rightarrow> ('x connection, unit) rs" where
  "core_execute_command V command sql =
     bind_st get_st (\<lambda>c.
     if cn_closed c then err (InterfaceError 0 ''Connection is closed'')
     else
       bind_st (case cn_result c of
           None \<Rightarrow> ret ()
         | Some result \<Rightarrow>
             bind_st (modify_st (\<lambda>c. c\<lparr>cn_result := None\<rparr>)) (\<lambda>_.
             bind_st (\<lambda>c. if mr_unbuffered_active result
               then (case finish_unbuffered_query (result, c) of (x, (r, c')) \<Rightarrow> (map_sum id (\<lambda>_. r) x, c'))
               else (Inr result, c)) (\<lambda>r. drain_results V r))) (\<lambda>_.
       bind_st (modify_st (\<lambda>c. c\<lparr>cn_packet_stream := ps_reset_seq_id (cn_packet_stream c)\<rparr>)) (\<lambda>_.
       conn_write_packet V (command # sql))))"

definition core_query :: "'x env \<Rightarrow> string \<Rightarrow> bool \<Rightarrow> ('x connection, int) rs" where
  "core_query V sql unbuffered =
     bind_st (core_execute_command V COM_QUERY (as_bytes sql)) (\<lambda>_. core_next_result V unbuffered)"

definition core_select_db :: "'x env \<Rightarrow> string \<Rightarrow> ('x connection, unit) rs" where
  "core_select_db V db = core_execute_command V COM_INIT_DB (as_bytes db)"

definition core_ping :: "'x env \<Rightarrow> ('x connection, unit) rs" where
  "core_ping V = core_execute_command V COM_PING []"

definition core_kill :: "'x env \<Rightarrow> u32 \<Rightarrow> ('x connection, int) rs" where
  "core_kill V thread_id = core_query V (''KILL '' @ dec (unat thread_id)) False"

definition core_begin :: "'x env \<Rightarrow> ('x connection, unit) rs" where
  "core_begin V = core_execute_command V COM_QUERY (as_bytes ''BEGIN'')"

definition core_commit :: "'x env \<Rightarrow> ('x connection, unit) rs" where
  "core_commit V = core_execute_command V COM_QUERY (as_bytes ''COMMIT'')"

definition core_rollback :: "'x env \<Rightarrow> ('x connection, unit) rs" where
  "core_rollback V = core_execute_command V COM_QUERY (as_bytes ''ROLLBACK'')"

definition get_autocommit :: "'x connection \<Rightarrow> bool" where
  "get_autocommit c \<longleftrightarrow> cn_server_status c AND SERVER_STATUS_AUTOCOMMIT \<noteq> 0"

definition core_in_transaction :: "'x connection \<Rightarrow> bool" where
  "core_in_transaction c \<longleftrightarrow> cn_server_status c AND SERVER_STATUS_IN_TRANS \<noteq> 0"

definition set_autocommit :: "'x env \<Rightarrow> bool \<Rightarrow> ('x connection, unit) rs" where
  "set_autocommit V b =
     bind_st (modify_st (\<lambda>c. c\<lparr>cn_options := (cn_options c)\<lparr>co_autocommit := Some b\<rparr>\<rparr>)) (\<lambda>_.
     bind_st get_st (\<lambda>c.
     if b \<noteq> get_autocommit c then
       core_execute_command V COM_QUERY (as_bytes (''SET AUTOCOMMIT = '' @ dec (if b then 1 else 0)))
     else ret ()))"

definition collation_char :: "char \<Rightarrow> bool" where
  "collation_char ch \<longleftrightarrow>
     (let n = (of_char ch :: nat) in (48 \<le> n \<and> n \<le> 57) \<or> (65 \<le> n \<and> n \<le> 90) \<or> (97 \<le> n \<and> n \<le> 122)) \<or>
     ch = CHR ''_''"

definition set_character_set :: "'x env \<Rightarrow> string \<Rightarrow> string option \<Rightarrow> ('x connection, unit) rs" where
  "set_character_set V charset_name collation =
     (case charset_by_name (env_lc V) charset_name of
        None \<Rightarrow> err (unknown_charset charset_name)
      | Some charset_info \<Rightarrow>
          bind_st (modify_st (\<lambda>c. c\<lparr>cn_encoding := encoding charset_info\<rparr>)) (\<lambda>_.
          if (case collation of Some co \<Rightarrow> \<not> list_all collation_char co | None \<Rightarrow> False) then
            err (ProgrammingError CR_CANT_READ_CHARSET (''Invalid collation: '' @ the collation))
          else
            (let query = (case collation of
                 Some co \<Rightarrow> ''SET NAMES '' @ charset_name @ '' COLLATE '' @ co
               | None \<Rightarrow> ''SET NAMES '' @ charset_name)
             in bind_st (core_execute_command V COM_QUERY (as_bytes query)) (\<lambda>_.
                modify_st (\<lambda>c. c\<lparr>cn_options := (cn_options c)\<lparr>co_charset := charset_name, co_collation := collation\<rparr>\<rparr>)))))"

definition core_read_ok_packet :: "('x connection, ok_packet_wrapper) rs" where
  "core_read_ok_packet =
     bind_st conn_read_packet (\<lambda>pkt.
     if \<not> is_ok_packet pkt then err (OperationalError CR_COMMANDS_OUT_OF_SYNC ''Command Out of Sync'')
     else
       bind_st (run_reader ok_from_packet pkt) (\<lambda>ok.
       bind_st (modify_st (\<lambda>c. c\<lparr>cn_server_status := ok_server_status ok\<rparr>)) (\<lambda>_. ret ok)))"

definition conn_escape_string :: "'x connection \<Rightarrow> string \<Rightarrow> string" where
  "conn_escape_string c s =
     (if cn_server_status c AND SERVER_STATUS_NO_BACKSLASH_ESCAPES \<noteq> 0
      then replace_char QUOTE [QUOTE, QUOTE] s else escape_string s)"

fun literal :: "'x env \<Rightarrow> 'x connection \<Rightarrow> 'x mysql_value \<Rightarrow> error + string" where
  "literal V c (VString s) = Inr (quoted (conn_escape_string c s))"
| "literal V c (VBytes b) = Inr (escape_bytes b (cn_encoding c))"
| "literal V c obj = escape_item (env_externs V) obj (cn_encoding c)"

definition get_host_info :: "'x connection \<Rightarrow> string" where
  "get_host_info c =
     (let h = co_host (cn_options c)
      in if h \<noteq> [] \<and> hd h = CHR ''/'' then h else h @ '':'' @ dec (unat (co_port (cn_options c))))"

section \<open>The server handshake\<close>

definition handshake_err :: "string \<Rightarrow> error" where
  "handshake_err what = OperationalError CR_SERVER_HANDSHAKE_ERR (''Malformed handshake packet: '' @ what)"

text \<open>\<open>n\<close> bytes of the packet from index \<open>i\<close>; an index outside the packet panics.\<close>

definition bytes_at :: "bytes \<Rightarrow> nat \<Rightarrow> nat \<Rightarrow> ('s, bytes) rs" where
  "bytes_at d i n = (if i + n \<le> length d then ret (take n (drop i d)) else panic)"

definition hs_version :: "bytes \<Rightarrow> ('x connection, nat) rs" where
  "hs_version d =
     (if length d \<le> 0 then err (handshake_err ''empty'')
      else
        bind_st (bytes_at d 0 1) (\<lambda>b.
        bind_st (modify_st (\<lambda>c. c\<lparr>cn_protocol_version := hd b\<rparr>)) (\<lambda>_.
        if length d \<le> 1 then err (handshake_err ''missing server version'')
        else
          (case find_index ((=) 0) (drop 1 d) of
             None \<Rightarrow> err (handshake_err ''server version is not null-terminated'')
           | Some p \<Rightarrow>
               bind_st (bytes_at d 1 p) (\<lambda>v.
               bind_st (modify_st (\<lambda>c. c\<lparr>cn_server_version := from_utf8_lossy v\<rparr>)) (\<lambda>_.
               ret (1 + p + 1)))))))"

definition hs_salt :: "bytes \<Rightarrow> nat \<Rightarrow> ('x connection, nat) rs" where
  "hs_salt d i =
     (if length d < i + 4 then err (handshake_err ''missing thread id'')
      else
        bind_st (bytes_at d i 4) (\<lambda>b.
        bind_st (modify_st (\<lambda>c. c\<lparr>cn_server_thread_id := from_le_bytes b\<rparr>)) (\<lambda>_.
        let i = i + 4
        in if length d < i + 9 then err (handshake_err ''missing salt part 1'')
           else
             bind_st (bytes_at d i 8) (\<lambda>b.
             bind_st (modify_st (\<lambda>c. c\<lparr>cn_salt := b\<rparr>)) (\<lambda>_.
             let i = i + 9
             in if length d < i + 2 then err (handshake_err ''missing capability flags'')
                else
                  bind_st (bytes_at d i 2) (\<lambda>b.
                  bind_st (modify_st (\<lambda>c. c\<lparr>cn_server_capabilities := from_le_bytes b\<rparr>)) (\<lambda>_.
                  ret (i + 2))))))))"

definition hs_extended :: "bytes \<Rightarrow> nat \<Rightarrow> ('x connection, nat) rs" where
  "hs_extended d i =
     (if i + 6 \<le> length d then
        bind_st (bytes_at d i 6) (\<lambda>b.
        let lang = b ! 0; stat = from_le_bytes (slice_of 1 3 b); cap_h = (from_le_bytes (slice_of 3 5 b) :: u16);
            salt_len = max (unat (b ! 5) - 9) 12; i = i + 6
        in
          bind_st (modify_st (\<lambda>c. c\<lparr>cn_server_language := lang,
            cn_server_charset := map_option cs_name (charset_by_id (ucast lang)),
            cn_server_status := stat,
            cn_server_capabilities := cn_server_capabilities c OR push_bit 16 (ucast cap_h)\<rparr>)) (\<lambda>_.
          if length d < i + 10 then err (handshake_err ''missing reserved bytes'')
          else
            (let i = i + 10
             in if i + salt_len \<le> length d then
                  bind_st (bytes_at d i salt_len) (\<lambda>b.
                  bind_st (modify_st (\<lambda>c. c\<lparr>cn_salt := cn_salt c @ b\<rparr>)) (\<lambda>_. ret (i + salt_len)))
                else ret i)))
      else ret (i + 10))"

definition hs_plugin :: "bytes \<Rightarrow> nat \<Rightarrow> ('x connection, unit) rs" where
  "hs_plugin d i =
     (if length d \<le> i then ret ()
      else
        bind_st get_st (\<lambda>c.
        let i = i + 1
        in if cn_server_capabilities c AND PLUGIN_AUTH \<noteq> 0 \<and> i < length d then
             bind_st (bytes_at d i (case find_index ((=) 0) (drop i d) of Some p \<Rightarrow> p | None \<Rightarrow> length d - i)) (\<lambda>name.
             modify_st (\<lambda>c. c\<lparr>cn_auth_plugin_name := plugin_from_bytes name\<rparr>))
           else ret ()))"

definition get_server_information :: "('x connection, unit) rs" where
  "get_server_information =
     bind_st conn_read_packet (\<lambda>packet.
     let d = get_all_data packet
     in bind_st (hs_version d) (\<lambda>i. bind_st (hs_salt d i) (\<lambda>i. bind_st (hs_extended d i) (\<lambda>i. hs_plugin d i))))"

section \<open>The handshake is read without panics\<close>

lemma calm_bytes_at: "i + n \<le> length d \<Longrightarrow> calm (bytes_at d i n)"
  by (simp add: bytes_at_def calm_basic)

lemma find_zero_bound: "find_index P (drop i d) = Some p \<Longrightarrow> i + p < length d"
  by (auto dest: find_index_Some)

lemma calm_handshake:
  "calm (hs_version d)" "calm (hs_salt d i)" "calm (hs_extended d i)" "calm (hs_plugin d i)"
proof -
  show "calm (hs_version d)"
    by (cases d) (auto simp: hs_version_def split: option.splits dest: find_index_Some
        intro!: calm_intros calm_bytes_at)
  show "calm (hs_salt d i)"
    by (auto simp: hs_salt_def Let_def intro!: calm_intros calm_bytes_at)
  show "calm (hs_extended d i)"
    by (auto simp: hs_extended_def Let_def intro!: calm_intros calm_bytes_at)
  show "calm (hs_plugin d i)"
    by (auto simp: hs_plugin_def Let_def split: option.splits dest: find_zero_bound
        intro!: calm_intros calm_bytes_at)
qed

lemma calm_read_packet: "calm conn_read_packet"
  unfolding calm_def
proof
  fix c :: "'x connection"
  show "fst (conn_read_packet c) \<noteq> Inl Panic" by (cases c rule: conn_read_packet_cases) auto
qed

text \<open>The server's first packet is read without a panic: whatever bytes it has, \<open>get_server_information\<close>
  returns normally or with an error and never indexes outside the packet.\<close>

lemma get_server_information_never_panics: 
  "fst (get_server_information (c :: 'x connection)) \<noteq> Inl Panic"
proof -
  have "calm (get_server_information :: ('x connection, unit) rs)"
    unfolding get_server_information_def Let_def by (intro calm_intros calm_read_packet calm_handshake)
  then show ?thesis by (simp add: calm_def)
qed

text \<open>The initial handshake packet, version 10, as the server writes it.\<close>

record handshake =
  h_version :: bytes
  h_thread :: u32
  h_salt1 :: bytes
  h_cap_low :: u16
  h_lang :: u8
  h_status :: u16
  h_cap_high :: u16
  h_salt_len :: u8
  h_salt2 :: bytes
  h_plugin :: bytes

definition handshake_packet :: "handshake \<Rightarrow> bytes" where
  "handshake_packet h =
     10 # h_version h @ 0 # to_le_bytes (h_thread h) @ h_salt1 h @ 0 # to_le_bytes (h_cap_low h) @
     h_lang h # to_le_bytes (h_status h) @ to_le_bytes (h_cap_high h) @ h_salt_len h # replicate 10 0 @
     h_salt2 h @ 0 # h_plugin h @ [0]"

definition handshake_ok :: "handshake \<Rightarrow> bool" where
  "handshake_ok h \<longleftrightarrow> 0 \<notin> set (h_version h) \<and> length (h_salt1 h) = 8 \<and>
     length (h_salt2 h) = max (unat (h_salt_len h) - 9) 12 \<and> 0 \<notin> set (h_plugin h)"

definition handshake_caps :: "handshake \<Rightarrow> u32" where
  "handshake_caps h = ucast (h_cap_low h) OR push_bit 16 (ucast (h_cap_high h))"

lemma find_zero: "0 \<notin> set xs \<Longrightarrow> find_index ((=) 0) (xs @ 0 # ys) = Some (length xs)"
  by (induction xs) auto

lemma bytes_at_mid: "i = length pre \<Longrightarrow> n = length mid \<Longrightarrow> bytes_at (pre @ mid @ post) i n = ret mid"
  by (simp add: bytes_at_def)

lemma hs_version_reads:
  assumes "0 \<notin> set v"
  shows "hs_version (b # v @ 0 # rest) c =
    (Inr (length v + 2), c\<lparr>cn_protocol_version := b, cn_server_version := from_utf8_lossy v\<rparr>)"
  using assms by (simp add: hs_version_def bytes_at_def find_zero st_simps)

lemma hs_salt_reads:
  assumes "length salt = 8"
  shows "hs_salt (pre @ to_le_bytes t @ salt @ z # to_le_bytes (cap :: u16) @ rest) (length pre) c =
    (Inr (length pre + 15), c\<lparr>cn_server_thread_id := t, cn_salt := salt, cn_server_capabilities := ucast cap\<rparr>)"
proof -
  have "from_le_bytes (to_le_bytes cap) = (ucast cap :: u32)"
    using unsigned_less [of cap, where ?'a = nat]
    by (simp add: from_le_bytes_def to_le_bytes_def le_nat_le_bytes)
  then show ?thesis
    using assms by (simp add: hs_salt_def bytes_at_def byte_simps st_simps Let_def)
qed

lemma hs_extended_reads:
  assumes "length salt = max (unat n - 9) 12"
  shows "hs_extended (pre @ lang # to_le_bytes (stat :: u16) @ to_le_bytes (caph :: u16) @ n #
      replicate 10 0 @ salt @ rest) (length pre) c =
    (Inr (length pre + 16 + length salt), c\<lparr>cn_server_language := lang,
       cn_server_charset := map_option cs_name (charset_by_id (ucast lang)), cn_server_status := stat,
       cn_server_capabilities := cn_server_capabilities c OR push_bit 16 (ucast caph),
       cn_salt := cn_salt (c :: 'x connection) @ salt\<rparr>)"
proof -
  let ?b = "lang # to_le_bytes stat @ to_le_bytes caph @ [n]"
  have b: "bytes_at (pre @ ?b @ replicate 10 0 @ salt @ rest) (length pre) 6 c' = (Inr ?b, c')" for c' :: "'x connection"
    by (subst bytes_at_mid) (simp_all add: byte_simps ret_def)
  have s: "bytes_at ((pre @ ?b @ replicate 10 0) @ salt @ rest) (16 + length pre) (length salt) c' = (Inr salt, c')" for c' :: "'x connection"
    by (subst bytes_at_mid) (simp_all add: byte_simps ret_def)
  have parts: "slice_of (Suc 0) 3 ?b = to_le_bytes stat" "slice_of 3 5 ?b = to_le_bytes caph"
      "(to_le_bytes stat @ to_le_bytes caph @ [n]) ! 4 = n"
    by (simp_all add: slice_of_def byte_simps nth_append nth_Cons')
  show ?thesis
    using b s assms unfolding hs_extended_def
    by (simp add: parts byte_simps st_simps Let_def trans_le_add1 del: replicate.simps)
qed

lemma hs_plugin_reads:
  assumes "0 \<notin> set name"
  shows "hs_plugin (pre @ z # name @ [0]) (length pre) c =
    (Inr (), if cn_server_capabilities c AND PLUGIN_AUTH \<noteq> 0
             then c\<lparr>cn_auth_plugin_name := plugin_from_bytes name\<rparr> else c)"
  using assms by (simp add: hs_plugin_def bytes_at_def find_zero st_simps Let_def)

text \<open>The connection that has read the handshake, with \<open>q\<close> left in the queue.\<close>

definition greeted :: "handshake \<Rightarrow> mysql_packet list \<Rightarrow> 'x connection \<Rightarrow> 'x connection" where
  "greeted h q c = c\<lparr>cn_packet_stream := (cn_packet_stream c)\<lparr>ps_recv_queue := q\<rparr>, cn_protocol_version := 10,
       cn_server_version := from_utf8_lossy (h_version h), cn_server_thread_id := h_thread h,
       cn_salt := h_salt1 h @ h_salt2 h, cn_server_capabilities := handshake_caps h,
       cn_server_language := h_lang h, cn_server_status := h_status h,
       cn_server_charset := map_option cs_name (charset_by_id (ucast (h_lang h))),
       cn_auth_plugin_name := (if handshake_caps h AND PLUGIN_AUTH \<noteq> 0
         then plugin_from_bytes (h_plugin h) else cn_auth_plugin_name c)\<rparr>"

lemma get_server_information_reads:
  assumes "handshake_ok h" and "recv_queue (c :: 'x connection) = packet_new (handshake_packet h) # q"
  shows "get_server_information c = (Inr (), greeted h q c)"
proof -
  let ?tail = "h_salt2 h @ 0 # h_plugin h @ [0]"
  let ?ext = "h_lang h # to_le_bytes (h_status h) @ to_le_bytes (h_cap_high h) @ h_salt_len h # replicate 10 0 @ ?tail"
  let ?p1 = "10 # h_version h @ [0]"
  let ?p2 = "?p1 @ to_le_bytes (h_thread h) @ h_salt1 h @ 0 # to_le_bytes (h_cap_low h)"
  let ?p3 = "?p2 @ h_lang h # to_le_bytes (h_status h) @ to_le_bytes (h_cap_high h) @ h_salt_len h #
    replicate 10 0 @ h_salt2 h"
  have ok: "0 \<notin> set (h_version h)" "length (h_salt1 h) = 8" "length (h_salt2 h) = max (unat (h_salt_len h) - 9) 12"
      "0 \<notin> set (h_plugin h)"
    using assms(1) by (simp_all add: handshake_ok_def)
  have split: "handshake_packet h = ?p1 @ to_le_bytes (h_thread h) @ h_salt1 h @ 0 # to_le_bytes (h_cap_low h) @ ?ext"
      "handshake_packet h = ?p2 @ ?ext" "handshake_packet h = ?p3 @ 0 # h_plugin h @ [0]"
      "handshake_packet h = 10 # h_version h @ 0 # to_le_bytes (h_thread h) @ h_salt1 h @
        0 # to_le_bytes (h_cap_low h) @ ?ext"
    by (simp_all add: handshake_packet_def)
  have len: "length ?p1 = length (h_version h) + 2" "length ?p2 = length ?p1 + 15"
      "length ?p3 = length ?p2 + 16 + length (h_salt2 h)"
    using ok by (simp_all add: byte_simps)
  have v: "hs_version (handshake_packet h) c' = (Inr (length ?p1),
      c'\<lparr>cn_protocol_version := 10, cn_server_version := from_utf8_lossy (h_version h)\<rparr>)" for c' :: "'x connection"
    unfolding split(4) len(1) by (rule hs_version_reads [OF ok(1)])
  have t: "hs_salt (handshake_packet h) (length ?p1) c' = (Inr (length ?p2), c'\<lparr>cn_server_thread_id := h_thread h,
      cn_salt := h_salt1 h, cn_server_capabilities := ucast (h_cap_low h)\<rparr>)" for c' :: "'x connection"
    unfolding split(1) len(2) by (rule hs_salt_reads [OF ok(2)])
  have e: "hs_extended (handshake_packet h) (length ?p2) c' = (Inr (length ?p3), c'\<lparr>cn_server_language := h_lang h,
      cn_server_charset := map_option cs_name (charset_by_id (ucast (h_lang h))), cn_server_status := h_status h,
      cn_server_capabilities := cn_server_capabilities c' OR push_bit 16 (ucast (h_cap_high h)),
      cn_salt := cn_salt c' @ h_salt2 h\<rparr>)" for c' :: "'x connection"
    unfolding split(2) len(3) by (rule hs_extended_reads [OF ok(3)])
  have n: "hs_plugin (handshake_packet h) (length ?p3) c' = (Inr (), if cn_server_capabilities c' AND PLUGIN_AUTH \<noteq> 0
      then c'\<lparr>cn_auth_plugin_name := plugin_from_bytes (h_plugin h)\<rparr> else c')" for c' :: "'x connection"
    unfolding split(3) by (rule hs_plugin_reads [OF ok(4)])
  have r: "conn_read_packet c = (Inr (packet_new (handshake_packet h)),
      c\<lparr>cn_packet_stream := (cn_packet_stream c)\<lparr>ps_recv_queue := q\<rparr>\<rparr>)"
    by (rule conn_read_packet_Cons [OF assms(2)])
  have d: "get_all_data (packet_new (handshake_packet h)) = handshake_packet h"
    by (simp add: get_all_data_def packet_new_def)
  show ?thesis
    by (simp only: get_server_information_def Let_def bind_st_def r d v t e n prod.case sum.case)
      (simp add: handshake_caps_def greeted_def)
qed

text \<open>C25: The server's handshake is understood: from a well-formed version 10 handshake packet the connection
  takes exactly the version text, the thread id, the salt (both parts joined), the two halves of the
  capability flags, the status, the character set and, when the server announces plugins, the plugin.\<close>

theorem handshake_roundtrip:
  assumes "handshake_ok h" and "recv_queue (c :: 'x connection) = packet_new (handshake_packet h) # q"
  shows "get_server_information c =
    (Inr (), c\<lparr>cn_packet_stream := (cn_packet_stream c)\<lparr>ps_recv_queue := q\<rparr>, cn_protocol_version := 10,
       cn_server_version := from_utf8_lossy (h_version h), cn_server_thread_id := h_thread h,
       cn_salt := h_salt1 h @ h_salt2 h, cn_server_capabilities := handshake_caps h,
       cn_server_language := h_lang h, cn_server_status := h_status h,
       cn_server_charset := map_option cs_name (charset_by_id (ucast (h_lang h))),
       cn_auth_plugin_name := (if handshake_caps h AND PLUGIN_AUTH \<noteq> 0
         then plugin_from_bytes (h_plugin h) else cn_auth_plugin_name c)\<rparr>)"
  using get_server_information_reads [OF assms] by (simp add: greeted_def)

definition sample_handshake :: handshake where
  "sample_handshake = \<lparr>h_version = as_bytes ''8.0'', h_thread = 7, h_salt1 = [1, 2, 3, 4, 5, 6, 7, 8], h_cap_low = 0,
     h_lang = 45, h_status = 2, h_cap_high = 8, h_salt_len = 21, h_salt2 = [9, 10, 11, 12, 13, 14, 15, 16, 17, 18, 19, 20],
     h_plugin = as_bytes ''caching_sha2_password''\<rparr>"

theorem handshake_roundtrip_witness:
  "\<exists>c :: int connection. fst (get_server_information c) = Inr () \<and>
     cn_salt (snd (get_server_information c)) = [1, 2, 3, 4, 5, 6, 7, 8, 9, 10, 11, 12, 13, 14, 15, 16, 17, 18, 19, 20]"
proof -
  let ?c = "sample_conn\<lparr>cn_packet_stream := (cn_packet_stream sample_conn)\<lparr>ps_recv_queue :=
    [packet_new (handshake_packet sample_handshake)]\<rparr>\<rparr>"
  have "handshake_ok sample_handshake" by (simp add: handshake_ok_def sample_handshake_def as_bytes_def)
  then have "fst (get_server_information ?c) = Inr () \<and>
      cn_salt (snd (get_server_information ?c)) = h_salt1 sample_handshake @ h_salt2 sample_handshake"
    using handshake_roundtrip [of sample_handshake ?c "[]"] by simp
  then show ?thesis by (intro exI [of _ ?c]) (simp add: sample_handshake_def)
qed

section \<open>Results of commands\<close>

text \<open>Reading depends on the connection through its options, its encoding and its converters only.\<close>

lemma feed_packet_cong:
  assumes "cn_options c' = cn_options c" and "cn_encoding c' = cn_encoding c"
    and "cn_use_unicode c' = cn_use_unicode c" and "cn_field_converters c' = cn_field_converters c"
  shows "feed_packet V p c' = feed_packet V p c"
proof -
  have b: "build_converter V f c' = build_converter V f c" for f
    using assms by (simp add: build_converter_def field_encoding_def)
  have "feed_initial p c' = feed_initial p c" "feed_description V p c' = feed_description V p c"
    by (simp_all only: feed_initial_def feed_description_def read_load_local_packet_def assms b)
  then show ?thesis by (simp only: feed_packet_def)
qed

definition with_recv :: "mysql_packet list \<Rightarrow> 'x connection \<Rightarrow> 'x connection" where
  "with_recv q c = c\<lparr>cn_packet_stream := (cn_packet_stream c)\<lparr>ps_recv_queue := q\<rparr>\<rparr>"

lemma with_recv_simps [simp]:
  "recv_queue (with_recv q c) = q" "with_recv q (with_recv q' c) = with_recv q c"
  "cn_encoding (with_recv q c) = cn_encoding c" "cn_use_unicode (with_recv q c) = cn_use_unicode c"
  "cn_field_converters (with_recv q c) = cn_field_converters c" "cn_options (with_recv q c) = cn_options c"
  "cn_auth_phase (with_recv q c) = cn_auth_phase c" "cn_auth_plugin_name (with_recv q c) = cn_auth_plugin_name c"
  "cn_secure (with_recv q c) = cn_secure c" "cn_salt (with_recv q c) = cn_salt c"
  "ps_compressed (cn_packet_stream (with_recv q c)) = ps_compressed (cn_packet_stream c)"
  "ps_send_queue (cn_packet_stream (with_recv q c)) = ps_send_queue (cn_packet_stream c)"
  "ps_next_seq_id (cn_packet_stream (with_recv q c)) = ps_next_seq_id (cn_packet_stream c)"
  "cn_result (with_recv q c) = cn_result c" "cn_server_status (with_recv q c) = cn_server_status c"
  "with_recv q (c\<lparr>cn_result := x\<rparr>) = (with_recv q c)\<lparr>cn_result := x\<rparr>"
  by (simp_all add: with_recv_def)

lemma feed_packet_with_recv [simp]: "feed_packet V p (with_recv q c) = feed_packet V p c"
  by (rule feed_packet_cong) simp_all

lemma with_recv_self: "recv_queue c = q \<Longrightarrow> with_recv q c = c"
  by (simp add: with_recv_def)

lemma read_packet_Cons: "recv_queue c = p # q \<Longrightarrow> conn_read_packet c = (Inr p, with_recv q c)"
  by (simp add: conn_read_packet_Cons with_recv_def)

text \<open>The connection once the result \<open>r\<close> is read.\<close>

definition with_result :: "'x mysql_result \<Rightarrow> 'x connection \<Rightarrow> 'x connection" where
  "with_result r c = c\<lparr>cn_server_status := (case mr_server_status r of Some s \<Rightarrow> s | None \<Rightarrow> cn_server_status c),
     cn_result := Some r\<rparr>"

text \<open>The receive queue as a source of packets; \<open>q\<close> is what follows the packets of interest.\<close>

definition queue_sees :: "mysql_packet list \<Rightarrow> bytes list \<Rightarrow> 'x connection \<Rightarrow> bool" where
  "queue_sees q ps c \<longleftrightarrow> recv_queue c = map packet_new ps @ q"

definition same_config :: "'x connection \<Rightarrow> 'x connection \<Rightarrow> bool" where
  "same_config c c' \<longleftrightarrow> with_recv [] c = with_recv [] c'"

definition store_result :: "'x mysql_result \<Rightarrow> ('x connection, int) rs" where
  "store_result r c = (Inr (mr_affected_rows r), with_result r c)"

interpretation queue_source: packet_source conn_read_packet "queue_sees q" same_config for q
proof unfold_locales
  show "\<exists>s'. conn_read_packet s = (Inr (packet_new p), s') \<and> queue_sees q ps s' \<and> same_config s s'"
    if "queue_sees q (p # ps) s" for p ps and s :: "'x connection"
    using that by (auto simp: queue_sees_def same_config_def read_packet_Cons)
qed (simp_all add: same_config_def)

interpretation queue_loop: result_loop conn_read_packet "queue_sees q" same_config V "\<lambda>c. c" "read_result_loop V" store_result
  for q and V :: "'x env"
proof unfold_locales
  fix s s' :: "'x connection" and p r r'
  assume "conn_read_packet s = (Inr p, s')" and "feed_packet V p s' r = (Inr FR_NeedMore, r')"
  then show "read_result_loop V r s = read_result_loop V r' s'" by (subst read_result_loop.simps) simp
next
  fix s s' :: "'x connection" and p r r' x
  assume "conn_read_packet s = (Inr p, s')" and "feed_packet V p s' r = (Inr x, r')" and "x \<noteq> FR_NeedMore"
  then show "read_result_loop V r s = store_result r' s'"
    by (subst read_result_loop.simps) (cases x; simp add: store_result_def with_result_def)
next
  fix s s' :: "'x connection" and p
  assume "same_config s s'"
  then show "feed_packet V p s' = feed_packet V p s"
    unfolding same_config_def using feed_packet_with_recv by metis
qed

lemma same_config_queue: "same_config c c' \<Longrightarrow> queue_sees q ps c' \<Longrightarrow> c' = with_recv (map packet_new ps @ q) c"
  unfolding same_config_def queue_sees_def by (metis with_recv_self with_recv_simps(2))

lemma read_result_loop_feed:
  assumes "feed_packets V c ps r = (Inr (x, rest), r')" and "x \<noteq> FR_NeedMore"
    and "recv_queue c = map packet_new ps @ q"
  shows "read_result_loop V r c = (Inr (mr_affected_rows r'),
    with_result r' (with_recv (map packet_new rest @ q) c))"
  using queue_loop.loop_feeds [OF assms(1,2), of q "[]" c] assms(3)
  by (auto simp: queue_sees_def same_config_def store_result_def dest!: same_config_queue [unfolded queue_sees_def same_config_def])

text \<open>Packets that do not complete the result are consumed and the result is lost.\<close>

lemma read_result_loop_partial:
  assumes "feed_packets V c ps r = (Inr (FR_NeedMore, []), r')"
    and "recv_queue c' = map packet_new ps" and "with_recv [] c' = with_recv [] c"
  shows "read_result_loop V r c' = (Inl (Fail NeedMoreData), with_recv [] c')"
  using assms
proof (induction ps arbitrary: r c')
  case Nil
  then show ?case by (subst read_result_loop.simps) (simp add: conn_read_packet_Nil with_recv_self)
next
  case (Cons p ps)
  obtain y r1 where f: "feed_packet V (packet_new p) c r = (Inr y, r1)"
    using Cons.prems(1) by (auto simp: bind_st_Inr_iff)
  then have y: "y = FR_NeedMore" "feed_packets V c ps r1 = (Inr (FR_NeedMore, []), r')"
    using Cons.prems(1) by (auto simp: bind_st_ok [where m = "feed_packet V (packet_new p) c"] ret_def split: if_splits)
  have "feed_packet V (packet_new p) c' = feed_packet V (packet_new p) c"
    using Cons.prems(3) feed_packet_with_recv by metis
  then have f': "feed_packet V (packet_new p) (with_recv (map packet_new ps) c') r = (Inr FR_NeedMore, r1)"
    using f y by simp
  have rd: "conn_read_packet c' = (Inr (packet_new p), with_recv (map packet_new ps) c')"
    using Cons.prems(2) by (simp add: read_packet_Cons)
  with Cons.IH [of r1 "with_recv (map packet_new ps) c'"] Cons.prems y f' show ?case
    by (subst read_result_loop.simps) simp
qed

text \<open>What \<open>read_query_result\<close> makes of a complete result set, and of the result it leaves behind.\<close>

lemma read_query_result_fresh:
  assumes "cn_result c = None \<or> (\<exists>r. cn_result c = Some r \<and> is_done r)"
  shows "core_read_query_result V u c = read_result_loop V (result_new\<lparr>mr_unbuffered_active := u\<rparr>) (c\<lparr>cn_result := None\<rparr>)"
  using assms by (auto simp: core_read_query_result_def st_simps Let_def is_initial_def result_new_def)

text \<open>A query's result set is returned as the server sent it.  When the packets of a result set are in the
  receive queue, \<open>read_query_result\<close> takes exactly those packets, leaves the following ones for the next
  result, and stores one row per row packet, each column decoded from its bytes, with the columns, the
  final status and the more-results flag of the server.\<close>

lemma read_query_result_delivers:
  assumes "list_all2 (\<lambda>d f. field_parse (env_encodings V) d (cn_encoding c) = Inr f) cols fs"
    and "cols \<noteq> []" and "length cols < 2 ^ 64" and "list_all (row_ok (length cols)) rows"
    and "recv_queue c = map packet_new (resultset_packets cols rows w1 s1 w2 s2) @ q" and "cn_result c = None"
  shows "\<exists>c' r. core_read_query_result V False c = (Inr 0, c') \<and> recv_queue c' = q \<and>
    cn_result c' = Some r \<and> mr_fields r = fs \<and> rows_of r = map (decode_row V c fs) rows \<and> is_done r \<and>
    mr_has_next r = bit s2 3 \<and> cn_server_status c' = s2"
proof -
  let ?r = "result_new\<lparr>mr_unbuffered_active := False\<rparr>"
  let ?ps = "resultset_packets cols rows w1 s1 w2 s2"
  let ?c = "c\<lparr>cn_result := None\<rparr>"
  obtain r' where r': "feed_packets V c (?ps @ []) ?r = (Inr (FR_Done, []), r')"
      "mr_fields r' = fs" "rows_of r' = map (decode_row V c fs) rows" "is_done r'" "mr_has_next r' = bit s2 3"
      "mr_server_status r' = Some s2" "mr_affected_rows r' = 0"
    using feed_resultset [OF assms(1-4), of ?r w1 s1 w2 s2 "[]"]
    by (auto simp: result_new_def is_done_def rows_of_def)
  have c: "?c = c" using assms(6) by simp
  have "core_read_query_result V False c = (Inr (mr_affected_rows r'), with_result r' (with_recv q c))"
    using read_query_result_fresh [of c V False] read_result_loop_feed [of V c ?ps ?r FR_Done "[]" r' q]
      r'(1) assms(5,6) c by simp
  with r' show ?thesis by (intro exI [of _ "with_result r' (with_recv q c)"] exI [of _ r']) (simp add: with_result_def)
qed

lemma sample_columns_ok:
  "list_all2 (\<lambda>d f. field_parse (env_encodings sample_env) d enc = Inr f) [sample_column] [sample_field]"
  "list_all (row_ok (Suc 0)) [[Some [52, 50]], [None]]"
  by (simp_all add: sample_env_def sample_column_parses row_ok_def text_row_def lenenc_string_def lenenc_int_def
      usize_max_def)

lemma decode_row_with_recv [simp]: "decode_row V (with_recv q c) = decode_row V c"
  by (rule ext)+ (simp only: decode_row_def build_converter_def field_encoding_def with_recv_simps)

lemma read_query_result_delivers_instance:
  "\<exists>q c' r. core_read_query_result sample_env False (with_recv q sample_conn) = (Inr 0, c') \<and>
     cn_result c' = Some r \<and> rows_of r = [[VInt 42], [VNull]]"
proof -
  let ?q = "map packet_new (resultset_packets [sample_column] [[Some [52, 50]], [None]] 0 2 0 2)"
  have "cn_result sample_conn = None" by (simp add: sample_conn_def connection_new_def)
  then show ?thesis
    using read_query_result_delivers [of sample_env "with_recv ?q sample_conn" "[sample_column]" "[sample_field]"
        "[[Some [52, 50]], [None]]" 0 2 0 2 "[]"] sample_columns_ok
    by (intro exI [of _ ?q]) (auto simp: sample_cells)
qed

text \<open>A result set whose packets have arrived in part is lost: \<open>read_query_result\<close> consumes the packets that
  are there, fails with \<open>NeedMoreData\<close> and keeps nothing of the result, so calling it again, as its
  documentation asks, starts in the middle of the result set.\<close>

lemma read_query_result_drops_partial:
  assumes "feed_packets V c ps (result_new\<lparr>mr_unbuffered_active := u\<rparr>) = (Inr (FR_NeedMore, []), r')"
    and "recv_queue c = map packet_new ps" and "cn_result c = None"
  shows "core_read_query_result V u c = (Inl (Fail NeedMoreData), with_recv [] c)"
proof -
  have c: "c\<lparr>cn_result := None\<rparr> = c" using assms(3) by simp
  have "core_read_query_result V u c = read_result_loop V (result_new\<lparr>mr_unbuffered_active := u\<rparr>) c"
    unfolding read_query_result_fresh [OF disjI1 [OF assms(3)]] c ..
  then show ?thesis using read_result_loop_partial [OF assms(1,2) refl] by simp
qed

lemma read_query_result_drops_partial_instance:
  "core_read_query_result sample_env False (with_recv [packet_new [1]] sample_conn) =
     (Inl (Fail NeedMoreData), with_recv [] sample_conn)"
proof -
  have "feed_packets sample_env (with_recv [packet_new [1]] sample_conn) [lenenc_int 1] (result_new\<lparr>mr_unbuffered_active := False\<rparr>) =
      (Inr (FR_NeedMore, []), snd (feed_packets sample_env sample_conn [lenenc_int 1] (result_new\<lparr>mr_unbuffered_active := False\<rparr>)))"
    by (simp add: bind_st_def feed_count result_new_def ret_def)
  moreover have "lenenc_int 1 = [1]" by (simp add: lenenc_int_def)
  ultimately show ?thesis
    using read_query_result_drops_partial [of sample_env "with_recv [packet_new [1]] sample_conn" "[[1]]" False]
    by (simp add: sample_conn_def connection_new_def)
qed

section \<open>Commands on the wire\<close>

text \<open>What reading results leaves unchanged.\<close>

definition wire_is :: "bytes list \<Rightarrow> bool \<Rightarrow> bool \<Rightarrow> 'x connection \<Rightarrow> bool" where
  "wire_is sq compressed closed c \<longleftrightarrow> ps_send_queue (cn_packet_stream c) = sq \<and>
     ps_compressed (cn_packet_stream c) = compressed \<and> cn_closed c = closed"

lemma wire_is_update [simp]:
  "wire_is sq z k (with_recv q c) = wire_is sq z k c"
  "wire_is sq z k (c\<lparr>cn_result := r\<rparr>) = wire_is sq z k c"
  "wire_is sq z k (c\<lparr>cn_server_status := st\<rparr>) = wire_is sq z k c"
  "wire_is sq z k (c\<lparr>cn_affected_rows := n\<rparr>) = wire_is sq z k c"
  by (simp_all add: wire_is_def with_recv_def)

lemma read_packet_wire:
  "conn_read_packet c = (x, c') \<Longrightarrow> wire_is sq z k c' = wire_is sq z k c"
  by (cases c rule: conn_read_packet_cases) (auto simp: wire_is_def)

lemma read_result_loop_wire:
  "read_result_loop V r c = (x, c') \<Longrightarrow> wire_is sq z k c' = wire_is sq z k c"
proof (induction "length (recv_queue c)" arbitrary: r c rule: less_induct)
  case less
  show ?case
  proof (cases c rule: conn_read_packet_cases)
    case empty
    with less.prems show ?thesis by (subst (asm) read_result_loop.simps) simp
  next
    case (packet p ps)
    obtain y r' where f: "feed_packet V p (with_recv ps c) r = (y, r')" by fastforce
    have rd: "conn_read_packet c = (Inr p, with_recv ps c)" using packet(1) by (rule read_packet_Cons)
    have "read_result_loop V r' (with_recv ps c) = (x, c') \<Longrightarrow> wire_is sq z k c' = wire_is sq z k (with_recv ps c)"
      by (rule less.hyps) (simp_all add: packet(1))
    with less.prems rd f show ?thesis
      by (subst (asm) read_result_loop.simps) (auto split: sum.splits feed_result.splits)
  qed
qed

lemma core_next_result_wire:
  "core_next_result V u c = (x, c') \<Longrightarrow> wire_is sq z k c' = wire_is sq z k c"
  by (auto simp: core_next_result_def core_read_query_result_def st_simps Let_def
      dest!: read_result_loop_wire split: prod.splits sum.splits if_splits option.splits)

lemma drain_results_wire:
  "drain_results V r c = (x, c') \<Longrightarrow> wire_is sq z k c' = wire_is sq z k c \<and>
    (x = Inr () \<longrightarrow> cn_result c = None \<longrightarrow> cn_result c' = None)"
proof (induction "length (recv_queue c)" arbitrary: r c rule: less_induct)
  case less
  obtain y c1 where n: "core_next_result V False c = (y, c1)" by fastforce
  have IH: "drain_results V r' (c1\<lparr>cn_result := None\<rparr>) = (x, c') \<Longrightarrow> y = Inr n \<Longrightarrow>
      wire_is sq z k c' = wire_is sq z k (c1\<lparr>cn_result := None\<rparr>) \<and> (x = Inr () \<longrightarrow> cn_result c' = None)" for r' n
    using less.hyps [of "c1\<lparr>cn_result := None\<rparr>" r'] core_next_result_shrinks [of V False c n c1] n by simp
  show ?case
    using less.prems n core_next_result_wire [OF n, of sq z k] IH
    by (subst (asm) drain_results.simps) (auto split: sum.splits option.splits if_splits)
qed

lemma finish_unbuffered_wire:
  "finish_unbuffered_query (r, c) = (x, (r', c')) \<Longrightarrow>
     wire_is sq z k c' = wire_is sq z k c \<and> cn_result c' = cn_result c"
proof (induction "length (recv_queue c)" arbitrary: r c rule: less_induct)
  case less
  show ?case
  proof (cases c rule: conn_read_packet_cases)
    case empty
    with less.prems show ?thesis by (subst (asm) finish_unbuffered_query.simps) (simp split: if_splits)
  next
    case (packet p ps)
    obtain y r1 where e: "check_packet_is_eof p r = (y, r1)" by fastforce
    have rd: "conn_read_packet c = (Inr p, with_recv ps c)" using packet(1) by (rule read_packet_Cons)
    have "finish_unbuffered_query (r2, with_recv ps c) = (x, (r', c')) \<Longrightarrow>
        wire_is sq z k c' = wire_is sq z k (with_recv ps c) \<and> cn_result c' = cn_result (with_recv ps c)" for r2
      by (rule less.hyps) (simp_all add: packet(1))
    with less.prems rd e show ?thesis
      by (subst (asm) finish_unbuffered_query.simps) (auto split: sum.splits if_splits)
  qed
qed

text \<open>What \<open>execute_command\<close> does with the result of the previous command.\<close>

definition finish_previous :: "'x env \<Rightarrow> ('x connection, unit) rs" where
  "finish_previous V =
     bind_st get_st (\<lambda>c. case cn_result c of
         None \<Rightarrow> ret ()
       | Some result \<Rightarrow>
           bind_st (modify_st (\<lambda>c. c\<lparr>cn_result := None\<rparr>)) (\<lambda>_.
           bind_st (\<lambda>c. if mr_unbuffered_active result
             then (case finish_unbuffered_query (result, c) of (x, (r, c')) \<Rightarrow> (map_sum id (\<lambda>_. r) x, c'))
             else (Inr result, c)) (\<lambda>r. drain_results V r)))"

lemma finish_previous_wire:
  assumes "finish_previous V c = (x, c')"
  shows "wire_is sq z k c' = wire_is sq z k c \<and> (x = Inr () \<longrightarrow> cn_result c' = None)"
proof (cases "cn_result c")
  case None
  with assms show ?thesis by (auto simp: finish_previous_def st_simps)
next
  case (Some result)
  let ?c = "c\<lparr>cn_result := None\<rparr>"
  obtain y r1 c1 where f: "finish_unbuffered_query (result, ?c) = (y, (r1, c1))" by (metis prod_cases3)
  have c1: "wire_is sq z k c1 = wire_is sq z k ?c" "cn_result c1 = None"
    using finish_unbuffered_wire [OF f] by simp_all
  show ?thesis
    using assms Some f c1
    by (auto simp: finish_previous_def st_simps split: if_splits sum.splits dest!: drain_results_wire [of _ _ _ _ _ sq z k])
qed

lemma core_execute_command_alt:
  "core_execute_command V command sql c =
     (if cn_closed c then err (InterfaceError 0 ''Connection is closed'') c
      else bind_st (finish_previous V) (\<lambda>_.
        bind_st (modify_st (\<lambda>c. c\<lparr>cn_packet_stream := ps_reset_seq_id (cn_packet_stream c)\<rparr>)) (\<lambda>_.
        conn_write_packet V (command # sql))) c)"
  by (simp add: core_execute_command_def finish_previous_def bind_st_def get_st_def)

lemma write_packet_plain:
  assumes "\<not> ps_compressed (cn_packet_stream c)"
  shows "conn_write_packet V p c = (Inr (), c\<lparr>cn_packet_stream := (cn_packet_stream c)\<lparr>
    ps_next_seq_id := seq_after (ps_next_seq_id (cn_packet_stream c)) p,
    ps_send_queue := ps_send_queue (cn_packet_stream c) @ [frames (ps_next_seq_id (cn_packet_stream c)) p]\<rparr>\<rparr>)"
  using assms
  by (simp add: conn_write_packet_def lift_ps_def ps_write_packet_def build_plain_packets_frames seq_after_def)

text \<open>Commands are kept apart.  Whatever result the previous command left unread, a command that
  \<open>execute_command\<close> accepts adds exactly one message to the send queue, the command byte and its argument
  framed from sequence number zero, and forgets the previous result; a command that fails, because the
  connection is closed or the previous result is incomplete, adds nothing.\<close>

lemma execute_command_sends:
  assumes "\<not> ps_compressed (cn_packet_stream c)" and "core_execute_command V command sql c = (x, c')"
  shows "ps_send_queue (cn_packet_stream c') = ps_send_queue (cn_packet_stream c) @
      (if x = Inr () then [frames 0 (command # sql)] else []) \<and>
    (x = Inr () \<longrightarrow> cn_result c' = None) \<and>
    (cn_closed c \<longrightarrow> x = Inl (Fail (InterfaceError 0 ''Connection is closed'')))"
proof (cases "cn_closed c")
  case True
  with assms(2) show ?thesis by (auto simp: core_execute_command_alt err_panic_apply)
next
  case False
  obtain y c1 where f: "finish_previous V c = (y, c1)" by fastforce
  have w: "wire_is (ps_send_queue (cn_packet_stream c)) False False c1" "y = Inr () \<longrightarrow> cn_result c1 = None"
    using finish_previous_wire [OF f, of "ps_send_queue (cn_packet_stream c)" False False] assms(1) False
    by (simp_all add: wire_is_def)
  show ?thesis
    using assms(2) False f w write_packet_plain [of "c1\<lparr>cn_packet_stream := ps_reset_seq_id (cn_packet_stream c1)\<rparr>"]
    by (auto simp: core_execute_command_alt st_simps wire_is_def ps_reset_seq_id_def split: sum.splits)
qed

lemma execute_command_sends_instance:
  "\<exists>c' :: int connection. core_execute_command sample_env COM_PING [] sample_conn = (Inr (), c') \<and>
     ps_send_queue (cn_packet_stream c') = [frames 0 [COM_PING]] \<and> cn_result c' = None"
proof -
  have c: "\<not> ps_compressed (cn_packet_stream sample_conn)" "ps_send_queue (cn_packet_stream sample_conn) = []"
      "\<not> cn_closed sample_conn" "cn_result sample_conn = None"
    by (simp_all add: sample_conn_def connection_new_def ps_new_def)
  then have "\<exists>c'. core_execute_command sample_env COM_PING [] sample_conn = (Inr (), c')"
    using write_packet_plain [of "sample_conn\<lparr>cn_packet_stream := ps_reset_seq_id (cn_packet_stream sample_conn)\<rparr>"]
    by (simp add: core_execute_command_alt finish_previous_def st_simps ps_reset_seq_id_def)
  then show ?thesis using execute_command_sends [OF c(1)] c(2) by fastforce
qed

section \<open>Literals in statements\<close>

lemma lex_doubled_quotes:
  assumes "rest = [] \<or> hd rest \<noteq> QUOTE"
  shows "lex_string False (replace_char QUOTE [QUOTE, QUOTE] s @ QUOTE # rest) = Some (s, rest)"
proof (induction s)
  case Nil
  then show ?case using assms by (simp add: replace_char_def lex_string_close)
next
  case (Cons c s)
  obtain d cs where "replace_char QUOTE [QUOTE, QUOTE] s @ QUOTE # rest = d # cs"
    by (cases "replace_char QUOTE [QUOTE, QUOTE] s") auto
  with Cons.IH lex_string_double_quote [of c d cs] show ?case by (auto simp: replace_char_def)
qed

text \<open>C11: Strings cannot leave their literal, in either SQL mode.  The connection renders a string so that the
  server, in the mode its last status announced and with a character set that reads the bytes of ASCII one by
  one, reads back exactly that string and goes on exactly behind the literal.\<close>

theorem literal_roundtrip:
  assumes "rest = [] \<or> hd rest \<noteq> QUOTE"
  shows "\<exists>text. literal V c (VString s) = Inr (QUOTE # text) \<and>
    lex_string (cn_server_status c AND SERVER_STATUS_NO_BACKSLASH_ESCAPES = 0) (text @ rest) = Some (s, rest)"
  using lex_doubled_quotes [OF assms] lex_escape_string [OF assms]
  by (auto simp: conn_escape_string_def quoted_def)

theorem literal_roundtrip_witness:
  "\<exists>text. literal sample_env (sample_conn\<lparr>cn_server_status := SERVER_STATUS_NO_BACKSLASH_ESCAPES\<rparr>) (VString [QUOTE]) =
       Inr (QUOTE # text) \<and> lex_string False (text @ '' AND 1'') = Some ([QUOTE], '' AND 1'')"
  using literal_roundtrip [of "'' AND 1''" sample_env "sample_conn\<lparr>cn_server_status := SERVER_STATUS_NO_BACKSLASH_ESCAPES\<rparr>"
      "[QUOTE]"] by simp

text \<open>C40: The same does not hold for strings inside a list.  Lists are rendered with backslash escapes whatever the
  mode is, so on a server with \<open>NO_BACKSLASH_ESCAPES\<close> a string that starts with a quote ends its own literal
  and the rest of the string is read as SQL.\<close>

theorem list_literal_broken:
  assumes "payload \<noteq> []" and "escape_string payload = payload" and "hd payload \<noteq> QUOTE"
  shows "literal V c (VList [VString (QUOTE # payload)]) = Inr (''('' @ QUOTE # (BACKSLASH # QUOTE # payload @ [QUOTE]) @ '')'') \<and>
    lex_string False ((BACKSLASH # QUOTE # payload @ [QUOTE]) @ '')'') = Some ([BACKSLASH], payload @ [QUOTE] @ '')'')"
proof -
  obtain d ds where "payload = d # ds" using assms(1) by (cases payload) auto
  with assms show ?thesis by (simp add: escape_item_def quoted_def escape_char_def)
qed

theorem list_literal_broken_witness:
  "literal sample_env sample_conn (VList [VString (QUOTE # '' OR 1=1 -- '')]) =
     Inr (''('' @ QUOTE # (BACKSLASH # QUOTE # '' OR 1=1 -- '' @ [QUOTE]) @ '')'') \<and>
   lex_string False ((BACKSLASH # QUOTE # '' OR 1=1 -- '' @ [QUOTE]) @ '')'') = Some ([BACKSLASH], '' OR 1=1 -- '' @ [QUOTE] @ '')'')"
  using list_literal_broken [of "'' OR 1=1 -- ''" sample_env sample_conn] by (simp add: escape_char_def)

end
