(* ===== verification/Core_Auth.thy ===== *)
theory Core_Auth
  imports Core_Connection
begin

text \<open>
  The authentication state machine of \<^verbatim>\<open>mysql-core/src/connection/auth.rs\<close>: the SSL request, the handshake
  response, and the reaction to each packet the server sends until it accepts or refuses.
\<close>

section \<open>The handshake response\<close>

text \<open>The 32 bytes that the SSL request and the handshake response start with.\<close>

definition response_head :: "u32 \<Rightarrow> u16 \<Rightarrow> bytes" where
  "response_head client_flags charset_id =
     to_le_bytes client_flags @ to_le_bytes (word_of_nat MAX_PACKET_LEN :: u32) @ [ucast charset_id] @ replicate 23 0"

definition connect_attrs :: "'x env \<Rightarrow> 'x connection \<Rightarrow> (string \<times> string) list" where
  "connect_attrs V c =
     [(''_client_name'', ''mysql''), (''_client_version'', env_pkg_version V), (''_pid'', dec (env_pid V))] @
     (case co_program_name (cn_options c) of Some n \<Rightarrow> [(''program_name'', n)] | None \<Rightarrow> [])"

definition encode_attrs :: "(string \<times> string) list \<Rightarrow> bytes" where
  "encode_attrs attrs = concat (map (\<lambda>(k, v).
     lenenc_int (length k) @ as_bytes k @ lenenc_int (length v) @ as_bytes v) attrs)"

definition encode_authresp :: "'x connection \<Rightarrow> bytes \<Rightarrow> error + bytes" where
  "encode_authresp c authresp =
     (if cn_server_capabilities c AND PLUGIN_AUTH_LENENC_CLIENT_DATA \<noteq> 0 then
        Inr (lenenc_int (length authresp) @ authresp)
      else if cn_server_capabilities c AND SECURE_CONNECTION \<noteq> 0 then
        (if 255 < length authresp then
           Inl (plugin_error (''auth response too long for SECURE_CONNECTION: '' @ dec (length authresp)))
         else Inr (word_of_nat (length authresp) # authresp))
      else Inr (authresp @ [0]))"

text \<open>The bytes of the handshake response, given the encoded authentication data.\<close>

definition auth_payload :: "'x env \<Rightarrow> u32 \<Rightarrow> u16 \<Rightarrow> bytes \<Rightarrow> 'x connection \<Rightarrow> bytes" where
  "auth_payload V client_flags charset_id authdata c =
     response_head client_flags charset_id @ as_bytes (co_user (cn_options c)) @ [0] @ authdata @
     (case co_database (cn_options c) of
        Some db \<Rightarrow> (if cn_server_capabilities c AND CONNECT_WITH_DB \<noteq> 0 then as_bytes db @ [0] else [])
      | None \<Rightarrow> []) @
     (if cn_server_capabilities c AND PLUGIN_AUTH \<noteq> 0 then plugin_as_bytes (cn_auth_plugin_name c) @ [0] else []) @
     (if cn_server_capabilities c AND CONNECT_ATTRS \<noteq> 0 then
        (let attrs = encode_attrs (env_attr_order V (connect_attrs V c))
         in lenenc_int (length attrs) @ attrs)
      else [])"

definition write_auth_packet :: "'x env \<Rightarrow> u32 \<Rightarrow> ('x connection, unit) rs" where
  "write_auth_packet V client_flags =
     bind_st get_st (\<lambda>c.
     case charset_by_name (env_lc V) (co_charset (cn_options c)) of
       None \<Rightarrow> err (unknown_charset (co_charset (cn_options c)))
     | Some charset_info \<Rightarrow>
         bind_st (lift_res (make_auth_response (env_crypto V) (cn_auth_plugin_name c) (co_password (cn_options c))
           (cn_salt c) (cn_secure c))) (\<lambda>authresp.
         bind_st (lift_err (encode_authresp c authresp)) (\<lambda>authdata.
         conn_write_packet V (auth_payload V client_flags (cs_id charset_info) authdata c))))"

definition set_phase :: "auth_phase \<Rightarrow> ('x connection, unit) rs" where
  "set_phase p = modify_st (\<lambda>c. c\<lparr>cn_auth_phase := p\<rparr>)"

definition request_authentication_start :: "'x env \<Rightarrow> ('x connection, auth_state) rs" where
  "request_authentication_start V =
     bind_st get_st (\<lambda>c.
     if co_user (cn_options c) = [] then err (ProgrammingError CR_MALFORMED_PACKET ''Did not specify a username'')
     else
       case charset_by_name (env_lc V) (co_charset (cn_options c)) of
         None \<Rightarrow> err (unknown_charset (co_charset (cn_options c)))
       | Some charset_info \<Rightarrow>
           (let server_ssl = (cn_server_capabilities c AND SSL \<noteq> 0)
            in if co_ssl_mode (cn_options c) = Required \<and> \<not> server_ssl then
                 err (OperationalError CR_SSL_CONNECTION_ERROR
                   ''SSL is required but the server doesn't support it'')
               else
                 (let do_ssl = (case co_ssl_mode (cn_options c) of
                        Disabled \<Rightarrow> False | Preferred \<Rightarrow> server_ssl | Required \<Rightarrow> True)
                  in if do_ssl then
                       bind_st (conn_write_packet V (response_head (cn_client_flag c OR SSL) (cs_id charset_info))) (\<lambda>_.
                       bind_st (modify_st (\<lambda>c. c\<lparr>cn_needs_tls_upgrade := True\<rparr>)) (\<lambda>_. ret Send))
                     else
                       bind_st (write_auth_packet V (cn_client_flag c)) (\<lambda>_.
                       bind_st (set_phase AP_Initial) (\<lambda>_. ret NeedRead)))))"

definition request_authentication_send_credentials :: "'x env \<Rightarrow> ('x connection, auth_state) rs" where
  "request_authentication_send_credentials V =
     bind_st get_st (\<lambda>c.
     bind_st (write_auth_packet V (cn_client_flag c OR SSL)) (\<lambda>_.
     bind_st (set_phase AP_Initial) (\<lambda>_. ret NeedRead)))"

section \<open>The server's packets\<close>

text \<open>A reader of a packet that is used further, and \<open>{:?}\<close> of a plugin and of an optional byte.\<close>

definition on_packet :: "(mysql_packet, 'a) rs \<Rightarrow> mysql_packet \<Rightarrow> ('s, 'a \<times> mysql_packet) rs" where
  "on_packet m p = (case m p of (Inl e, _) \<Rightarrow> throw e | (Inr x, p') \<Rightarrow> ret (x, p'))"

fun plugin_debug :: "'x env \<Rightarrow> auth_plugin \<Rightarrow> string" where
  "plugin_debug V MysqlNativePassword = ''MysqlNativePassword''"
| "plugin_debug V CachingSha2Password = ''CachingSha2Password''"
| "plugin_debug V Sha256Password = ''Sha256Password''"
| "plugin_debug V MysqlClearPassword = ''MysqlClearPassword''"
| "plugin_debug V MysqlOldPassword = ''MysqlOldPassword''"
| "plugin_debug V ClientEd25519 = ''ClientEd25519''"
| "plugin_debug V Dialog = ''Dialog''"
| "plugin_debug V (Other s) = ''Other('' @ env_debug_str V s @ '')''"

definition debug_first :: "bytes \<Rightarrow> string" where
  "debug_first d = (case first_byte d of Some b \<Rightarrow> ''Some('' @ dec (unat b) @ '')'' | None \<Rightarrow> ''None'')"

text \<open>\<open>if salt.ends_with(&[0]) { salt.pop(); }\<close> and the slice \<open>[1..]\<close>.\<close>

definition pop_zero :: "bytes \<Rightarrow> bytes" where
  "pop_zero salt = (if salt \<noteq> [] \<and> last salt = 0 then butlast salt else salt)"

definition from_second :: "bytes \<Rightarrow> ('s, bytes) rs" where
  "from_second d = (if d = [] then panic else ret (tl d))"

text \<open>The end of every branch that answers: queue the packet, set the phase, ask for sending.\<close>

definition reply :: "'x env \<Rightarrow> bytes \<Rightarrow> auth_phase \<Rightarrow> ('x connection, auth_state) rs" where
  "reply V d phase = bind_st (conn_write_packet V d) (\<lambda>_. bind_st (set_phase phase) (\<lambda>_. ret Send))"

definition process_auth_switch :: "'x env \<Rightarrow> mysql_packet \<Rightarrow> ('x connection, auth_state) rs" where
  "process_auth_switch V auth_packet =
     bind_st (run_reader read_all auth_packet) (\<lambda>rest.
     bind_st get_st (\<lambda>c.
     let salt = pop_zero rest; password = co_password (cn_options c)
     in case cn_auth_plugin_name c of
          MysqlNativePassword \<Rightarrow> reply V (scramble_native_password (env_crypto V) password salt) AP_Initial
        | CachingSha2Password \<Rightarrow> reply V (scramble_caching_sha2 (env_crypto V) password salt) AP_Initial
        | Sha256Password \<Rightarrow>
            bind_st (modify_st (\<lambda>c. c\<lparr>cn_salt := salt\<rparr>)) (\<lambda>_.
            if cn_secure c then reply V (password @ [0]) AP_Initial
            else if password = [] then reply V [0] AP_Initial
            else reply V [1] AP_Sha256Password)
        | MysqlClearPassword \<Rightarrow> reply V (password @ [0]) AP_Initial
        | _ \<Rightarrow> err (OperationalError CR_AUTH_PLUGIN_CANNOT_LOAD
            (''Authentication plugin '' @ plugin_debug V (cn_auth_plugin_name c) @ '' not configured''))))"

definition process_caching_sha2_fast :: "'x env \<Rightarrow> mysql_packet \<Rightarrow> ('x connection, auth_state) rs" where
  "process_caching_sha2_fast V auth_packet =
     (if is_error_packet auth_packet then err (raise_for_error auth_packet)
      else if \<not> is_extra_auth_data auth_packet then
        err (plugin_error (''caching sha2: Unknown packet for fast auth: '' @ debug_first (get_all_data auth_packet)))
      else
        bind_st (on_packet (advance 1) auth_packet) (\<lambda>(_, pkt).
        bind_st (on_packet read_uint8 pkt) (\<lambda>(n, pkt).
        if n = 3 then
          bind_st (lift_res (check_error pkt)) (\<lambda>_.
          bind_st (set_phase AP_CachingSha2FastSuccess) (\<lambda>_. ret NeedRead))
        else if n \<noteq> 4 then
          err (plugin_error (''caching sha2: Unknown result for fast auth: '' @ dec (unat n)))
        else
          bind_st get_st (\<lambda>c.
          if cn_secure c then reply V (co_password (cn_options c) @ [0]) AP_Initial
          else reply V [2] AP_CachingSha2PublicKey))))"

definition process_caching_sha2_public_key :: "'x env \<Rightarrow> mysql_packet \<Rightarrow> ('x connection, auth_state) rs" where
  "process_caching_sha2_public_key V pkt =
     (if is_error_packet pkt then err (raise_for_error pkt)
      else if \<not> is_extra_auth_data pkt then
        err (plugin_error (''caching sha2: Unknown packet for public key: '' @ debug_first (get_all_data pkt)))
      else
        bind_st (from_second (get_all_data pkt)) (\<lambda>key.
        bind_st (modify_st (\<lambda>c. c\<lparr>cn_server_public_key := Some key\<rparr>)) (\<lambda>_.
        bind_st get_st (\<lambda>c.
        bind_st (lift_err (sha2_rsa_encrypt (env_crypto V) (co_password (cn_options c)) (cn_salt c) key)) (\<lambda>d.
        reply V d AP_Initial)))))"

definition process_sha256_continue :: "'x env \<Rightarrow> mysql_packet \<Rightarrow> ('x connection, auth_state) rs" where
  "process_sha256_continue V auth_packet =
     bind_st get_st (\<lambda>c.
     let password = co_password (cn_options c)
     in if cn_auth_phase c = AP_Initial then
          bind_st (from_second (get_all_data auth_packet)) (\<lambda>salt.
          bind_st (modify_st (\<lambda>c. c\<lparr>cn_salt := pop_zero salt\<rparr>)) (\<lambda>_.
          if cn_secure c then reply V (password @ [0]) AP_Initial
          else if password \<noteq> [] then reply V [1] AP_Sha256Password
          else reply V [0] AP_Initial))
        else if is_error_packet auth_packet then err (raise_for_error auth_packet)
        else
          bind_st (if is_extra_auth_data auth_packet
            then bind_st (from_second (get_all_data auth_packet)) (\<lambda>key.
              modify_st (\<lambda>c. c\<lparr>cn_server_public_key := Some key\<rparr>))
            else ret ()) (\<lambda>_.
          bind_st get_st (\<lambda>c.
          bind_st (if password = [] then ret []
            else case cn_server_public_key c of
                None \<Rightarrow> err (plugin_error ''Couldn't receive server's public key'')
              | Some key \<Rightarrow> lift_err (sha2_rsa_encrypt (env_crypto V) password (cn_salt c) key)) (\<lambda>d.
          reply V d AP_Initial))))"

definition process_auth_initial :: "'x env \<Rightarrow> mysql_packet \<Rightarrow> ('x connection, auth_state) rs" where
  "process_auth_initial V auth_packet =
     (if is_auth_switch_request auth_packet then
        bind_st (on_packet read_uint8 auth_packet) (\<lambda>(_, pkt).
        bind_st (on_packet read_string pkt) (\<lambda>(name, pkt).
        bind_st (modify_st (\<lambda>c. c\<lparr>cn_auth_plugin_name :=
          plugin_from_bytes (case name of Some n \<Rightarrow> n | None \<Rightarrow> [])\<rparr>)) (\<lambda>_.
        process_auth_switch V pkt)))
      else if is_extra_auth_data auth_packet then
        bind_st get_st (\<lambda>c.
        case cn_auth_plugin_name c of
          CachingSha2Password \<Rightarrow> process_caching_sha2_fast V auth_packet
        | Sha256Password \<Rightarrow> process_sha256_continue V auth_packet
        | p \<Rightarrow> err (plugin_error (''Received extra packet for auth method '' @ plugin_debug V p)))
      else bind_st (lift_res (check_error auth_packet)) (\<lambda>_. ret Success))"

definition request_authentication_continue :: "'x env \<Rightarrow> ('x connection, auth_state) rs" where
  "request_authentication_continue V =
     bind_st conn_read_packet (\<lambda>auth_packet.
     bind_st get_st (\<lambda>c.
     case cn_auth_phase c of
       AP_Initial \<Rightarrow> process_auth_initial V auth_packet
     | AP_CachingSha2FastSuccess \<Rightarrow>
         (if \<not> is_ok_packet auth_packet then err (plugin_error ''caching sha2: expected OK packet after fast auth'')
          else
            bind_st (run_reader ok_from_packet auth_packet) (\<lambda>ok.
            bind_st (modify_st (\<lambda>c. c\<lparr>cn_server_status := ok_server_status ok, cn_auth_phase := AP_Initial\<rparr>)) (\<lambda>_.
            ret Success)))
     | AP_CachingSha2PublicKey \<Rightarrow> process_caching_sha2_public_key V auth_packet
     | AP_Sha256Password \<Rightarrow> process_sha256_continue V auth_packet))"

section \<open>No packet makes authentication panic\<close>

definition no_panic :: "fail + 'a \<Rightarrow> bool" where
  "no_panic r \<longleftrightarrow> r \<noteq> Inl Panic"

lemma no_panic_simps: "no_panic (Inr x)" "no_panic (Inl (Fail e))"
  by (simp_all add: no_panic_def)

lemma write_compressed_loop_no_panic: "no_panic (fst (write_compressed_loop Z plain offset st))"
proof (induction "length plain - offset" arbitrary: offset st rule: less_induct)
  case less
  show ?case
  proof (cases "offset < length plain")
    case True
    then have "length plain - min (offset + MAX_PACKET_LEN) (length plain) < length plain - offset"
      using MAX_PACKET_LEN_pos by auto
    then have IH: "no_panic (fst (write_compressed_loop Z plain (min (offset + MAX_PACKET_LEN) (length plain)) st'))" for st'
      by (rule less.hyps)
    show ?thesis
      by (subst write_compressed_loop.simps)
        (simp only: Let_def err_panic_apply split_beta IH no_panic_simps fst_conv simp_thms split: sum.split if_split)
  next
    case False
    then show ?thesis by (subst write_compressed_loop.simps) (simp add: no_panic_simps)
  qed
qed

lemma calm_write_packet [calm_intros]: "calm (conn_write_packet V d)"
  using write_compressed_loop_no_panic
  by (auto simp: calm_def conn_write_packet_def lift_ps_def ps_write_packet_def write_compressed_packet_def
      build_plain_packets_frames case_prod_unfold no_panic_def)

lemma calm_reply [calm_intros]: "calm (reply V d phase)" "calm (set_phase phase)"
  unfolding reply_def set_phase_def by (intro calm_intros)+

lemma calm_lift_err [calm_intros]: "calm (lift_err r)"
  by (cases r) (simp_all add: calm_def st_simps)

lemma calm_check_error [calm_intros]: "calm (lift_res (check_error p))"
  by (simp add: calm_def lift_res_def check_error_def)

lemma calm_on_packet:
  assumes "safe_reader m" and "pkt_wf p" and "\<And>x p'. pkt_wf p' \<Longrightarrow> calm (g x p')"
  shows "calm (bind_st (on_packet m p) (\<lambda>(x, p'). g x p'))"
proof -
  obtain r p' where m: "m p = (r, p')" by fastforce
  have "fst (m p) \<noteq> Inl Panic" "pkt_wf (snd (m p))" using assms(1,2) unfolding safe_reader_def by blast+
  then have "r \<noteq> Inl Panic" "pkt_wf p'" by (simp_all add: m)
  with m assms(3) show ?thesis by (cases r) (auto simp: calm_def on_packet_def st_simps)
qed

lemma calm_plugin_case [calm_intros]:
  assumes "calm m1" "calm m2" "calm m3" "calm m4" "calm m5" "calm m6" "calm m7" "\<And>s. calm (m8 s)"
  shows "calm (case plugin of MysqlNativePassword \<Rightarrow> m1 | CachingSha2Password \<Rightarrow> m2 | Sha256Password \<Rightarrow> m3
    | MysqlClearPassword \<Rightarrow> m4 | MysqlOldPassword \<Rightarrow> m5 | ClientEd25519 \<Rightarrow> m6 | Dialog \<Rightarrow> m7 | Other s \<Rightarrow> m8 s)"
  using assms by (cases plugin) simp_all

lemma calm_from_second: "d \<noteq> [] \<Longrightarrow> calm (from_second d)"
  by (simp add: from_second_def calm_basic)

lemma extra_not_empty: "is_extra_auth_data p \<Longrightarrow> get_all_data p \<noteq> []"
  by (auto simp: is_extra_auth_data_def get_all_data_def first_byte_def)

lemma calm_switch: "pkt_wf p \<Longrightarrow> calm (process_auth_switch V p)"
  unfolding process_auth_switch_def Let_def by (intro calm_intros safe_intros)

lemma calm_fast: "pkt_wf p \<Longrightarrow> calm (process_caching_sha2_fast V p)"
  unfolding process_caching_sha2_fast_def
  by (intro calm_if calm_on_packet safe_intros; (intro calm_intros)?)

lemma calm_public_key: "calm (process_caching_sha2_public_key V p)"
  unfolding process_caching_sha2_public_key_def
  by (cases "is_extra_auth_data p") (auto intro!: calm_intros calm_from_second dest: extra_not_empty)

text \<open>In the first phase \<open>process_sha256_continue\<close> is called with extra authentication data only.\<close>

lemma calm_get_at: "calm (f s) \<Longrightarrow> fst (bind_st get_st f s) \<noteq> Inl Panic"
  by (simp add: bind_get calmD)

lemma calm_sha256:
  assumes "is_extra_auth_data p \<or> cn_auth_phase c \<noteq> AP_Initial"
  shows "fst (process_sha256_continue V p c) \<noteq> Inl Panic"
  unfolding process_sha256_continue_def
  by (rule calm_get_at, unfold Let_def, intro calm_intros calm_from_second extra_not_empty) (use assms in simp_all)

lemma calm_initial:
  assumes "pkt_wf p"
  shows "calm (process_auth_initial V p)"
proof (cases "is_auth_switch_request p")
  case True
  show ?thesis
    unfolding process_auth_initial_def if_P [OF True]
    by (intro calm_on_packet safe_intros assms(1)) (auto intro!: calm_intros calm_switch)
next
  case switch: False
  show ?thesis
  proof (cases "is_extra_auth_data p")
    case True
    then have "calm (process_sha256_continue V p)" by (simp add: calm_def calm_sha256)
    then show ?thesis
      unfolding process_auth_initial_def if_not_P [OF switch] if_P [OF True]
      by (intro calm_plugin_case calm_intros calm_fast assms(1))
  next
    case False
    with switch show ?thesis by (simp add: calm_def process_auth_initial_def st_simps check_error_def)
  qed
qed

text \<open>C28: Authentication never panics.  Whatever packet the server sends in whatever phase, the reaction is an
  answer, a wait for the next packet, success or an error; no byte of the packet is read out of bounds.\<close>

theorem authentication_never_panics:
  assumes "\<forall>p \<in> set (recv_queue (c :: 'x connection)). pkt_wf p"
  shows "fst (request_authentication_continue V c) \<noteq> Inl Panic"
proof (cases c rule: conn_read_packet_cases)
  case empty
  then show ?thesis by (simp add: request_authentication_continue_def bind_st_def)
next
  case (packet p q)
  then have wf: "pkt_wf p" using assms by simp
  have ok: "calm (bind_st (run_reader ok_from_packet p) (\<lambda>ok. bind_st (modify_st (\<lambda>c :: 'x connection.
      c\<lparr>cn_server_status := ok_server_status ok, cn_auth_phase := AP_Initial\<rparr>)) (\<lambda>_. ret Success)))"
    by (intro calm_intros safe_wrappers wf)
  from packet wf show ?thesis
    by (cases "cn_auth_phase c")
      (simp_all add: request_authentication_continue_def bind_st_ok [where m = conn_read_packet, OF packet(2)] bind_get calmD [OF calm_initial]
        calm_sha256 calmD [OF calm_public_key] calmD [OF ok] err_panic_apply)
qed

theorem authentication_never_panics_witness:
  "fst (request_authentication_continue sample_env (with_recv [packet_new [0xFE, 0]] sample_conn)) \<noteq> Inl Panic"
  by (rule authentication_never_panics) simp

section \<open>What the server reads\<close>

text \<open>The handshake response as a server with plugins and length-coded responses reads it, up to the plugin name.\<close>

record login =
  l_flags :: u32
  l_max_packet :: u32
  l_charset :: u8
  l_user :: "bytes option"
  l_response :: "bytes option"
  l_database :: "bytes option"
  l_plugin :: "bytes option"

definition server_read_response :: "(mysql_packet, login) rs" where
  "server_read_response =
     bind_st read_uint32 (\<lambda>flags.
     bind_st read_uint32 (\<lambda>max_packet.
     bind_st read_uint8 (\<lambda>cs.
     bind_st (read 23) (\<lambda>_.
     bind_st read_string (\<lambda>user.
     bind_st read_length_coded_string (\<lambda>response.
     bind_st (if flags AND CONNECT_WITH_DB \<noteq> 0 then read_string else ret None) (\<lambda>db.
     bind_st read_string (\<lambda>plugin.
     ret \<lparr>l_flags = flags, l_max_packet = max_packet, l_charset = cs, l_user = user, l_response = response,
       l_database = db, l_plugin = plugin\<rparr>))))))))"

lemma bind_ret: "bind_st (ret x) f = f x"
  by (rule ext) (simp add: bind_st_def ret_def)

lemma server_reads:
  assumes "0 \<notin> set user" and "0 \<notin> set plugin" and "\<And>d. db = Some d \<Longrightarrow> 0 \<notin> set d"
    and "flags AND CONNECT_WITH_DB \<noteq> 0 \<longleftrightarrow> db \<noteq> None"
    and "d = response_head flags cs @ user @ [0] @ lenenc_int (length resp) @ resp @
      (case db of Some n \<Rightarrow> n @ [0] | None \<Rightarrow> []) @ plugin @ [0] @ tail"
    and "length d \<le> usize_max"
  shows "fst (server_read_response (packet_new d)) = Inr \<lparr>l_flags = flags, l_max_packet = word_of_nat MAX_PACKET_LEN,
    l_charset = ucast cs, l_user = Some user, l_response = Some resp, l_database = db, l_plugin = Some plugin\<rparr>"
proof -
  have resp: "lenenc_int (length resp) @ resp = lenenc_string (Some resp)" by (simp add: lenenc_string_def)
  have d: "d = to_le_bytes flags @ to_le_bytes (word_of_nat MAX_PACKET_LEN :: u32) @ [ucast cs] @ replicate 23 0 @
      (user @ [0]) @ lenenc_string (Some resp) @ (case db of Some n \<Rightarrow> n @ [0] | None \<Rightarrow> []) @ (plugin @ [0]) @ tail"
    unfolding assms(5) response_head_def resp [symmetric] by simp
  have fit: "fits [] d" using assms(6) by (simp add: fits_def)
  show ?thesis
  proof (cases db)
    case None
    then show ?thesis
      using assms(1-4) fit unfolding d
      by (simp add: server_read_response_def packet_new_cursor wire_then read_then bind_ret ret_def
          fits_def add.assoc del: replicate.simps)
  next
    case (Some n)
    then show ?thesis
      using assms(1-4) fit unfolding d
      by (simp add: server_read_response_def packet_new_cursor wire_then read_then bind_ret ret_def
          fits_def add.assoc del: replicate.simps)
  qed
qed

text \<open>The connection with one more message queued, in plain mode.\<close>

definition queued :: "bytes \<Rightarrow> 'x connection \<Rightarrow> 'x connection" where
  "queued d c = c\<lparr>cn_packet_stream := (cn_packet_stream c)\<lparr>
     ps_next_seq_id := seq_after (ps_next_seq_id (cn_packet_stream c)) d,
     ps_send_queue := ps_send_queue (cn_packet_stream c) @ [frames (ps_next_seq_id (cn_packet_stream c)) d]\<rparr>\<rparr>"

lemma conn_write_queued: "\<not> ps_compressed (cn_packet_stream c) \<Longrightarrow> conn_write_packet V d c = (Inr (), queued d c)"
  by (simp add: write_packet_plain queued_def)

lemma reply_queued:
  "\<not> ps_compressed (cn_packet_stream c) \<Longrightarrow> reply V d ph c = (Inr Send, (queued d c)\<lparr>cn_auth_phase := ph\<rparr>)"
  by (simp add: reply_def set_phase_def st_simps conn_write_queued)

text \<open>C26: The handshake response says what the options say.  A server that announces plugins, schemas at connect
  and length-coded responses decodes from the queued packet exactly the client flags, the packet limit, the
  character set, the user, the response of the authentication plugin, the database and the plugin name.\<close>

theorem handshake_response_roundtrip:
  assumes "\<not> ps_compressed (cn_packet_stream c)"
    and "charset_by_name (env_lc V) (co_charset (cn_options c)) = Some cs"
    and "make_auth_response (env_crypto V) (cn_auth_plugin_name c) (co_password (cn_options c)) (cn_salt c) (cn_secure c) = Inr resp"
    and "cn_server_capabilities c AND PLUGIN_AUTH_LENENC_CLIENT_DATA \<noteq> 0" "cn_server_capabilities c AND PLUGIN_AUTH \<noteq> 0"
      "cn_server_capabilities c AND CONNECT_WITH_DB \<noteq> 0"
    and "flags AND CONNECT_WITH_DB \<noteq> 0 \<longleftrightarrow> co_database (cn_options c) \<noteq> None"
    and "0 \<notin> set (as_bytes (co_user (cn_options c)))" "0 \<notin> set (plugin_as_bytes (cn_auth_plugin_name c))"
      "\<And>n. co_database (cn_options c) = Some n \<Longrightarrow> 0 \<notin> set (as_bytes n)"
    and "d = auth_payload V flags (cs_id cs) (lenenc_int (length resp) @ resp) c" "length d \<le> usize_max"
  shows "write_auth_packet V flags c = (Inr (), queued d c) \<and>
    fst (server_read_response (packet_new d)) = Inr \<lparr>l_flags = flags, l_max_packet = word_of_nat MAX_PACKET_LEN,
      l_charset = ucast (cs_id cs), l_user = Some (as_bytes (co_user (cn_options c))), l_response = Some resp,
      l_database = map_option as_bytes (co_database (cn_options c)),
      l_plugin = Some (plugin_as_bytes (cn_auth_plugin_name c))\<rparr>"
proof
  show "write_auth_packet V flags c = (Inr (), queued d c)"
    using assms(1-4,11) by (simp add: write_auth_packet_def encode_authresp_def st_simps conn_write_queued)
  show "fst (server_read_response (packet_new d)) = Inr \<lparr>l_flags = flags, l_max_packet = word_of_nat MAX_PACKET_LEN,
      l_charset = ucast (cs_id cs), l_user = Some (as_bytes (co_user (cn_options c))), l_response = Some resp,
      l_database = map_option as_bytes (co_database (cn_options c)),
      l_plugin = Some (plugin_as_bytes (cn_auth_plugin_name c))\<rparr>"
    using assms(5-10,12)
    by (intro server_reads [where tail = "if cn_server_capabilities c AND CONNECT_ATTRS \<noteq> 0 then
          (let attrs = encode_attrs (env_attr_order V (connect_attrs V c)) in lenenc_int (length attrs) @ attrs) else []"])
      (auto simp: assms(11) auth_payload_def split: option.splits)
qed

definition login_conn :: "int connection" where
  "login_conn = sample_conn\<lparr>cn_options := default_options\<lparr>co_user := ''u'', co_password := [1, 2]\<rparr>,
     cn_server_capabilities := 0x280008\<rparr>"

theorem handshake_response_roundtrip_witness:
  "\<exists>d l. write_auth_packet sample_env 0x280001 login_conn = (Inr (), queued d login_conn) \<and>
     fst (server_read_response (packet_new d)) = Inr l \<and> l_user l = Some [117] \<and>
     l_plugin l = Some (as_bytes ''mysql_native_password'')"
proof -
  let ?resp = "scramble_native_password plain_crypto [1, 2] []"
  let ?d = "auth_payload sample_env 0x280001 45 (lenenc_int (length ?resp) @ ?resp) login_conn"
  note conn = login_conn_def sample_conn_def connection_new_def default_options_def DEFAULT_CHARSET_def ps_new_def
  have len: "length ?resp = 20" by (simp add: scramble_native_length plain_crypto_lengths)
  have "length ?d \<le> usize_max"
    by (simp add: auth_payload_def response_head_def len lenenc_int_def byte_simps usize_max_def conn)
  moreover have "\<not> ps_compressed (cn_packet_stream login_conn)" "co_charset (cn_options login_conn) = ''utf8mb4''"
      "cn_auth_plugin_name login_conn = MysqlNativePassword" "co_password (cn_options login_conn) = [1, 2]"
      "cn_salt login_conn = []" "cn_server_capabilities login_conn = 0x280008"
      "co_database (cn_options login_conn) = None" "co_user (cn_options login_conn) = ''u''"
    by (simp_all add: conn)
  moreover have "env_lc sample_env = map ascii_lower" "env_crypto sample_env = plain_crypto"
    by (simp_all add: sample_env_def)
  moreover have "cs_id (mk_charset 45 ''utf8mb4'' ''utf8mb4_general_ci'' True) = 45" by (simp add: mk_charset_def)
  ultimately have "write_auth_packet sample_env 0x280001 login_conn = (Inr (), queued ?d login_conn)"
      "fst (server_read_response (packet_new ?d)) = Inr \<lparr>l_flags = 0x280001, l_max_packet = word_of_nat MAX_PACKET_LEN,
        l_charset = ucast (45 :: u16), l_user = Some (as_bytes ''u''), l_response = Some ?resp, l_database = None,
        l_plugin = Some (as_bytes ''mysql_native_password'')\<rparr>"
    using handshake_response_roundtrip [of login_conn sample_env _ ?resp "0x280001" ?d] utf8mb4_found
    by (simp_all add: as_bytes_def)
  then show ?thesis by (intro exI [of _ ?d]) (simp add: as_bytes_def)
qed

section \<open>Runs\<close>

text \<open>With TLS required nothing but the request for TLS leaves in clear.  When the start of the authentication
  succeeds under \<open>SslMode::Required\<close>, the only message it queues is the 32-byte SSL request, which carries no
  user name and no response, and the connection asks for the TLS upgrade.\<close>

lemma required_ssl_sends_no_credentials:
  assumes "\<not> ps_compressed (cn_packet_stream c)" and "co_ssl_mode (cn_options c) = Required"
    and "request_authentication_start V c = (Inr x, c')"
  shows "\<exists>cs. x = Send \<and> cn_needs_tls_upgrade c' \<and>
    c' = (queued (response_head (cn_client_flag c OR SSL) cs) c)\<lparr>cn_needs_tls_upgrade := True\<rparr> \<and>
    cn_server_capabilities c AND SSL \<noteq> 0"
  using assms
  by (auto simp: request_authentication_start_def st_simps conn_write_queued Let_def split: option.splits if_splits)

lemma required_ssl_sends_no_credentials_instance:
  "\<exists>x c'. request_authentication_start sample_env (login_conn\<lparr>cn_options := (cn_options login_conn)\<lparr>co_ssl_mode := Required\<rparr>,
       cn_server_capabilities := SSL\<rparr>) = (Inr x, c') \<and> x = Send \<and> cn_needs_tls_upgrade c'"
proof -
  let ?c = "login_conn\<lparr>cn_options := (cn_options login_conn)\<lparr>co_ssl_mode := Required\<rparr>, cn_server_capabilities := SSL\<rparr>"
  have c: "\<not> ps_compressed (cn_packet_stream ?c)" "co_ssl_mode (cn_options ?c) = Required"
      "co_user (cn_options ?c) = ''u''" "co_charset (cn_options ?c) = ''utf8mb4''" "cn_server_capabilities ?c = SSL"
    by (simp_all add: login_conn_def sample_conn_def connection_new_def default_options_def ps_new_def DEFAULT_CHARSET_def)
  then have "\<exists>x c'. request_authentication_start sample_env ?c = (Inr x, c')"
    using utf8mb4_found by (simp add: request_authentication_start_def st_simps conn_write_queued sample_env_def)
  then show ?thesis using required_ssl_sends_no_credentials [OF c(1,2)] by blast
qed

lemma switch_request_reads:
  assumes "0 \<notin> set name" and "7 \<le> length (name @ 0 # salt)" and "length (name @ 0 # salt) < usize_max"
  shows "process_auth_initial V (packet_new (0xFE # name @ 0 # salt)) c =
    process_auth_switch V (cursor_at (0xFE # name @ [0]) salt) (c\<lparr>cn_auth_plugin_name := plugin_from_bytes name\<rparr>)"
proof -
  let ?p = "packet_new (0xFE # name @ 0 # salt)"
  have p: "?p = cursor_at [] ([0xFE] @ (name @ [0]) @ salt)" by (simp add: packet_new_cursor)
  have fit: "fits [] ([0xFE] @ (name @ [0]) @ salt)" using assms(3) by (simp add: fits_def)
  have r1: "read_uint8 ?p = (Inr 0xFE, cursor_at [0xFE] ((name @ [0]) @ salt))"
    unfolding p using u8f.rd_enc [where x = "0xFE" and pre = "[]" and rest = "(name @ [0]) @ salt"] fit by simp
  have r2: "read_string (cursor_at [0xFE] ((name @ [0]) @ salt)) = (Inr (Some name), cursor_at ([0xFE] @ name @ [0]) salt)"
    using nulstrf.rd_enc [OF assms(1), where pre = "[0xFE]" and rest = salt] fit by (simp add: fits_def)
  have "is_auth_switch_request ?p"
    using assms(2) by (simp add: is_auth_switch_request_def packet_new_def first_byte_def)
  then show ?thesis
    using r1 r2 by (simp add: process_auth_initial_def on_packet_def st_simps)
qed

lemma read_all_cursor: "run_reader read_all (cursor_at pre rest) s = (Inr rest, s)"
  by (simp add: run_reader_def read_all_def cursor_at_def lift_res_def)

text \<open>C39: A server, or someone in between, that asks for \<open>mysql_clear_password\<close> gets the password: the client answers
  the switch request with the password itself, on a connection without TLS as well.\<close>

theorem clear_password_on_request:
  assumes "\<not> ps_compressed (cn_packet_stream c)" and "length salt < 2 ^ 24"
  shows "process_auth_initial V (packet_new (0xFE # as_bytes ''mysql_clear_password'' @ 0 # salt)) c =
    (Inr Send, (queued (co_password (cn_options c) @ [0]) (c\<lparr>cn_auth_plugin_name := MysqlClearPassword\<rparr>))\<lparr>cn_auth_phase := AP_Initial\<rparr>)"
proof -
  have "plugin_from_bytes (as_bytes ''mysql_clear_password'') = MysqlClearPassword"
    by (simp add: plugin_from_bytes_def)
  moreover have "0 \<notin> set (as_bytes ''mysql_clear_password'')" by (simp add: as_bytes_def)
  ultimately show ?thesis
    using assms
    by (simp add: switch_request_reads usize_max_def process_auth_switch_def read_all_cursor bind_st_def bind_get
        get_st_def reply_queued)
qed

theorem clear_password_on_request_witness:
  "\<exists>c'. process_auth_initial sample_env (packet_new (0xFE # as_bytes ''mysql_clear_password'' @ 0 # [])) login_conn = (Inr Send, c') \<and>
     \<not> cn_secure login_conn \<and> ps_send_queue (cn_packet_stream c') = [frames 0 [1, 2, 0]]"
  using clear_password_on_request [of login_conn "[]" sample_env]
  by (simp add: queued_def login_conn_def sample_conn_def connection_new_def default_options_def ps_new_def)

text \<open>Anything that is not recognised counts as success.  In the first phase a packet that is neither a switch
  request nor extra authentication data nor an error, an empty packet for instance, ends the authentication
  successfully without an OK packet.\<close>

lemma unrecognised_packet_accepted:
  assumes "first_byte d \<notin> {Some 1, Some 0xFE, Some 0xFF}"
  shows "process_auth_initial V (packet_new d) c = (Inr Success, c)"
  using assms
  by (simp add: process_auth_initial_def is_auth_switch_request_def is_extra_auth_data_def check_error_def
      is_error_packet_def packet_new_def st_simps)

lemma unrecognised_packet_accepted_instance:
  "process_auth_initial sample_env (packet_new []) sample_conn = (Inr Success, sample_conn)"
  by (rule unrecognised_packet_accepted) (simp add: first_byte_def)

text \<open>The reactions of one run, the packets being in the receive queue.\<close>

fun auth_run :: "nat \<Rightarrow> 'x env \<Rightarrow> ('x connection, auth_state list) rs" where
  "auth_run 0 V = ret []"
| "auth_run (Suc n) V =
     bind_st (request_authentication_continue V) (\<lambda>s. bind_st (auth_run n V) (\<lambda>ss. ret (s # ss)))"

lemma continue_with:
  "recv_queue c = p # q \<Longrightarrow> request_authentication_continue V c =
     (case cn_auth_phase c of
        AP_Initial \<Rightarrow> process_auth_initial V p (with_recv q c)
      | AP_CachingSha2FastSuccess \<Rightarrow>
          (if \<not> is_ok_packet p then err (plugin_error ''caching sha2: expected OK packet after fast auth'')
           else
             bind_st (run_reader ok_from_packet p) (\<lambda>ok.
             bind_st (modify_st (\<lambda>c. c\<lparr>cn_server_status := ok_server_status ok, cn_auth_phase := AP_Initial\<rparr>)) (\<lambda>_.
             ret Success))) (with_recv q c)
      | AP_CachingSha2PublicKey \<Rightarrow> process_caching_sha2_public_key V p (with_recv q c)
      | AP_Sha256Password \<Rightarrow> process_sha256_continue V p (with_recv q c))"
  unfolding request_authentication_continue_def
  by (subst bind_st_ok [where m = conn_read_packet, OF read_packet_Cons], assumption)
    (cases "cn_auth_phase c"; simp add: bind_get)

lemma fast_auth_four:
  assumes "\<not> ps_compressed (cn_packet_stream c)" and "\<not> cn_secure c"
  shows "process_caching_sha2_fast V (packet_new [1, 4]) c =
    (Inr Send, (queued [2] c)\<lparr>cn_auth_phase := AP_CachingSha2PublicKey\<rparr>)"
proof -
  have "advance 1 (packet_new [1, 4]) = (Inr (), \<lparr>pkt_position = 1, pkt_data = [1, 4]\<rparr>)"
    by (simp add: advance_def packet_new_def usize_max_def)
  moreover have "read_uint8 \<lparr>pkt_position = 1, pkt_data = [1, 4]\<rparr> = (Inr 4, \<lparr>pkt_position = 2, pkt_data = [1, 4]\<rparr>)"
    by (simp add: read_uint8_def read_def usize_max_def slice_of_def st_simps)
  ultimately show ?thesis
    using assms
    by (simp add: process_caching_sha2_fast_def is_error_packet_def is_extra_auth_data_def packet_new_def first_byte_def
        on_packet_def st_simps reply_queued)
qed

lemma public_key_answer:
  assumes "\<not> ps_compressed (cn_packet_stream c)"
    and "sha2_rsa_encrypt (env_crypto V) (co_password (cn_options c)) (cn_salt c) pem = Inr enc"
  shows "process_caching_sha2_public_key V (packet_new (1 # pem)) c =
    (Inr Send, (queued enc (c\<lparr>cn_server_public_key := Some pem\<rparr>))\<lparr>cn_auth_phase := AP_Initial\<rparr>)"
  using assms
  by (simp add: process_caching_sha2_public_key_def is_error_packet_def is_extra_auth_data_def packet_new_def
      first_byte_def get_all_data_def from_second_def st_simps reply_queued)

text \<open>C27: Full authentication with \<open>caching_sha2_password\<close> without TLS.  When the server asks for full authentication,
  sends its public key and then accepts, the client asks for the key, sends the password encrypted with that
  key under the current salt, never in clear, and succeeds; nothing else is sent.\<close>

theorem caching_sha2_full_auth:
  assumes "\<not> ps_compressed (cn_packet_stream c)" and "\<not> cn_secure c" and "cn_auth_phase c = AP_Initial"
    and "cn_auth_plugin_name c = CachingSha2Password"
    and "sha2_rsa_encrypt (env_crypto V) (co_password (cn_options c)) (cn_salt c) pem = Inr enc"
    and "recv_queue c = [packet_new [1, 4], packet_new (1 # pem), packet_new (0 # ok)]"
  shows "\<exists>c' s1 s2. auth_run 3 V c = (Inr [Send, Send, Success], c') \<and> recv_queue c' = [] \<and>
    ps_send_queue (cn_packet_stream c') = ps_send_queue (cn_packet_stream c) @ [frames s1 [2], frames s2 enc] \<and>
    cn_auth_phase c' = AP_Initial"
proof -
  let ?q = "[packet_new (1 # pem), packet_new (0 # ok)]"
  let ?c1 = "(queued [2] (with_recv ?q c))\<lparr>cn_auth_phase := AP_CachingSha2PublicKey\<rparr>"
  let ?c2 = "(queued enc ((with_recv [packet_new (0 # ok)] ?c1)\<lparr>cn_server_public_key := Some pem\<rparr>))\<lparr>cn_auth_phase := AP_Initial\<rparr>"
  have "\<not> is_auth_switch_request (packet_new [1, 4])" "is_extra_auth_data (packet_new [1, 4])"
    by (simp_all add: is_auth_switch_request_def is_extra_auth_data_def packet_new_def first_byte_def)
  then have "process_auth_initial V (packet_new [1, 4]) (with_recv ?q c) = (Inr Send, ?c1)"
    using assms(1,2,4) by (simp add: process_auth_initial_def bind_get fast_auth_four)
  then have 1: "request_authentication_continue V c = (Inr Send, ?c1)"
    using continue_with [OF assms(6)] assms(3) by simp
  have q1: "recv_queue ?c1 = packet_new (1 # pem) # [packet_new (0 # ok)]" by (simp add: queued_def with_recv_def)
  have "process_caching_sha2_public_key V (packet_new (1 # pem)) (with_recv [packet_new (0 # ok)] ?c1) = (Inr Send, ?c2)"
    using assms(1,5) by (intro public_key_answer) (simp_all add: queued_def)
  then have 2: "request_authentication_continue V ?c1 = (Inr Send, ?c2)"
    using continue_with [OF q1] by simp
  have q2: "recv_queue ?c2 = packet_new (0 # ok) # []" by (simp add: queued_def with_recv_def)
  have "process_auth_initial V (packet_new (0 # ok)) (with_recv [] ?c2) = (Inr Success, with_recv [] ?c2)"
    by (simp add: process_auth_initial_def is_auth_switch_request_def is_extra_auth_data_def check_error_def
      is_error_packet_def packet_new_def first_byte_def st_simps)
  then have 3: "request_authentication_continue V ?c2 = (Inr Success, with_recv [] ?c2)"
    using continue_with [OF q2] by simp
  have "auth_run 3 V c = (Inr [Send, Send, Success], with_recv [] ?c2)"
    by (simp only: numeral_3_eq_3 auth_run.simps bind_st_def 1 2 3 prod.case sum.case ret_def)
  then show ?thesis by (intro exI [of _ "with_recv [] ?c2"] exI) (auto simp: queued_def)
qed

theorem caching_sha2_full_auth_witness:
  "\<exists>c' :: int connection. \<exists>c ok. auth_run 3 sample_env c = (Inr [Send, Send, Success], c') \<and>
     recv_queue c = [packet_new [1, 4], packet_new [1], packet_new (0 # ok)]"
proof -
  let ?c = "with_recv [packet_new [1, 4], packet_new [1], packet_new [0]] (login_conn\<lparr>cn_auth_plugin_name := CachingSha2Password\<rparr>)"
  have "sha2_rsa_encrypt (env_crypto sample_env) (co_password (cn_options ?c)) (cn_salt ?c) [] =
      Inr (xor_password (co_password (cn_options ?c)) (cn_salt ?c) @ [0])"
    by (simp add: sha2_rsa_encrypt_def parse_public_key_pem_def sample_env_def plain_crypto_def)
  then show ?thesis
    using caching_sha2_full_auth [of ?c sample_env "[]" _ "[]"]
    by (fastforce simp: login_conn_def sample_conn_def connection_new_def ps_new_def)
qed

end
