(* ===== verification/Client_Net.thy ===== *)
theory Client_Net
  imports Core_Auth
begin

text \<open>
  The I/O layer of \<^verbatim>\<open>mysql/src/connection.rs\<close>: the client is the sans-I/O connection, the stream and the flag of
  an abandoned transaction.  The network is part of its state: what the following reads deliver, what has
  been written, and the outcomes of the following writes and flushes (an exhausted list stands for writes
  that succeed; a write that fails has written some of its bytes).  A read when nothing is left to deliver blocks for ever (\<open>Blocked\<close>).
\<close>

section \<open>State\<close>

datatype connection_stream = PlainStream | TlsStream | UnixStream

text \<open>A read delivers bytes, none at the end of the stream, or fails with an error text.\<close>

datatype read_event = Recv bytes | ReadErr string

text \<open>A write or a flush succeeds, or fails with an error text; \<open>write_all\<close> may have written some bytes before it fails.\<close>

type_synonym write_outcome = "(nat \<times> string) option"

record 'x client =
  cl_inner :: "'x connection"
  cl_stream :: "connection_stream option"
  cl_transaction_dirty :: bool
  cl_in :: "read_event list"
  cl_out :: bytes
  cl_wfail :: "write_outcome list"

definition lift_inner :: "('x connection, 'a) rs \<Rightarrow> ('x client, 'a) rs" where
  "lift_inner m k = (case m (cl_inner k) of (r, c) \<Rightarrow> (r, k\<lparr>cl_inner := c\<rparr>))"

section \<open>Reads and writes\<close>

definition READ_BUF :: nat where
  "READ_BUF = 4096"

text \<open>One read of at most \<open>READ_BUF\<close> bytes; the result is the \<open>io::Result\<close>.\<close>

definition client_read :: "('x client, string + bytes) rs" where
  "client_read k =
     (case cl_stream k of
        None \<Rightarrow> (Inr (Inl ''No stream available''), k)
      | Some _ \<Rightarrow>
          (case cl_in k of
             [] \<Rightarrow> blocked k
           | ReadErr e # es \<Rightarrow> (Inr (Inl e), k\<lparr>cl_in := es\<rparr>)
           | Recv d # es \<Rightarrow>
               (Inr (Inr (take READ_BUF d)),
                k\<lparr>cl_in := (if length d \<le> READ_BUF then es else Recv (drop READ_BUF d) # es)\<rparr>)))"

text \<open>The outcome of the next write or flush.\<close>

definition io_outcome :: "'x client \<Rightarrow> write_outcome \<times> 'x client" where
  "io_outcome k = (case cl_wfail k of [] \<Rightarrow> (None, k) | f # fs \<Rightarrow> (f, k\<lparr>cl_wfail := fs\<rparr>))"

definition no_stream :: error where
  "no_stream = InterfaceError CR_NULL_POINTER ''No stream available''"

definition gone_away :: "string \<Rightarrow> error" where
  "gone_away e = OperationalError CR_SERVER_GONE_ERROR (''MySQL server has gone away ('' @ e @ '')'')"

definition client_write_all :: "bytes \<Rightarrow> ('x client, unit) rs" where
  "client_write_all d k =
     (case cl_stream k of
        None \<Rightarrow> err no_stream k
      | Some _ \<Rightarrow>
          (case io_outcome k of
             (None, k') \<Rightarrow> (Inr (), k'\<lparr>cl_out := cl_out k' @ d\<rparr>)
           | (Some (n, e), k') \<Rightarrow>
               err (gone_away e) (k'\<lparr>cl_inner := core_force_close (cl_inner k'), cl_out := cl_out k' @ take n d\<rparr>)))"

definition client_flush :: "('x client, unit) rs" where
  "client_flush k =
     (case cl_stream k of
        None \<Rightarrow> err no_stream k
      | Some _ \<Rightarrow>
          (case io_outcome k of
             (None, k') \<Rightarrow> (Inr (), k')
           | (Some (_, e), k') \<Rightarrow> err (gone_away e) (k'\<lparr>cl_inner := core_force_close (cl_inner k')\<rparr>)))"

definition drop_stream :: "'x client \<Rightarrow> 'x client" where
  "drop_stream k = k\<lparr>cl_inner := core_force_close (cl_inner k), cl_stream := None\<rparr>"

definition lost_connection :: "string \<Rightarrow> error" where
  "lost_connection suffix = OperationalError CR_SERVER_LOST (''Lost connection to MySQL server during query'' @ suffix)"

section \<open>The pumps\<close>

lemma pop_send_queue_shrinks:
  "pop_send_queue c = (Some d, c') \<Longrightarrow>
     length (ps_send_queue (cn_packet_stream c')) < length (ps_send_queue (cn_packet_stream c))"
  by (auto simp: pop_send_queue_def split: list.splits)

lemma client_write_all_inner: "client_write_all d k = (Inr u, k') \<Longrightarrow> cl_inner k' = cl_inner k"
  by (auto simp: client_write_all_def io_outcome_def err_panic_apply split: option.splits list.splits prod.splits)

function pump_write_loop :: "('x client, unit) rs" where
  "pump_write_loop k =
     (case pop_send_queue (cl_inner k) of
        (None, _) \<Rightarrow> (Inr (), k)
      | (Some d, c) \<Rightarrow>
          (case client_write_all d (k\<lparr>cl_inner := c\<rparr>) of
             (Inl e, k') \<Rightarrow> (Inl e, k')
           | (Inr _, k') \<Rightarrow> pump_write_loop k'))"
  by pat_completeness auto
termination
proof (relation "measure (\<lambda>k. length (ps_send_queue (cn_packet_stream (cl_inner k))))", goal_cases)
  case (2 k x c d y k' z)
  then show ?case
    using pop_send_queue_shrinks [of "cl_inner k" d c] client_write_all_inner [of d "k\<lparr>cl_inner := c\<rparr>" z k'] by simp
qed simp

declare pump_write_loop.simps [simp del]

definition pump_write :: "('x client, unit) rs" where
  "pump_write = bind_st pump_write_loop (\<lambda>_. client_flush)"

text \<open>How much is left to be read, for the termination of the reading loops.\<close>

definition event_size :: "read_event \<Rightarrow> nat" where
  "event_size ev = (case ev of Recv d \<Rightarrow> Suc (length d) | ReadErr _ \<Rightarrow> 1)"

definition net_size :: "'x client \<Rightarrow> nat" where
  "net_size k = sum_list (map event_size (cl_in k))"

lemma client_read_shrinks:
  "client_read k = (Inr (Inr d), k') \<Longrightarrow> net_size k' < net_size k"
  by (auto simp: client_read_def net_size_def event_size_def blocked_def throw_def READ_BUF_def
      split: option.splits list.splits read_event.splits if_splits)

lemma lift_inner_net:
  "lift_inner m k = (x, k') \<Longrightarrow> net_size k' = net_size k"
  by (auto simp: lift_inner_def net_size_def split: prod.splits)

function pump_read :: "'x env \<Rightarrow> ('x client, unit) rs" where
  "pump_read V k =
     (case client_read k of
        (Inl e, k') \<Rightarrow> (Inl e, k')
      | (Inr (Inl e), k') \<Rightarrow> err (lost_connection ('' ('' @ e @ '')'')) (drop_stream k')
      | (Inr (Inr d), k') \<Rightarrow>
          (if d = [] then err (lost_connection []) (drop_stream k')
           else
             (case lift_inner (conn_feed_bytes V d) k' of
                (Inl e, k'') \<Rightarrow> (Inl e, k'')
              | (Inr added, k'') \<Rightarrow> (if 0 < added then (Inr (), k'') else pump_read V k''))))"
  by pat_completeness auto
termination
proof (relation "measure (\<lambda>(_, k). net_size k)", goal_cases)
  case (2 V k x k' y d z k'' added)
  then show ?case
    using client_read_shrinks [of k d k'] lift_inner_net [of "conn_feed_bytes V d" k' z k''] by simp
qed simp

declare pump_read.simps [simp del]

lemma pump_read_shrinks: "pump_read V k = (Inr u, k') \<Longrightarrow> net_size k' < net_size k"
proof (induction "net_size k" arbitrary: k rule: less_induct)
  case less
  obtain r k1 where r: "client_read k = (r, k1)" by fastforce
  show ?case
  proof (cases "\<exists>d. r = Inr (Inr d) \<and> d \<noteq> []")
    case True
    then obtain d where d: "r = Inr (Inr d)" "d \<noteq> []" by blast
    obtain x k2 where x: "lift_inner (conn_feed_bytes V d) k1 = (x, k2)" by fastforce
    have sz: "net_size k2 < net_size k"
      using client_read_shrinks [of k d k1] r d lift_inner_net [OF x] by simp
    have "pump_read V k2 = (Inr u, k') \<Longrightarrow> net_size k' < net_size k2" by (rule less.hyps [OF sz])
    with less.prems r d x sz show ?thesis
      by (subst (asm) pump_read.simps) (auto split: sum.splits if_splits)
  next
    case False
    with less.prems r show ?thesis
      by (subst (asm) pump_read.simps) (auto simp: err_panic_apply split: sum.splits if_splits)
  qed
qed

function client_read_packet :: "'x env \<Rightarrow> ('x client, mysql_packet) rs" where
  "client_read_packet V k =
     (case lift_inner conn_read_packet k of
        (Inr packet, k') \<Rightarrow> (Inr packet, k')
      | (Inl (Fail NeedMoreData), k') \<Rightarrow>
          (case pump_read V k' of
             (Inl e, k'') \<Rightarrow> (Inl e, k'')
           | (Inr _, k'') \<Rightarrow> client_read_packet V k'')
      | (Inl e, k') \<Rightarrow> (Inl e, k'))"
  by pat_completeness auto
termination
proof (relation "measure (\<lambda>(_, k). net_size k)", goal_cases)
  case (2 V k x k' e y z k'' u)
  then show ?case
    using pump_read_shrinks [of V k' u k''] lift_inner_net [of conn_read_packet k x k'] by (auto split: if_splits)
qed simp

declare client_read_packet.simps [simp del]

section \<open>What the client sees of the network\<close>

text \<open>
  The client sees the payloads \<open>ps\<close>: the first of them are queued, the others are the bytes buffered and the
  bytes the following reads deliver, cut anywhere.  \<open>es\<close> is what comes after them and \<open>fin\<close> the sequence number
  expected then.
\<close>

definition client_sees :: "u8 \<Rightarrow> bytes list \<Rightarrow> read_event list \<Rightarrow> 'x client \<Rightarrow> bool" where
  "client_sees fin ps es k \<longleftrightarrow>
     (let st = cn_packet_stream (cl_inner k)
      in cl_stream k \<noteq> None \<and> plain_idle st \<and>
         (\<exists>qs rest segs. ps = qs @ rest \<and> ps_recv_queue st = map packet_new qs \<and>
            cl_in k = map Recv segs @ es \<and> [] \<notin> set segs \<and> (rest = [] \<longleftrightarrow> segs = []) \<and>
            ps_recv_buffer st @ concat segs = stream_of (ps_next_seq_id st) rest \<and>
            foldl seq_after (ps_next_seq_id st) rest = fin \<and> deliverable (ps_max_allowed_packet st) rest))"

text \<open>Receiving changes the receiving side of the packet stream and the network only.\<close>

definition receives :: "'x client \<Rightarrow> 'x client \<Rightarrow> bool" where
  "receives k k' \<longleftrightarrow> (\<exists>s q b ev. k' = k\<lparr>cl_inner := (cl_inner k)\<lparr>cn_packet_stream :=
     (cn_packet_stream (cl_inner k))\<lparr>ps_next_seq_id := s, ps_recv_queue := q, ps_recv_buffer := b\<rparr>\<rparr>, cl_in := ev\<rparr>)"

lemma receives_refl [simp]: "receives k k"
proof -
  let ?st = "cn_packet_stream (cl_inner k)"
  have "?st\<lparr>ps_next_seq_id := ps_next_seq_id ?st, ps_recv_queue := ps_recv_queue ?st, ps_recv_buffer := ps_recv_buffer ?st\<rparr> = ?st"
    by simp
  then have "k = k\<lparr>cl_inner := (cl_inner k)\<lparr>cn_packet_stream := ?st\<lparr>ps_next_seq_id := ps_next_seq_id ?st,
      ps_recv_queue := ps_recv_queue ?st, ps_recv_buffer := ps_recv_buffer ?st\<rparr>\<rparr>, cl_in := cl_in k\<rparr>"
    by simp
  then show ?thesis unfolding receives_def by blast
qed

lemma receives_trans: "receives k k' \<Longrightarrow> receives k' k'' \<Longrightarrow> receives k k''"
  unfolding receives_def by (elim exE, simp only:, intro exI) simp

lemma receivesI:
  "receives k (k\<lparr>cl_inner := (cl_inner k)\<lparr>cn_packet_stream := (cn_packet_stream (cl_inner k))\<lparr>ps_next_seq_id := s,
     ps_recv_queue := q, ps_recv_buffer := b\<rparr>\<rparr>, cl_in := ev\<rparr>)"
  by (auto simp: receives_def)

lemma receives_sel:
  assumes "receives k k'"
  shows "cl_stream k' = cl_stream k" "cl_out k' = cl_out k" "cl_wfail k' = cl_wfail k"
    "cl_transaction_dirty k' = cl_transaction_dirty k"
    "\<exists>st. cl_inner k' = (cl_inner k)\<lparr>cn_packet_stream := st\<rparr> \<and> ps_send_queue st = ps_send_queue (cn_packet_stream (cl_inner k)) \<and>
       ps_compressed st = ps_compressed (cn_packet_stream (cl_inner k))"
  using assms by (auto simp: receives_def)

lemma fold_push_packet_eq:
  "fold push_packet ps st = st\<lparr>ps_next_seq_id := ps_next_seq_id (fold push_packet ps st),
     ps_recv_queue := ps_recv_queue st @ map packet_new ps\<rparr>"
proof (induction ps arbitrary: st)
  case (Cons p ps)
  show ?case
    by (simp only: fold_simps, subst Cons.IH) (simp add: push_packet_def)
qed simp

lemma fold_push_packet_seq [simp]: "ps_next_seq_id (fold push_packet ps st) = foldl seq_after (ps_next_seq_id st) ps"
  by (induction ps arbitrary: st) (simp_all add: push_packet_def)

lemma feed_chunk:
  assumes "plain_idle st" and "ps_recv_buffer st @ d @ concat ds = stream_of (ps_next_seq_id st) ps"
    and "deliverable (ps_max_allowed_packet st) ps"
  shows "\<exists>ps1 ps2 r. ps = ps1 @ ps2 \<and>
    ps_feed_bytes Z d st = (Inr (length ps1), (fold push_packet ps1 st)\<lparr>ps_recv_buffer := r\<rparr>) \<and>
    r @ concat ds = stream_of (ps_next_seq_id (fold push_packet ps1 st)) ps2 \<and> (ds = [] \<longrightarrow> ps2 = [])"
proof -
  let ?st = "st\<lparr>ps_recv_buffer := ps_recv_buffer st @ d\<rparr>"
  have f: "ps_feed_bytes Z d st = parse_received ?st" by (rule ps_feed_bytes_plain [OF assms(1)])
  show ?thesis
  proof (cases "ds = []")
    case True
    then have "parse_received ?st = (Inr (length ps), (fold push_packet ps ?st)\<lparr>ps_recv_buffer := []\<rparr>)"
      using assms(2,3) by (intro parse_received_stream) (auto simp: deliverable_def list_all_iff)
    with True f show ?thesis
      by (intro exI [of _ ps] exI [of _ "[]"]) (simp add: fold_push_packet_recv_buffer)
  next
    case False
    from parse_received_prefix [of ?st "concat ds" ps] assms(2,3) obtain ps1 ps2 r where
      "ps = ps1 @ ps2" "parse_received ?st = (Inr (length ps1), (fold push_packet ps1 ?st)\<lparr>ps_recv_buffer := r\<rparr>)"
      "r @ concat ds = stream_of (ps_next_seq_id (fold push_packet ps1 ?st)) ps2"
      by auto
    with False f show ?thesis
      by (intro exI [of _ ps1] exI [of _ ps2] exI [of _ r]) (simp add: fold_push_packet_recv_buffer)
  qed
qed

lemma client_read_chunk:
  assumes "cl_stream k \<noteq> None" and "cl_in k = map Recv (d # ds) @ es"
  shows "client_read k = (Inr (Inr (take READ_BUF d)),
    k\<lparr>cl_in := map Recv (if length d \<le> READ_BUF then ds else drop READ_BUF d # ds) @ es\<rparr>)"
  using assms by (auto simp: client_read_def split: option.splits)

lemma pump_read_sees:
  assumes "client_sees fin ps es k" and "recv_queue (cl_inner k) = []" and "ps \<noteq> []"
  shows "\<exists>k'. pump_read V k = (Inr (), k') \<and> client_sees fin ps es k' \<and> recv_queue (cl_inner k') \<noteq> [] \<and> receives k k'"
  using assms
proof (induction "net_size k" arbitrary: k rule: less_induct)
  case less
  let ?st = "cn_packet_stream (cl_inner k)"
  obtain segs where s: "cl_stream k \<noteq> None" "plain_idle ?st" "cl_in k = map Recv segs @ es" "[] \<notin> set segs"
      "segs \<noteq> []" "ps_recv_buffer ?st @ concat segs = stream_of (ps_next_seq_id ?st) ps"
      "deliverable (ps_max_allowed_packet ?st) ps" "foldl seq_after (ps_next_seq_id ?st) ps = fin"
    using less.prems by (auto simp: client_sees_def Let_def)
  then obtain d ds where segs: "segs = d # ds" "d \<noteq> []" by (cases segs) auto
  define ds' where "ds' = (if length d \<le> READ_BUF then ds else drop READ_BUF d # ds)"
  let ?d = "take READ_BUF d"
  let ?k1 = "k\<lparr>cl_in := map Recv ds' @ es\<rparr>"
  have rd: "client_read k = (Inr (Inr ?d), ?k1)"
    using client_read_chunk [OF s(1), of d ds es] s(3) by (simp add: segs ds'_def)
  have ne: "?d \<noteq> []" using segs(2) by (simp add: READ_BUF_def)
  have ds': "concat segs = ?d @ concat ds'" "[] \<notin> set ds'"
    using s(4) by (auto simp: segs ds'_def)
  obtain ps1 ps2 r where f: "ps = ps1 @ ps2" "r @ concat ds' = stream_of (ps_next_seq_id (fold push_packet ps1 ?st)) ps2"
      "ps_feed_bytes (env_zlib V) ?d ?st = (Inr (length ps1), (fold push_packet ps1 ?st)\<lparr>ps_recv_buffer := r\<rparr>)"
      "ds' = [] \<longrightarrow> ps2 = []"
    using feed_chunk [of ?st ?d ds' ps "env_zlib V"] s(2,6,7) ds'(1) by auto
  let ?st2 = "(fold push_packet ps1 ?st)\<lparr>ps_recv_buffer := r\<rparr>"
  let ?k2 = "k\<lparr>cl_inner := (cl_inner k)\<lparr>cn_packet_stream := ?st2\<rparr>, cl_in := map Recv ds' @ es\<rparr>"
  have fed: "lift_inner (conn_feed_bytes V ?d) ?k1 = (Inr (length ps1), ?k2)"
    using f(3) by (simp add: lift_inner_def conn_feed_bytes_def lift_ps_def)
  have "ds' \<noteq> [] \<Longrightarrow> ps2 \<noteq> []" using f(2) ds'(2) by (cases ds') auto
  then have sees: "client_sees fin ps es ?k2"
    using s less.prems(2) f ds'(2) unfolding client_sees_def Let_def
    by (intro conjI exI [of _ ps1] exI [of _ ps2] exI [of _ ds'])
      (auto simp: plain_idle_def deliverable_def fold_push_packet_seq)
  have rec: "receives k ?k2"
    by (subst fold_push_packet_eq) (rule receivesI)
  show ?case
  proof (cases "ps1 = []")
    case False
    then have "pump_read V k = (Inr (), ?k2)"
      using rd ne fed by (subst pump_read.simps) simp
    with sees rec False show ?thesis by (intro exI [of _ ?k2]) simp
  next
    case True
    have "pump_read V k = pump_read V ?k2"
      using rd ne fed True by (subst pump_read.simps) simp
    moreover have "net_size ?k2 < net_size k"
      using client_read_shrinks [OF rd] by (simp add: net_size_def)
    ultimately show ?thesis
      using less.hyps [of ?k2] sees rec True less.prems(2,3) receives_trans by fastforce
  qed
qed

lemma client_sees_queued:
  assumes "client_sees fin (p # ps) es k" and "recv_queue (cl_inner k) = q # qs"
  shows "q = packet_new p" and "client_sees fin ps es (k\<lparr>cl_inner := with_recv qs (cl_inner k)\<rparr>)"
proof -
  obtain as rest segs where a: "p # ps = as @ rest" "q # qs = map packet_new as" and
    r: "cl_stream k \<noteq> None" "plain_idle (cn_packet_stream (cl_inner k))" "cl_in k = map Recv segs @ es" "[] \<notin> set segs"
      "rest = [] \<longleftrightarrow> segs = []"
      "ps_recv_buffer (cn_packet_stream (cl_inner k)) @ concat segs = stream_of (ps_next_seq_id (cn_packet_stream (cl_inner k))) rest"
      "deliverable (ps_max_allowed_packet (cn_packet_stream (cl_inner k))) rest"
      "foldl seq_after (ps_next_seq_id (cn_packet_stream (cl_inner k))) rest = fin"
    using assms unfolding client_sees_def Let_def by metis
  then obtain as' where as': "as = p # as'" "ps = as' @ rest" "qs = map packet_new as'" "q = packet_new p" by (cases as) auto
  then show "q = packet_new p" by simp
  show "client_sees fin ps es (k\<lparr>cl_inner := with_recv qs (cl_inner k)\<rparr>)"
    unfolding client_sees_def Let_def using as' r
    by (intro conjI exI [of _ as'] exI [of _ rest] exI [of _ segs]) (auto simp: with_recv_def plain_idle_def)
qed

lemma read_queued:
  "recv_queue (cl_inner k) = p # q \<Longrightarrow> client_read_packet V k = (Inr p, k\<lparr>cl_inner := with_recv q (cl_inner k)\<rparr>)"
  by (subst client_read_packet.simps) (simp add: lift_inner_def read_packet_Cons)

lemma receives_with_recv [simp]: "receives k (k\<lparr>cl_inner := with_recv q (cl_inner k)\<rparr>)"
proof -
  let ?st = "cn_packet_stream (cl_inner k)"
  have "with_recv q (cl_inner k) = (cl_inner k)\<lparr>cn_packet_stream := ?st\<lparr>ps_next_seq_id := ps_next_seq_id ?st,
      ps_recv_queue := q, ps_recv_buffer := ps_recv_buffer ?st\<rparr>\<rparr>"
    by (simp add: with_recv_def)
  then have "k\<lparr>cl_inner := with_recv q (cl_inner k)\<rparr> = k\<lparr>cl_inner := (cl_inner k)\<lparr>cn_packet_stream := ?st\<lparr>ps_next_seq_id := ps_next_seq_id ?st,
      ps_recv_queue := q, ps_recv_buffer := ps_recv_buffer ?st\<rparr>\<rparr>, cl_in := cl_in k\<rparr>"
    by simp
  then show ?thesis by (simp only: receivesI)
qed

lemma client_read_packet_sees:
  assumes "client_sees fin (p # ps) es k"
  shows "\<exists>k'. client_read_packet V k = (Inr (packet_new p), k') \<and> client_sees fin ps es k' \<and> receives k k'"
proof (cases "recv_queue (cl_inner k)")
  case (Cons q qs)
  with client_sees_queued [OF assms Cons] read_queued [OF Cons, of V] show ?thesis by auto
next
  case Nil
  then obtain k1 where k1: "pump_read V k = (Inr (), k1)" "client_sees fin (p # ps) es k1" "recv_queue (cl_inner k1) \<noteq> []"
      "receives k k1"
    using pump_read_sees [OF assms] by blast
  then obtain q qs where q: "recv_queue (cl_inner k1) = q # qs" by (cases "recv_queue (cl_inner k1)") auto
  have "client_read_packet V k = client_read_packet V k1"
    using Nil k1(1) by (subst client_read_packet.simps) (simp add: lift_inner_def conn_read_packet_Nil)
  with client_sees_queued [OF k1(2) q] read_queued [OF q, of V] k1(4) show ?thesis
    using receives_trans by fastforce
qed

interpretation net_source: packet_source "client_read_packet V" "\<lambda>ps. client_sees fin ps es" receives for V fin es
proof unfold_locales
  show "\<exists>s'. client_read_packet V s = (Inr (packet_new p), s') \<and> client_sees fin ps es s' \<and> receives s s'"
    if "client_sees fin (p # ps) es s" for p ps and s :: "'a client"
    using that by (rule client_read_packet_sees)
qed (simp_all add: receives_trans)

text \<open>The client that has read everything up to \<open>es\<close>: no packet is queued, no byte is buffered, \<open>fin\<close> is the next sequence
  number, and nothing else has changed.\<close>

definition all_read :: "u8 \<Rightarrow> read_event list \<Rightarrow> 'x client \<Rightarrow> 'x client" where
  "all_read fin es k = k\<lparr>cl_inner := (cl_inner k)\<lparr>cn_packet_stream := (cn_packet_stream (cl_inner k))\<lparr>ps_next_seq_id := fin,
     ps_recv_queue := [], ps_recv_buffer := []\<rparr>\<rparr>, cl_in := es\<rparr>"

lemma sees_all_read:
  assumes "client_sees fin [] es k'" and "receives k k'"
  shows "k' = all_read fin es k"
  using assms by (auto simp: client_sees_def Let_def receives_def all_read_def)

lemma read_waits:
  assumes "cl_stream k \<noteq> None"
  shows "client_read_packet V (all_read fin [] k) = (Inl Blocked, all_read fin [] k)"
proof -
  let ?k = "all_read fin [] k"
  have "lift_inner conn_read_packet ?k = (Inl (Fail NeedMoreData), ?k)"
    by (simp add: lift_inner_def all_read_def conn_read_packet_Nil)
  moreover have "pump_read V ?k = (Inl Blocked, ?k)"
    using assms by (subst pump_read.simps) (auto simp: client_read_def all_read_def err_panic_apply)
  ultimately show ?thesis by (subst client_read_packet.simps) simp
qed

text \<open>C19: Packets reach the client in order and complete, however the network cuts them.  Let the bytes of a
  sequence of packets on a plain stream (each shorter than \<open>2^24 - 1\<close> bytes and within \<open>max_allowed_packet\<close>, none an ERR packet)
  arrive in reads of any sizes.  Reading as many packets returns exactly their payloads, takes the input exactly to
  the end of the last one, leaves no packet queued and no byte buffered, puts the sequence number where the
  last packet left it, and changes nothing else.  If nothing follows on the stream, the next
  read waits, and returns no further packet.\<close>

theorem client_reads_in_order:
  assumes "client_sees fin ps es k"
  shows "take_packets (client_read_packet V) (length ps) k = (Inr (map packet_new ps), all_read fin es k) \<and>
    (es = [] \<longrightarrow> client_read_packet V (all_read fin es k) = (Inl Blocked, all_read fin es k))"
proof -
  obtain k' where "take_packets (client_read_packet V) (length ps) k = (Inr (map packet_new ps), k')"
      "client_sees fin [] es k'" "receives k k'"
    using net_source.take_sees [of fin ps "[]" es k V] assms by auto
  moreover have "cl_stream k \<noteq> None" using assms by (simp add: client_sees_def Let_def)
  ultimately show ?thesis using sees_all_read read_waits by blast
qed

definition sample_client :: "int client" where
  "sample_client = \<lparr>cl_inner = sample_conn, cl_stream = Some PlainStream, cl_transaction_dirty = False,
     cl_in = [], cl_out = [], cl_wfail = []\<rparr>"

lemma sample_client_sees:
  assumes "concat segs = stream_of 0 ps" and "[] \<notin> set segs" and "ps = [] \<longleftrightarrow> segs = []"
    and "deliverable 16777216 ps"
  shows "client_sees (foldl seq_after 0 ps) ps es (sample_client\<lparr>cl_in := map Recv segs @ es\<rparr>)"
  unfolding client_sees_def Let_def using assms
  by (intro conjI exI [of _ "[]"] exI [of _ ps] exI [of _ segs])
    (simp_all add: sample_client_def sample_conn_def connection_new_def ps_new_def plain_idle_def default_options_def)

theorem client_reads_in_order_witness:
  "let k = sample_client\<lparr>cl_in := [Recv [3, 0, 0], Recv [0, 1, 2], Recv [3, 1, 0, 0, 1], Recv [9]]\<rparr>
   in take_packets (client_read_packet sample_env) 2 k = (Inr [packet_new [1, 2, 3], packet_new [9]], all_read 2 [] k) \<and>
      client_read_packet sample_env (all_read 2 [] k) = (Inl Blocked, all_read 2 [] k)"
proof -
  let ?segs = "[[3, 0, 0], [0, 1, 2], [3, 1, 0, 0, 1], [9]] :: bytes list"
  have "stream_of 0 [[1, 2, 3], [9]] = concat ?segs" "foldl seq_after 0 [[1, 2, 3], [9]] = 2"
    by (simp_all add: frames.simps frame_def MAX_PACKET_LEN_def frame_count_def write_int3_eq byte_eval seq_after_def)
  then have "client_sees 2 [[1, 2, 3], [9]] [] (sample_client\<lparr>cl_in := map Recv ?segs @ []\<rparr>)"
    using sample_client_sees [of ?segs "[[1, 2, 3], [9]]" "[]"]
    by (simp add: deliverable_def usize_max_def MAX_PACKET_LEN_def)
  from client_reads_in_order [OF this, of sample_env] show ?thesis by (simp add: numeral_2_eq_2)
qed

section \<open>Writing\<close>

lemma pump_write_loop_out:
  assumes "cl_stream k \<noteq> None" and "cl_wfail k = []"
  shows "pump_write_loop k = (Inr (), k\<lparr>cl_inner := (cl_inner k)\<lparr>cn_packet_stream :=
      (cn_packet_stream (cl_inner k))\<lparr>ps_send_queue := []\<rparr>\<rparr>,
    cl_out := cl_out k @ concat (ps_send_queue (cn_packet_stream (cl_inner k)))\<rparr>)"
  using assms
proof (induction "ps_send_queue (cn_packet_stream (cl_inner k))" arbitrary: k)
  case Nil
  then show ?case by (subst pump_write_loop.simps) (simp add: pop_send_queue_def Nil.hyps [symmetric])
next
  case (Cons d ds)
  let ?c = "(cl_inner k)\<lparr>cn_packet_stream := (cn_packet_stream (cl_inner k))\<lparr>ps_send_queue := ds\<rparr>\<rparr>"
  let ?k = "k\<lparr>cl_inner := ?c, cl_out := cl_out k @ d\<rparr>"
  have p: "pop_send_queue (cl_inner k) = (Some d, ?c)"
    by (simp add: pop_send_queue_def Cons.hyps(2) [symmetric])
  have w: "client_write_all d (k\<lparr>cl_inner := ?c\<rparr>) = (Inr (), ?k)"
    using Cons.prems by (auto simp: client_write_all_def io_outcome_def)
  have "pump_write_loop k = pump_write_loop ?k" using p w by (subst pump_write_loop.simps) simp
  also have "\<dots> = (Inr (), ?k\<lparr>cl_inner := (cl_inner ?k)\<lparr>cn_packet_stream :=
      (cn_packet_stream (cl_inner ?k))\<lparr>ps_send_queue := []\<rparr>\<rparr>,
    cl_out := cl_out ?k @ concat (ps_send_queue (cn_packet_stream (cl_inner ?k)))\<rparr>)"
    using Cons.prems by (intro Cons.hyps(1)) simp_all
  finally show ?case by (simp add: Cons.hyps(2) [symmetric])
qed

lemma pump_write_out:
  assumes "cl_stream k \<noteq> None" and "cl_wfail k = []"
  shows "pump_write k = (Inr (), k\<lparr>cl_inner := (cl_inner k)\<lparr>cn_packet_stream :=
      (cn_packet_stream (cl_inner k))\<lparr>ps_send_queue := []\<rparr>\<rparr>,
    cl_out := cl_out k @ concat (ps_send_queue (cn_packet_stream (cl_inner k)))\<rparr>)"
  using pump_write_loop_out [OF assms] assms
  by (auto simp: pump_write_def st_simps client_flush_def io_outcome_def)

text \<open>Writing leaves the input alone.\<close>

definition same_input :: "'x client \<Rightarrow> 'x client \<Rightarrow> bool" where
  "same_input k k' \<longleftrightarrow> cl_in k' = cl_in k \<and> recv_queue (cl_inner k') = recv_queue (cl_inner k)"

lemma client_write_all_input: "client_write_all d k = (Inr u, k') \<Longrightarrow> same_input k k'"
  by (auto simp: same_input_def client_write_all_def io_outcome_def err_panic_apply split: option.splits list.splits prod.splits)

lemma pump_write_loop_input: "pump_write_loop k = (Inr u, k') \<Longrightarrow> same_input k k'"
proof (induction k rule: pump_write_loop.induct)
  case (1 k)
  obtain d c where p: "pop_send_queue (cl_inner k) = (d, c)" by fastforce
  show ?case
  proof (cases d)
    case None
    with p 1(2) show ?thesis by (subst (asm) pump_write_loop.simps) (simp add: same_input_def)
  next
    case (Some b)
    obtain x k1 where w: "client_write_all b (k\<lparr>cl_inner := c\<rparr>) = (x, k1)" by fastforce
    have c: "recv_queue c = recv_queue (cl_inner k)" using p by (auto simp: pop_send_queue_def split: list.splits)
    from 1 p Some w c client_write_all_input [of b "k\<lparr>cl_inner := c\<rparr>" _ k1] show ?thesis
      by (subst (asm) (2) pump_write_loop.simps) (auto simp: same_input_def split: sum.splits)
  qed
qed

lemma pump_write_input: "pump_write k = (Inr u, k') \<Longrightarrow> same_input k k'"
  by (auto simp: pump_write_def bind_st_Inr_iff same_input_def client_flush_def io_outcome_def err_panic_apply
      dest!: pump_write_loop_input split: option.splits list.splits)

lemma pump_write_net: "pump_write k = (Inr u, k') \<Longrightarrow> net_size k' = net_size k"
  by (auto dest!: pump_write_input simp: same_input_def net_size_def)

end
