(* ===== verification/Client_Query.thy ===== *)
theory Client_Query
  imports Client_Net
begin

text \<open>
  Statements and their results on the client of \<^verbatim>\<open>mysql/src/connection.rs\<close>: reading of results with the
  transfer of local files, unbuffered reading, \<open>query\<close> and the commands built on it, closing, and the
  embedding of arguments in statements.  The file system and the environment variables are parameters
  (record \<open>world\<close>): \<open>tokio::fs::read\<close> gives an error text or the contents.
\<close>

record 'x world =
  w_env :: "'x env"
  w_read_file :: "string \<Rightarrow> string + bytes"
  w_var :: "string \<Rightarrow> string option"

section \<open>Paths\<close>

definition home_dir :: "'x world \<Rightarrow> string option" where
  "home_dir W = (case w_var W ''HOME'' of Some h \<Rightarrow> Some h | None \<Rightarrow> w_var W ''USERPROFILE'')"

definition expand_user :: "'x world \<Rightarrow> string \<Rightarrow> string" where
  "expand_user W path =
     (let home = (case home_dir W of Some h \<Rightarrow> h | None \<Rightarrow> [])
      in if path = ''~'' then home
         else if take 2 path = ''~/'' then home @ ''/'' @ drop 2 path
         else path)"

section \<open>Termination of the reading loops\<close>

text \<open>Every packet read uses up input: bytes of the network, or else a queued packet.\<close>

definition reads_left :: "'x client \<Rightarrow> nat \<times> nat" where
  "reads_left k = (net_size k, length (recv_queue (cl_inner k)))"

definition shorter :: "('x client \<times> 'x client) set" where
  "shorter = inv_image (less_than <*lex*> less_than) reads_left"

lemma wf_shorter [simp]: "wf shorter"
  by (simp add: shorter_def wf_inv_image wf_lex_prod)

lemma client_read_packet_shrinks:
  "client_read_packet V k = (Inr p, k') \<Longrightarrow> (k', k) \<in> shorter"
proof (induction "net_size k" arbitrary: k rule: less_induct)
  case less
  show ?case
  proof (cases "recv_queue (cl_inner k)")
    case (Cons q qs)
    with less.prems read_queued [OF Cons, of V] show ?thesis
      by (auto simp: shorter_def reads_left_def net_size_def)
  next
    case Nil
    then have rd: "lift_inner conn_read_packet k = (Inl (Fail NeedMoreData), k)"
      by (simp add: lift_inner_def conn_read_packet_Nil)
    then obtain k1 where k1: "pump_read V k = (Inr (), k1)" "client_read_packet V k1 = (Inr p, k')"
      using less.prems by (subst (asm) client_read_packet.simps) (auto split: prod.splits sum.splits)
    have "net_size k1 < net_size k" using k1(1) by (rule pump_read_shrinks)
    with less.hyps [OF _ k1(2)] show ?thesis by (auto simp: shorter_def reads_left_def)
  qed
qed

lemma shorter_inner: "net_size k' = net_size k \<Longrightarrow> recv_queue (cl_inner k') = recv_queue (cl_inner k) \<Longrightarrow>
    (k', k0) \<in> shorter \<longleftrightarrow> (k, k0) \<in> shorter"
  by (simp add: shorter_def reads_left_def)

section \<open>Local files\<close>

definition CHUNK_SIZE :: nat where
  "CHUNK_SIZE = 8192"

text \<open>\<open>slice::chunks\<close>.\<close>

function chunks :: "nat \<Rightarrow> 'a list \<Rightarrow> 'a list list" where
  "chunks n xs = (if xs = [] \<or> n = 0 then [] else take n xs # chunks n (drop n xs))"
  by pat_completeness auto
termination
  by (relation "measure (\<lambda>(_, xs). length xs)") (auto simp: length_greater_0_conv [symmetric] simp del: length_greater_0_conv)

declare chunks.simps [simp del]

fun write_packets :: "'x env \<Rightarrow> bytes list \<Rightarrow> ('x client, unit) rs" where
  "write_packets V [] = ret ()"
| "write_packets V (d # ds) = bind_st (lift_inner (conn_write_packet V d)) (\<lambda>_. write_packets V ds)"

definition send_load_local_file :: "'x world \<Rightarrow> mysql_packet \<Rightarrow> ('x client, unit) rs" where
  "send_load_local_file W packet =
     bind_st get_st (\<lambda>k.
     if \<not> co_local_infile (cn_options (cl_inner k)) then
       err (OperationalError CR_LOAD_DATA_LOCAL_INFILE_REJECTED
         ''Received LOAD_LOCAL packet but local_infile option is false'')
     else
       bind_st (lift_res (load_local_from_packet packet)) (\<lambda>name.
       let filename = expand_user W (from_utf8_lossy name)
       in case w_read_file W filename of
            Inl e \<Rightarrow> err (OperationalError CR_LOAD_DATA_LOCAL_INFILE_REJECTED
              (''Failed to read LOAD DATA LOCAL INFILE file '' @ filename @ '': '' @ e))
          | Inr d \<Rightarrow>
              bind_st (write_packets (w_env W) (chunks CHUNK_SIZE d)) (\<lambda>_.
              bind_st (lift_inner (conn_write_packet (w_env W) [])) (\<lambda>_. pump_write))))"

section \<open>Results\<close>

definition client_read_ok_packet :: "'x env \<Rightarrow> ('x client, ok_packet_wrapper) rs" where
  "client_read_ok_packet V =
     bind_st (client_read_packet V) (\<lambda>packet.
     if \<not> is_ok_packet packet then err (OperationalError CR_COMMANDS_OUT_OF_SYNC ''Command Out of Sync'')
     else run_reader ok_from_packet packet)"

text \<open>The loop of \<open>read_query_result\<close>, with its variables \<open>first_packet\<close> and \<open>result\<close>.\<close>

function client_result_loop :: "'x world \<Rightarrow> bool \<Rightarrow> 'x mysql_result \<Rightarrow> ('x client, int) rs" where
  "client_result_loop W first_packet result k =
     (case client_read_packet (w_env W) k of
        (Inl e, k') \<Rightarrow> (Inl e, k')
      | (Inr packet, k') \<Rightarrow>
          (if first_packet \<and> is_load_local_packet packet then
             (case send_load_local_file W packet k' of
                (Inl e, k'') \<Rightarrow> (Inl e, k'')
              | (Inr _, k'') \<Rightarrow> client_result_loop W False result k'')
           else
             (case feed_packet (w_env W) packet (cl_inner k') result of
                (Inl e, _) \<Rightarrow> (Inl e, k')
              | (Inr FR_NeedMore, result') \<Rightarrow> client_result_loop W False result' k'
              | (Inr _, result') \<Rightarrow>
                  (Inr (mr_affected_rows result'), k'\<lparr>cl_inner := core_set_result result' (cl_inner k')\<rparr>))))"
  by pat_completeness auto
termination
  by (relation "inv_image (less_than <*lex*> shorter) (\<lambda>(_, first, _, k). (of_bool first :: nat, k))")
    (auto dest!: sym [of "(_, _)"] client_read_packet_shrinks)

declare client_result_loop.simps [simp del]

definition client_read_query_result :: "'x world \<Rightarrow> bool \<Rightarrow> ('x client, int) rs" where
  "client_read_query_result W unbuffered =
     client_result_loop W True (result_new\<lparr>mr_unbuffered_active := unbuffered\<rparr>)"

text \<open>A result that has been read has used up input.\<close>

lemma write_compressed_loop_recv: "ps_recv_queue (snd (write_compressed_loop Z plain offset st)) = ps_recv_queue st"
proof (induction "length plain - offset" arbitrary: offset st rule: less_induct)
  case less
  show ?case
  proof (cases "offset < length plain")
    case True
    then have "length plain - min (offset + MAX_PACKET_LEN) (length plain) < length plain - offset"
      using MAX_PACKET_LEN_pos by auto
    from less [OF this] show ?thesis
      by (subst write_compressed_loop.simps) (simp add: Let_def err_panic_apply split: sum.split prod.split)
  next
    case False
    then show ?thesis by (subst write_compressed_loop.simps) simp
  qed
qed

lemma ps_write_packet_recv: "ps_recv_queue (snd (ps_write_packet Z d st)) = ps_recv_queue st"
  by (simp add: ps_write_packet_def write_compressed_packet_def build_plain_packets_frames write_compressed_loop_recv
      case_prod_unfold)

lemma write_packet_input: "lift_inner (conn_write_packet V d) k = (x, k') \<Longrightarrow> same_input k k'"
  using ps_write_packet_recv [of "env_zlib V" d "cn_packet_stream (cl_inner k)"]
  by (auto simp: same_input_def lift_inner_def conn_write_packet_def lift_ps_def case_prod_unfold)

lemma same_input_trans: "same_input k k' \<Longrightarrow> same_input k' k'' \<Longrightarrow> same_input k k''"
  by (simp add: same_input_def)

lemma write_packets_input: "write_packets V ds k = (Inr u, k') \<Longrightarrow> same_input k k'"
proof (induction ds arbitrary: k)
  case Nil
  then show ?case by (simp add: ret_def same_input_def)
next
  case (Cons d ds)
  then obtain k1 where "lift_inner (conn_write_packet V d) k = (Inr (), k1)" "write_packets V ds k1 = (Inr u, k')"
    by (auto simp: bind_st_Inr_iff)
  with Cons.IH show ?case by (blast intro: same_input_trans write_packet_input)
qed

lemma send_file_input:
  assumes "send_load_local_file W p k = (Inr u, k')"
  shows "same_input k k'"
proof -
  obtain ds k1 k2 where "write_packets (w_env W) ds k = (Inr (), k1)"
      "lift_inner (conn_write_packet (w_env W) []) k1 = (Inr (), k2)" "pump_write k2 = (Inr (), k')"
    using assms
    by (cases "load_local_from_packet p";
        cases "w_read_file W (expand_user W (from_utf8_lossy (projr (load_local_from_packet p))))")
      (auto simp: send_load_local_file_def bind_st_Inr_iff get_st_def lift_res_def err_panic_apply Let_def split: if_splits)
  then show ?thesis by (blast intro: same_input_trans write_packets_input write_packet_input pump_write_input)
qed

lemma same_input_shorter: "same_input k k' \<Longrightarrow> (k', k0) \<in> shorter \<longleftrightarrow> (k, k0) \<in> shorter"
  by (simp add: same_input_def shorter_def reads_left_def net_size_def)

lemma shorter_trans: "(k', k) \<in> shorter \<Longrightarrow> (k'', k') \<in> shorter \<Longrightarrow> (k'', k) \<in> shorter"
  by (auto simp: shorter_def reads_left_def)

lemma client_result_loop_shrinks: "client_result_loop W first r k = (Inr n, k') \<Longrightarrow> (k', k) \<in> shorter"
proof (induction k arbitrary: first r rule: wf_induct_rule [OF wf_shorter])
  case (1 k)
  obtain x k1 where rd: "client_read_packet (w_env W) k = (x, k1)" by fastforce
  then obtain p where x: "x = Inr p"
    using 1(2) by (subst (asm) client_result_loop.simps) (cases x; simp)
  with rd have s: "(k1, k) \<in> shorter" by (simp add: client_read_packet_shrinks)
  note unf = client_result_loop.simps [of W first r k, unfolded rd x prod.case sum.case]
  have IH: "client_result_loop W f r' k2 = (Inr n, k') \<Longrightarrow> (k2, k) \<in> shorter \<Longrightarrow> (k', k) \<in> shorter" for f r' k2
    using 1(1) shorter_trans by blast
  obtain y k2 where sf: "send_load_local_file W p k1 = (y, k2)" by fastforce
  have k2: "(k2, k) \<in> shorter" if "y = Inr u" for u
    using send_file_input [of W p k1 u k2] sf that s same_input_shorter by blast
  have st: "(k1\<lparr>cl_inner := core_set_result r' (cl_inner k1)\<rparr>, k) \<in> shorter" for r'
    using s by (subst shorter_inner [of _ k1]) (simp_all add: net_size_def core_set_result_def)
  show ?case
    using 1(2) sf k2 s st IH unfolding unf
    by (auto split: if_splits sum.splits prod.splits feed_result.splits)
qed

lemma client_read_query_result_shrinks: "client_read_query_result W u k = (Inr n, k') \<Longrightarrow> (k', k) \<in> shorter"
  unfolding client_read_query_result_def by (rule client_result_loop_shrinks)

text \<open>\<open>result_mut().expect(..)\<close>: an operation on the result of the connection, in place.\<close>

definition on_result :: "('x mysql_result, 'a) rs \<Rightarrow> ('x client, 'a) rs" where
  "on_result m k =
     (case cn_result (cl_inner k) of
        None \<Rightarrow> panic k
      | Some r \<Rightarrow> (case m r of (x, r') \<Rightarrow> (x, k\<lparr>cl_inner := (cl_inner k)\<lparr>cn_result := Some r'\<rparr>\<rparr>)))"

definition unbuffered_active :: "'x client \<Rightarrow> bool" where
  "unbuffered_active k \<longleftrightarrow> (case cn_result (cl_inner k) of Some r \<Rightarrow> mr_unbuffered_active r | None \<Rightarrow> False)"

lemma on_result_shorter: "on_result m k = (x, k') \<Longrightarrow> (k', k0) \<in> shorter \<longleftrightarrow> (k, k0) \<in> shorter"
  by (intro shorter_inner) (auto simp: on_result_def net_size_def err_panic_apply split: option.splits prod.splits)

function client_finish_unbuffered_query :: "'x env \<Rightarrow> ('x client, unit) rs" where
  "client_finish_unbuffered_query V k =
     (if \<not> unbuffered_active k then (Inr (), k)
      else
        (case client_read_packet V k of
           (Inl e, k') \<Rightarrow> (Inl e, k')
         | (Inr packet, k') \<Rightarrow>
             (case on_result (read_rowdata_packet_unbuffered V packet) k' of
                (Inl e, k'') \<Rightarrow> (Inl e, k'')
              | (Inr _, k'') \<Rightarrow> client_finish_unbuffered_query V k'')))"
  by pat_completeness auto
termination
  by (relation "inv_image shorter snd")
    (auto dest!: sym [of "(_, _)"] client_read_packet_shrinks on_result_shorter)

declare client_finish_unbuffered_query.simps [simp del]

function next_unbuffered_row :: "'x env \<Rightarrow> ('x client, 'x mysql_value list option) rs" where
  "next_unbuffered_row V k =
     (if \<not> unbuffered_active k then (Inr None, k)
      else
        (case client_read_packet V k of
           (Inl e, k') \<Rightarrow> (Inl e, k')
         | (Inr packet, k') \<Rightarrow>
             (case on_result (read_rowdata_packet_unbuffered V packet) k' of
                (Inl e, k'') \<Rightarrow> (Inl e, k'')
              | (Inr (Some row), k'') \<Rightarrow> (Inr (Some row), k'')
              | (Inr None, k'') \<Rightarrow> next_unbuffered_row V k'')))"
  by pat_completeness auto
termination
  by (relation "inv_image shorter snd")
    (auto dest!: sym [of "(_, _)"] client_read_packet_shrinks on_result_shorter)

declare next_unbuffered_row.simps [simp del]

section \<open>Statements with arguments\<close>

definition not_enough_placeholders :: error where
  "not_enough_placeholders = ProgrammingError CR_INVALID_PARAMETER_NO ''Not enough placeholders for arguments''"

definition too_many_arguments :: error where
  "too_many_arguments = ProgrammingError CR_INVALID_PARAMETER_NO ''Too many arguments for placeholders''"

text \<open>The loop over the characters, with the text built so far and the arguments left.\<close>

fun mogrify_loop :: "string \<Rightarrow> string \<Rightarrow> string list \<Rightarrow> error + string" where
  "mogrify_loop result [] args = (if args \<noteq> [] then Inl too_many_arguments else Inr result)"
| "mogrify_loop result [c] args = mogrify_loop (result @ [c]) [] args"
| "mogrify_loop result (c # d # cs) args =
     (if c = CHR ''%'' \<and> d = CHR ''s'' then
        (case args of
           arg # args' \<Rightarrow> mogrify_loop (result @ arg) cs args'
         | [] \<Rightarrow> Inl not_enough_placeholders)
      else if c = CHR ''%'' \<and> d = CHR ''%'' then mogrify_loop (result @ [CHR ''%'']) cs args
      else mogrify_loop (result @ [c]) (d # cs) args)"

text \<open>\<open>collect\<close> into a \<open>Result\<close>: the first error wins.\<close>

fun collect_res :: "('e + 'a) list \<Rightarrow> 'e + 'a list" where
  "collect_res [] = Inr []"
| "collect_res (r # rs) = bind_res r (\<lambda>x. bind_res (collect_res rs) (\<lambda>xs. Inr (x # xs)))"

definition mogrify_query :: "string \<Rightarrow> 'v list option \<Rightarrow> ('v \<Rightarrow> error + string) \<Rightarrow> error + string" where
  "mogrify_query query args lit =
     (case args of
        None \<Rightarrow> Inr query
      | Some args \<Rightarrow> bind_res (collect_res (map lit args)) (\<lambda>escaped. mogrify_loop [] query escaped))"

definition client_mogrify :: "'x env \<Rightarrow> 'x client \<Rightarrow> string \<Rightarrow> 'x mysql_value list option \<Rightarrow> error + string" where
  "client_mogrify V k query args = mogrify_query query args (literal V (cl_inner k))"

section \<open>Commands\<close>

definition client_query :: "'x world \<Rightarrow> string \<Rightarrow> bool \<Rightarrow> ('x client, int) rs" where
  "client_query W sql unbuffered =
     bind_st (client_finish_unbuffered_query (w_env W)) (\<lambda>_.
     bind_st (lift_inner (core_execute_command (w_env W) COM_QUERY (as_bytes sql))) (\<lambda>_.
     bind_st pump_write (\<lambda>_. client_read_query_result W unbuffered)))"

definition client_execute :: "'x world \<Rightarrow> string \<Rightarrow> 'x mysql_value list option \<Rightarrow> ('x client, int) rs" where
  "client_execute W query args =
     bind_st get_st (\<lambda>k.
     bind_st (lift_err (client_mogrify (w_env W) k query args)) (\<lambda>query. client_query W query False))"

definition client_next_result :: "'x world \<Rightarrow> bool \<Rightarrow> ('x client, int) rs" where
  "client_next_result W unbuffered =
     bind_st (client_finish_unbuffered_query (w_env W)) (\<lambda>_. client_read_query_result W unbuffered)"

definition client_close :: "'x env \<Rightarrow> ('x client, unit) rs" where
  "client_close V =
     bind_st (client_finish_unbuffered_query V) (\<lambda>_.
     bind_st (lift_inner (core_close V)) (\<lambda>_.
     bind_st pump_write (\<lambda>_. modify_st (\<lambda>k. k\<lparr>cl_stream := None\<rparr>))))"

definition client_force_close :: "'x client \<Rightarrow> 'x client" where
  "client_force_close k = drop_stream k"

text \<open>The commands answered by an OK packet: \<open>ping\<close>, \<open>select_db\<close>, \<open>commit\<close> and \<open>rollback\<close>.\<close>

definition simple_command :: "'x env \<Rightarrow> ('x connection, unit) rs \<Rightarrow> ('x client, unit) rs" where
  "simple_command V m =
     bind_st (lift_inner m) (\<lambda>_.
     bind_st pump_write (\<lambda>_. bind_st (client_read_ok_packet V) (\<lambda>_. ret ())))"

definition client_ping :: "'x env \<Rightarrow> ('x client, unit) rs" where
  "client_ping V = simple_command V (core_ping V)"

definition client_select_db :: "'x env \<Rightarrow> string \<Rightarrow> ('x client, unit) rs" where
  "client_select_db V db = simple_command V (core_select_db V db)"

definition client_commit :: "'x env \<Rightarrow> ('x client, unit) rs" where
  "client_commit V = simple_command V (core_commit V)"

definition client_rollback :: "'x env \<Rightarrow> ('x client, unit) rs" where
  "client_rollback V = simple_command V (core_rollback V)"

definition client_kill :: "'x world \<Rightarrow> u32 \<Rightarrow> ('x client, int) rs" where
  "client_kill W thread_id = client_query W (''KILL '' @ dec (unat thread_id)) False"

definition show_warnings :: "'x world \<Rightarrow> ('x client, 'x mysql_value list list) rs" where
  "show_warnings W =
     bind_st (client_query W ''SHOW WARNINGS'' False) (\<lambda>_.
     bind_st get_st (\<lambda>k.
     ret (case Option.bind (cn_result (cl_inner k)) mr_rows of Some rows \<Rightarrow> rows | None \<Rightarrow> [])))"

definition client_in_transaction :: "'x client \<Rightarrow> bool" where
  "client_in_transaction k = core_in_transaction (cl_inner k)"

definition mark_transaction_dirty :: "'x client \<Rightarrow> 'x client" where
  "mark_transaction_dirty k = k\<lparr>cl_transaction_dirty := True\<rparr>"

definition rollback_dirty_transaction :: "'x world \<Rightarrow> ('x client, unit) rs" where
  "rollback_dirty_transaction W =
     bind_st get_st (\<lambda>k.
     if cl_transaction_dirty k \<or> client_in_transaction k then
       bind_st (client_query W ''ROLLBACK'' False) (\<lambda>_.
       modify_st (\<lambda>k. k\<lparr>cl_transaction_dirty := False\<rparr>))
     else ret ())"

definition client_is_open :: "'x client \<Rightarrow> bool" where
  "client_is_open k = core_is_open (cl_inner k)"

section \<open>Templates\<close>

text \<open>
  A template: texts separated by placeholders, with every percent sign of the texts doubled, and what
  \<open>mogrify\<close> is to make of it.
\<close>

definition escape_percent :: "string \<Rightarrow> string" where
  "escape_percent t = replace_char (CHR ''%'') ''%%'' t"

fun sql_template :: "string \<Rightarrow> string list \<Rightarrow> string" where
  "sql_template t [] = escape_percent t"
| "sql_template t (u # us) = escape_percent t @ ''%s'' @ sql_template u us"

fun fill_template :: "string \<Rightarrow> string list \<Rightarrow> string list \<Rightarrow> error + string" where
  "fill_template t [] [] = Inr t"
| "fill_template t [] (lit # lits) = Inl too_many_arguments"
| "fill_template t (u # us) [] = Inl not_enough_placeholders"
| "fill_template t (u # us) (lit # lits) = bind_res (fill_template u us lits) (\<lambda>s. Inr (t @ lit @ s))"

lemma mogrify_loop_append:
  "mogrify_loop (pre @ acc) cs args = bind_res (mogrify_loop acc cs args) (\<lambda>s. Inr (pre @ s))"
proof (induction acc cs args rule: mogrify_loop.induct)
  case (3 acc c d cs args)
  then show ?case by (cases args) simp_all
qed simp_all

lemma mogrify_loop_acc:
  "mogrify_loop acc cs args = bind_res (mogrify_loop [] cs args) (\<lambda>s. Inr (acc @ s))"
  using mogrify_loop_append [of acc "[]"] by simp

lemma mogrify_loop_text:
  "c \<noteq> CHR ''%'' \<Longrightarrow> mogrify_loop [] (c # cs) args = bind_res (mogrify_loop [] cs args) (\<lambda>s. Inr (c # s))"
  by (cases cs) (simp_all add: mogrify_loop_acc [of "[c]"])

lemma mogrify_loop_escaped:
  "mogrify_loop [] (escape_percent t @ cs) args = bind_res (mogrify_loop [] cs args) (\<lambda>s. Inr (t @ s))"
proof (induction t)
  case Nil
  then show ?case by (simp add: escape_percent_def replace_char_def bind_res_def split: sum.split)
next
  case (Cons c t)
  then show ?case
    by (cases "c = CHR ''%''")
      (auto simp: escape_percent_def replace_char_def mogrify_loop_text mogrify_loop_acc [of "''%''"] bind_res_def
        split: sum.splits)
qed

lemma mogrify_loop_template: "mogrify_loop [] (sql_template t us) lits = fill_template t us lits"
proof (induction t us lits rule: fill_template.induct)
  case (4 t u us lit lits)
  then show ?case by (simp add: mogrify_loop_escaped mogrify_loop_acc [of lit]) (auto simp: bind_res_def split: sum.splits)
qed (use mogrify_loop_escaped [of _ "[]"] in \<open>simp_all add: mogrify_loop_escaped\<close>)

lemma collect_res_ok: "list_all2 (\<lambda>a l. lit a = Inr l) args lits \<Longrightarrow> collect_res (map lit args) = Inr lits"
  by (induction rule: list_all2_induct) simp_all

text \<open>C12: Arguments go exactly where the placeholders are.  For every text split by placeholders (percent signs
  doubled) and every list of arguments with literals, \<open>mogrify\<close> returns the text with the \<open>n\<close>-th literal in the
  \<open>n\<close>-th place and everything else unchanged, whatever the literals contain, when there are as many arguments
  as placeholders; otherwise it fails, with one error for missing and one for surplus arguments.\<close>

theorem mogrify_fills_template:
  assumes "list_all2 (\<lambda>a l. lit a = Inr l) args lits"
  shows "mogrify_query (sql_template t us) (Some args) lit = fill_template t us lits \<and>
    ((\<exists>s. fill_template t us lits = Inr s) \<longleftrightarrow> length us = length args)"
proof -
  have "(\<exists>s. fill_template t us lits = Inr s) \<longleftrightarrow> length us = length lits"
    by (induction t us lits rule: fill_template.induct) (auto simp: bind_res_def split: sum.splits)
  with assms show ?thesis
    by (simp add: mogrify_query_def collect_res_ok mogrify_loop_template list_all2_lengthD)
qed

theorem mogrify_fills_template_witness:
  "mogrify_query ''x LIKE %s'' (Some [()]) (\<lambda>_. Inr ''%s'') = Inr ''x LIKE %s'' \<and>
   mogrify_query ''10%% of %s'' (Some [True, False]) (\<lambda>_. Inr ''x'') = Inl too_many_arguments"
  using mogrify_fills_template [of "\<lambda>_. Inr ''%s''" "[()]" "[''%s'']" "''x LIKE ''" "[[]]"]
    mogrify_fills_template [of "\<lambda>_. Inr ''x''" "[True, False]" "[''x'', ''x'']" "''10% of ''" "[[]]"]
  by (simp add: escape_percent_def replace_char_def)

end
