(* ===== verification/Client_Exchange.thy ===== *)
theory Client_Exchange
  imports Client_Query
begin

text \<open>
  Exchanges of the client with a server that answers: what the server sends for a statement, as an
  abstract reply, and that the client returns exactly what the reply says, over any segmentation of the
  bytes and for any sequence of statements.
\<close>

section \<open>Replies\<close>

text \<open>
  A reply is an OK packet (affected rows, insert id, status, warnings, message) or a result set (column
  definitions, rows of optional cells, warnings and status of the first and of the final EOF packet).
\<close>

datatype server_reply =
    OkReply nat nat u16 u16 bytes
  | RowsReply "bytes list" "bytes option list list" u16 u16 u16 u16

fun reply_packets :: "server_reply \<Rightarrow> bytes list" where
  "reply_packets (OkReply n i s w msg) = [ok_packet n i s w msg]"
| "reply_packets (RowsReply cols rows w1 s1 w2 s2) = resultset_packets cols rows w1 s1 w2 s2"

fun reply_status :: "server_reply \<Rightarrow> u16" where
  "reply_status (OkReply n i s w msg) = s"
| "reply_status (RowsReply cols rows w1 s1 w2 s2) = s2"

fun reply_affected :: "server_reply \<Rightarrow> int" where
  "reply_affected (OkReply n i s w msg) = sint (word_of_nat n :: u64)"
| "reply_affected (RowsReply cols rows w1 s1 w2 s2) = 0"

definition parse_columns :: "'x env \<Rightarrow> 'x connection \<Rightarrow> bytes list \<Rightarrow> field_descriptor_packet list" where
  "parse_columns V c cols = map (\<lambda>d. projr (field_parse (env_encodings V) d (cn_encoding c))) cols"

fun reply_rows :: "'x env \<Rightarrow> 'x connection \<Rightarrow> server_reply \<Rightarrow> 'x mysql_value list list" where
  "reply_rows V c (OkReply n i s w msg) = []"
| "reply_rows V c (RowsReply cols rows w1 s1 w2 s2) = map (decode_row V c (parse_columns V c cols)) rows"

fun reply_description :: "'x env \<Rightarrow> 'x connection \<Rightarrow> server_reply \<Rightarrow> column_description list option" where
  "reply_description V c (OkReply n i s w msg) = None"
| "reply_description V c (RowsReply cols rows w1 s1 w2 s2) = Some (map description (parse_columns V c cols))"

fun reply_wf :: "'x env \<Rightarrow> 'x connection \<Rightarrow> server_reply \<Rightarrow> bool" where
  "reply_wf V c (OkReply n i s w msg) \<longleftrightarrow> n < 2 ^ 64 \<and> i < 2 ^ 64 \<and> length (ok_packet n i s w msg) \<le> usize_max"
| "reply_wf V c (RowsReply cols rows w1 s1 w2 s2) \<longleftrightarrow>
     list_all (\<lambda>d. \<not> isl (field_parse (env_encodings V) d (cn_encoding c))) cols \<and> cols \<noteq> [] \<and>
     length cols < 2 ^ 64 \<and> list_all (row_ok (length cols)) rows"

text \<open>A reply that is the only answer to its statement and fits the limits of the client.\<close>

definition reply_ok :: "'x env \<Rightarrow> 'x connection \<Rightarrow> server_reply \<Rightarrow> bool" where
  "reply_ok V c rp \<longleftrightarrow> reply_wf V c rp \<and> \<not> bit (reply_status rp) 3 \<and>
     deliverable (ps_max_allowed_packet (cn_packet_stream c)) (reply_packets rp)"

text \<open>What decoding depends on.\<close>

definition same_codec :: "'x connection \<Rightarrow> 'x connection \<Rightarrow> bool" where
  "same_codec c c' \<longleftrightarrow> cn_options c' = cn_options c \<and> cn_encoding c' = cn_encoding c \<and>
     cn_use_unicode c' = cn_use_unicode c \<and> cn_field_converters c' = cn_field_converters c \<and>
     ps_max_allowed_packet (cn_packet_stream c') = ps_max_allowed_packet (cn_packet_stream c)"

lemma same_codec_feed: "same_codec c c' \<Longrightarrow> feed_packet V p c' = feed_packet V p c"
  by (rule feed_packet_cong) (simp_all add: same_codec_def)

lemma same_codec_decode:
  assumes "same_codec c c'"
  shows "decode_row V c' = decode_row V c"
proof -
  have "build_converter V f c' = build_converter V f c" for f
    using assms by (simp add: same_codec_def build_converter_def field_encoding_def)
  then show ?thesis by (intro ext) (simp add: decode_row_def)
qed

lemma same_codec_columns: "same_codec c c' \<Longrightarrow> parse_columns V c' = parse_columns V c"
  by (rule ext) (simp add: same_codec_def parse_columns_def)

lemma same_codec_rows:
  assumes "same_codec c c'"
  shows "reply_rows V c' rp = reply_rows V c rp"
  by (cases rp) (simp_all only: reply_rows.simps same_codec_decode [OF assms] same_codec_columns [OF assms])

lemma same_codec_description: "same_codec c c' \<Longrightarrow> reply_description V c' rp = reply_description V c rp"
  by (cases rp) (simp_all add: same_codec_columns)

lemma same_codec_reply_ok: "same_codec c c' \<Longrightarrow> reply_ok V c' rp = reply_ok V c rp"
  by (cases rp) (simp_all add: same_codec_def reply_ok_def)

lemma same_codec_refl [simp]: "same_codec c c"
  by (simp add: same_codec_def)

lemma same_codec_trans: "same_codec c c' \<Longrightarrow> same_codec c' c'' \<Longrightarrow> same_codec c c''"
  by (simp add: same_codec_def)

section \<open>Replies fed to a result\<close>

lemma feed_ok:
  assumes "n < 2 ^ 64" and "i < 2 ^ 64" and "length (ok_packet n i s w msg) \<le> usize_max" and "mr_read_state r = RS_Initial"
  shows "feed_packet V (packet_new (ok_packet n i s w msg)) conn r =
    (Inr FR_Done, r\<lparr>mr_affected_rows := sint (word_of_nat n :: u64), mr_insert_id := Some (word_of_nat i),
       mr_server_status := Some s, mr_warning_count := w, mr_message := Some msg, mr_has_next := bit s 3,
       mr_read_state := RS_Done\<rparr>)"
  using assms is_ok_packet_ok [of n i s w msg]
  by (simp add: feed_packet_def feed_initial_def run_reader_def ok_packet_decodes st_simps)

lemma parse_columns_ok:
  "list_all (\<lambda>d. \<not> isl (field_parse (env_encodings V) d (cn_encoding c))) cols \<Longrightarrow>
     list_all2 (\<lambda>d f. field_parse (env_encodings V) d (cn_encoding c) = Inr f) cols (parse_columns V c cols)"
  by (induction cols) (auto simp: parse_columns_def split: sum.splits)

text \<open>The result that a reply gives.\<close>

definition answers :: "'x env \<Rightarrow> 'x connection \<Rightarrow> server_reply \<Rightarrow> 'x mysql_result \<Rightarrow> bool" where
  "answers V c rp r \<longleftrightarrow> mr_affected_rows r = reply_affected rp \<and> rows_of r = reply_rows V c rp \<and>
     mr_description r = reply_description V c rp \<and> mr_server_status r = Some (reply_status rp) \<and> mr_has_next r = bit (reply_status rp) 3 \<and>
     \<not> mr_unbuffered_active r \<and> is_done r"

lemma feed_reply:
  assumes "reply_wf V c rp"
  shows "\<exists>r. feed_packets V c (reply_packets rp @ ps) (result_new\<lparr>mr_unbuffered_active := False\<rparr>) = (Inr (FR_Done, ps), r) \<and>
    answers V c rp r"
proof (cases rp)
  case (OkReply n i s w msg)
  let ?r = "result_new\<lparr>mr_unbuffered_active := False\<rparr>"
  have "mr_read_state ?r = RS_Initial" by (simp add: result_new_def)
  from feed_ok [OF _ _ _ this, of n i s w msg V c] assms OkReply
  have "feed_packets V c (reply_packets rp @ ps) ?r = (Inr (FR_Done, ps), ?r\<lparr>mr_affected_rows := sint (word_of_nat n :: u64),
      mr_insert_id := Some (word_of_nat i), mr_server_status := Some s, mr_warning_count := w, mr_message := Some msg,
      mr_has_next := bit s 3, mr_read_state := RS_Done\<rparr>)"
    by (simp add: bind_st_def ret_def)
  with OkReply show ?thesis by (simp add: answers_def result_new_def rows_of_def is_done_def)
next
  case (RowsReply cols rows w1 s1 w2 s2)
  with assms have h: "list_all2 (\<lambda>d f. field_parse (env_encodings V) d (cn_encoding c) = Inr f) cols (parse_columns V c cols)"
      "cols \<noteq> []" "length cols < 2 ^ 64" "list_all (row_ok (length cols)) rows"
    by (simp_all add: parse_columns_ok)
  show ?thesis
    using feed_resultset [OF h, of "result_new\<lparr>mr_unbuffered_active := False\<rparr>" w1 s1 w2 s2 ps] RowsReply
    by (simp add: answers_def result_new_def rows_of_def is_done_def)
qed

lemma reply_first: "reply_wf V c rp \<Longrightarrow> \<exists>p ps. reply_packets rp = p # ps \<and> \<not> is_load_local_packet (packet_new p)"
proof (cases rp)
  case (OkReply n i s w msg)
  then show ?thesis by (simp add: ok_packet_def is_load_local_packet_def packet_new_def first_byte_def)
next
  case (RowsReply cols rows w1 s1 w2 s2)
  obtain b bs where "lenenc_int (length cols) = b # bs" "b \<noteq> 0xFB" using lenenc_int_start [of "length cols"] by metis
  with RowsReply show ?thesis
    by (simp add: resultset_packets_def is_load_local_packet_def packet_new_def first_byte_def)
qed

section \<open>The client's loop\<close>

definition store_client_result :: "'x mysql_result \<Rightarrow> ('x client, int) rs" where
  "store_client_result r k = (Inr (mr_affected_rows r), k\<lparr>cl_inner := core_set_result r (cl_inner k)\<rparr>)"

lemma receives_codec: "receives k k' \<Longrightarrow> same_codec (cl_inner k) (cl_inner k')"
  by (auto simp: receives_def same_codec_def)

interpretation net_loop: result_loop "client_read_packet (w_env W)" "\<lambda>ps. client_sees fin ps es" receives "w_env W" cl_inner
    "client_result_loop W False" store_client_result
  for W :: "'x world" and fin es
proof unfold_locales
  fix s s' :: "'x client" and p r r'
  assume "client_read_packet (w_env W) s = (Inr p, s')" and "feed_packet (w_env W) p (cl_inner s') r = (Inr FR_NeedMore, r')"
  then show "client_result_loop W False r s = client_result_loop W False r' s'"
    by (subst client_result_loop.simps) simp
next
  fix s s' :: "'x client" and p r r' x
  assume "client_read_packet (w_env W) s = (Inr p, s')" and "feed_packet (w_env W) p (cl_inner s') r = (Inr x, r')"
    and "x \<noteq> FR_NeedMore"
  then show "client_result_loop W False r s = store_client_result r' s'"
    by (subst client_result_loop.simps) (cases x; simp add: store_client_result_def)
next
  fix s s' :: "'x client" and p
  assume "receives s s'"
  then show "feed_packet (w_env W) p (cl_inner s') = feed_packet (w_env W) p (cl_inner s)"
    by (intro same_codec_feed receives_codec)
qed

lemma client_result_loop_first:
  assumes "client_sees fin (p # ps) es k" and "\<not> is_load_local_packet (packet_new p)"
  shows "client_result_loop W True r k = client_result_loop W False r k"
proof -
  obtain k' where "client_read_packet (w_env W) k = (Inr (packet_new p), k')"
    using assms(1) by (rule net_source.next_seesE)
  with assms(2) show ?thesis
    by (subst client_result_loop.simps, subst (2) client_result_loop.simps) simp
qed

lemma read_reply_loop:
  assumes "reply_wf (w_env W) (cl_inner k) rp" and "client_sees fin (reply_packets rp @ ps) es k"
  shows "\<exists>k' r. client_result_loop W False (result_new\<lparr>mr_unbuffered_active := False\<rparr>) k = store_client_result r k' \<and>
    answers (w_env W) (cl_inner k) rp r \<and> client_sees fin ps es k' \<and> receives k k'"
proof -
  let ?r = "result_new\<lparr>mr_unbuffered_active := False\<rparr>"
  obtain r where r: "feed_packets (w_env W) (cl_inner k) (reply_packets rp) ?r = (Inr (FR_Done, []), r)"
      "answers (w_env W) (cl_inner k) rp r"
    using feed_reply [OF assms(1), of "[]"] by auto
  have "\<exists>k'. client_result_loop W False ?r k = store_client_result r k' \<and> client_sees fin ([] @ ps) es k' \<and> receives k k'"
    by (rule net_loop.loop_feeds [OF r(1) feed_result.distinct(1) [symmetric] assms(2) receives_refl])
  then show ?thesis using r(2) by auto
qed

lemma read_reply:
  assumes "reply_wf (w_env W) (cl_inner k) rp" and "client_sees fin (reply_packets rp @ ps) es k"
  shows "\<exists>k' r. client_read_query_result W False k = store_client_result r k' \<and>
    answers (w_env W) (cl_inner k) rp r \<and> client_sees fin ps es k' \<and> receives k k'"
proof -
  obtain p qs where p: "reply_packets rp = p # qs" "\<not> is_load_local_packet (packet_new p)"
    using reply_first [OF assms(1)] by blast
  have "client_result_loop W True r k = client_result_loop W False r k" for r
    using assms(2) p by (intro client_result_loop_first) simp_all
  with read_reply_loop [OF assms] show ?thesis by (simp add: client_read_query_result_def)
qed

section \<open>Idle clients\<close>

text \<open>Between two statements: nothing queued, nothing buffered, no result left to read.\<close>

definition settled :: "'x mysql_result option \<Rightarrow> bool" where
  "settled r \<longleftrightarrow> (case r of None \<Rightarrow> True | Some r \<Rightarrow> \<not> mr_has_next r \<and> \<not> mr_unbuffered_active r)"

definition client_idle :: "'x client \<Rightarrow> bool" where
  "client_idle k \<longleftrightarrow>
     (let c = cl_inner k; st = cn_packet_stream c
      in cl_stream k \<noteq> None \<and> cl_wfail k = [] \<and> \<not> cn_closed c \<and> plain_idle st \<and> ps_send_queue st = [] \<and>
         ps_recv_queue st = [] \<and> ps_recv_buffer st = [] \<and> settled (cn_result c))"

lemma finish_previous_settled:
  "settled (cn_result c) \<Longrightarrow> finish_previous V c = (Inr (), c\<lparr>cn_result := None\<rparr>)"
  by (cases "cn_result c")
    (simp_all add: finish_previous_def st_simps settled_def drain_results.simps)

text \<open>The client once a command has been written.\<close>

definition sent_command :: "u8 \<Rightarrow> bytes \<Rightarrow> 'x client \<Rightarrow> 'x client" where
  "sent_command cmd arg k = k\<lparr>cl_inner := (cl_inner k)\<lparr>cn_result := None, cn_packet_stream :=
       (cn_packet_stream (cl_inner k))\<lparr>ps_next_seq_id := seq_after 0 (cmd # arg), ps_next_compressed_seq_id := 0,
         ps_send_queue := []\<rparr>\<rparr>,
     cl_out := cl_out k @ frames 0 (cmd # arg)\<rparr>"

text \<open>The connection once a command has been queued.\<close>

definition issued :: "u8 \<Rightarrow> bytes \<Rightarrow> 'x connection \<Rightarrow> 'x connection" where
  "issued cmd arg c = c\<lparr>cn_result := None, cn_packet_stream := (cn_packet_stream c)\<lparr>ps_next_seq_id := seq_after 0 (cmd # arg),
     ps_next_compressed_seq_id := 0, ps_send_queue := [frames 0 (cmd # arg)]\<rparr>\<rparr>"

lemma execute_idle:
  assumes "client_idle k"
  shows "core_execute_command V cmd arg (cl_inner k) = (Inr (), issued cmd arg (cl_inner k))"
proof -
  let ?c = "cl_inner k"
  have "\<not> cn_closed ?c" "\<not> ps_compressed (cn_packet_stream ?c)" "ps_send_queue (cn_packet_stream ?c) = []" "settled (cn_result ?c)"
    using assms by (auto simp: client_idle_def Let_def plain_idle_def)
  then show ?thesis
    using write_packet_plain [of "?c\<lparr>cn_result := None, cn_packet_stream := ps_reset_seq_id (cn_packet_stream ?c)\<rparr>"]
    by (simp add: core_execute_command_alt st_simps finish_previous_settled ps_reset_seq_id_def issued_def)
qed

lemma pump_write_issued:
  "client_idle k \<Longrightarrow> pump_write (k\<lparr>cl_inner := issued cmd arg (cl_inner k)\<rparr>) = (Inr (), sent_command cmd arg k)"
  using pump_write_out [of "k\<lparr>cl_inner := issued cmd arg (cl_inner k)\<rparr>"]
  by (simp add: client_idle_def Let_def issued_def sent_command_def)

lemma write_command:
  assumes "client_idle k"
  shows "bind_st (lift_inner (core_execute_command V cmd arg)) (\<lambda>_. bind_st pump_write f) k = f () (sent_command cmd arg k)"
  using execute_idle [OF assms] pump_write_issued [OF assms] by (simp add: bind_st_def lift_inner_def)

lemma client_query_idle:
  assumes "client_idle k"
  shows "client_query W sql u k = client_read_query_result W u (sent_command COM_QUERY (as_bytes sql) k)"
proof -
  have "\<not> unbuffered_active k"
    using assms by (auto simp: client_idle_def Let_def settled_def unbuffered_active_def split: option.splits)
  then have "client_finish_unbuffered_query (w_env W) k = (Inr (), k)"
    by (subst client_finish_unbuffered_query.simps) simp
  with write_command [OF assms] show ?thesis by (simp add: client_query_def bind_st_ok)
qed

text \<open>The packets \<open>ps\<close> arrive as the answer to a command, cut into the reads \<open>segs\<close>.\<close>

definition arrives :: "u8 \<Rightarrow> bytes \<Rightarrow> bytes list \<Rightarrow> bytes list \<Rightarrow> bool" where
  "arrives cmd arg ps segs \<longleftrightarrow> [] \<notin> set segs \<and> concat segs = stream_of (seq_after 0 (cmd # arg)) ps"

lemma arrives_not_Nil: "arrives cmd arg (p # ps) segs \<Longrightarrow> segs \<noteq> []"
  using frames_length [of p "seq_after 0 (cmd # arg)"] by (auto simp: arrives_def dest: sym)

lemma sent_command_sees:
  assumes "client_idle k" and "cl_in k = map Recv segs @ es" and "arrives cmd arg ps segs" and "ps \<noteq> []"
    and "deliverable (ps_max_allowed_packet (cn_packet_stream (cl_inner k))) ps"
  shows "client_sees (foldl seq_after (seq_after 0 (cmd # arg)) ps) ps es (sent_command cmd arg k)"
proof -
  have "segs \<noteq> []" using assms(3,4) arrives_not_Nil by (cases ps) auto
  with assms show ?thesis
    unfolding client_sees_def Let_def
    by (intro conjI exI [of _ "[]"] exI [of _ ps] exI [of _ segs])
      (auto simp: client_idle_def Let_def sent_command_def plain_idle_def arrives_def)
qed

lemma sent_command_codec: "same_codec (cl_inner k) (cl_inner (sent_command cmd arg k))"
  by (simp add: same_codec_def sent_command_def)

lemma sees_nothing:
  "client_sees fin [] es k \<Longrightarrow> cl_in k = es \<and> cl_stream k \<noteq> None \<and> plain_idle (cn_packet_stream (cl_inner k)) \<and>
     recv_queue (cl_inner k) = [] \<and> ps_recv_buffer (cn_packet_stream (cl_inner k)) = [] \<and>
     ps_next_seq_id (cn_packet_stream (cl_inner k)) = fin"
  by (auto simp: client_sees_def Let_def)

lemma idle_after:
  assumes "client_idle k" and "receives (sent_command cmd arg k) k'" and "client_sees fin [] es k'"
    and "\<not> mr_has_next r" and "\<not> mr_unbuffered_active r"
  shows "client_idle (k'\<lparr>cl_inner := core_set_result r (cl_inner k')\<rparr>)"
  using assms(1,4,5) sees_nothing [OF assms(3)] receives_sel [OF assms(2)]
  by (auto simp: client_idle_def Let_def core_set_result_def settled_def sent_command_def)

section \<open>A statement and its reply\<close>

definition client_rows :: "'x client \<Rightarrow> 'x mysql_value list list" where
  "client_rows k = (case cn_result (cl_inner k) of Some r \<Rightarrow> rows_of r | None \<Rightarrow> [])"

definition client_description :: "'x client \<Rightarrow> column_description list option" where
  "client_description k = Option.bind (cn_result (cl_inner k)) mr_description"

lemma query_reply:
  assumes "client_idle k" and "reply_ok (w_env W) (cl_inner k) rp"
    and "cl_in k = map Recv segs @ es" and "arrives COM_QUERY (as_bytes sql) (reply_packets rp) segs"
  shows "\<exists>k'. client_query W sql False k = (Inr (reply_affected rp), k') \<and> client_idle k' \<and>
    cl_in k' = es \<and> cl_out k' = cl_out k @ frames 0 (COM_QUERY # as_bytes sql) \<and>
    client_rows k' = reply_rows (w_env W) (cl_inner k) rp \<and> cn_server_status (cl_inner k') = reply_status rp \<and>
    same_codec (cl_inner k) (cl_inner k') \<and> cl_transaction_dirty k' = cl_transaction_dirty k \<and> cl_stream k' = cl_stream k \<and>
    client_description k' = reply_description (w_env W) (cl_inner k) rp"
proof -
  let ?s = "sent_command COM_QUERY (as_bytes sql) k"
  note cod = sent_command_codec [of k COM_QUERY "as_bytes sql"]
  have wf: "reply_wf (w_env W) (cl_inner k) rp" "\<not> bit (reply_status rp) 3"
    using assms(2) by (simp_all add: reply_ok_def)
  have ok: "reply_ok (w_env W) (cl_inner ?s) rp" using assms(2) same_codec_reply_ok [OF cod] by simp
  then have wf': "reply_wf (w_env W) (cl_inner ?s) rp" by (simp add: reply_ok_def)
  have "reply_packets rp \<noteq> []" using reply_first [OF wf(1)] by auto
  then have "client_sees (foldl seq_after (seq_after 0 (COM_QUERY # as_bytes sql)) (reply_packets rp)) (reply_packets rp @ []) es ?s"
    using assms by (simp add: sent_command_sees reply_ok_def)
  from read_reply [OF wf' this] obtain k1 r fin where
    k1: "client_read_query_result W False ?s = store_client_result r k1" "client_sees fin [] es k1" "receives ?s k1"
      "answers (w_env W) (cl_inner ?s) rp r" by blast
  let ?k = "k1\<lparr>cl_inner := core_set_result r (cl_inner k1)\<rparr>"
  have r: "mr_affected_rows r = reply_affected rp" "rows_of r = reply_rows (w_env W) (cl_inner k) rp"
      "mr_server_status r = Some (reply_status rp)" "\<not> mr_has_next r" "\<not> mr_unbuffered_active r"
      "mr_description r = reply_description (w_env W) (cl_inner k) rp"
    using k1(4) wf(2) same_codec_rows [OF cod] same_codec_description [OF cod] by (simp_all add: answers_def)
  have "client_query W sql False k = (Inr (reply_affected rp), ?k)"
    using client_query_idle [OF assms(1)] k1(1) r(1) by (simp add: store_client_result_def)
  moreover have "client_idle ?k" by (rule idle_after [OF assms(1) k1(3,2) r(4,5)])
  moreover have "same_codec (cl_inner k) (cl_inner ?k)"
    using same_codec_trans [OF cod receives_codec [OF k1(3)]] by (simp add: same_codec_def core_set_result_def)
  ultimately show ?thesis
    using sees_nothing [OF k1(2)] receives_sel(1-4) [OF k1(3)] r
    by (intro exI [of _ ?k]) (simp add: sent_command_def client_rows_def client_description_def core_set_result_def)
qed

section \<open>Sessions\<close>

text \<open>A sequence of statements, with the value and the rows of each.\<close>

fun run_session :: "'x world \<Rightarrow> string list \<Rightarrow> ('x client, (int \<times> 'x mysql_value list list) list) rs" where
  "run_session W [] = ret []"
| "run_session W (sql # sqls) =
     bind_st (client_query W sql False) (\<lambda>n.
     bind_st get_st (\<lambda>k.
     bind_st (run_session W sqls) (\<lambda>xs. ret ((n, client_rows k) # xs))))"

text \<open>The server's side: each statement with its reply and the reads in which the reply arrives.\<close>

type_synonym exchange = "string \<times> server_reply \<times> bytes list"

definition exchange_ok :: "'x env \<Rightarrow> 'x connection \<Rightarrow> exchange \<Rightarrow> bool" where
  "exchange_ok V c x = (case x of (sql, rp, segs) \<Rightarrow>
     reply_ok V c rp \<and> arrives COM_QUERY (as_bytes sql) (reply_packets rp) segs)"

text \<open>C4: The client implements the abstract session.  On an idle client, a sequence of statements returns, for
  each of them, exactly the affected rows and the decoded rows of the server's reply to it (an OK packet or
  one result set, in packets shorter than \<open>2^24 - 1\<close> bytes), in order and none mixed up, in whatever pieces the replies arrive; the server is sent
  exactly the statements, each framed from sequence number zero; the input is read exactly to the end of the
  last reply; and the client is idle again.\<close>

theorem session_delivers:
  assumes "client_idle k" and "list_all (exchange_ok (w_env W) (cl_inner k)) xs"
    and "cl_in k = concat (map (\<lambda>(_, _, segs). map Recv segs) xs) @ es"
  shows "\<exists>k'. run_session W (map fst xs) k =
      (Inr (map (\<lambda>(_, rp, _). (reply_affected rp, reply_rows (w_env W) (cl_inner k) rp)) xs), k') \<and>
    cl_out k' = cl_out k @ concat (map (\<lambda>(sql, _). frames 0 (COM_QUERY # as_bytes sql)) xs) \<and>
    cl_in k' = es \<and> client_idle k'"
  using assms
proof (induction xs arbitrary: k)
  case Nil
  then show ?case by (simp add: ret_def)
next
  case (Cons x xs)
  obtain sql rp segs where x: "x = (sql, rp, segs)" by (cases x)
  let ?es = "concat (map (\<lambda>(_, _, segs). map Recv segs) xs) @ es"
  obtain k1 where k1: "client_query W sql False k = (Inr (reply_affected rp), k1)" "client_idle k1" "cl_in k1 = ?es"
      "cl_out k1 = cl_out k @ frames 0 (COM_QUERY # as_bytes sql)" "client_rows k1 = reply_rows (w_env W) (cl_inner k) rp"
      "same_codec (cl_inner k) (cl_inner k1)"
    using query_reply [OF Cons.prems(1), of W rp segs ?es sql] Cons.prems(2,3) by (auto simp: x exchange_ok_def)
  have ok: "list_all (exchange_ok (w_env W) (cl_inner k1)) xs"
    using Cons.prems(2) same_codec_reply_ok [OF k1(6)] by (simp add: exchange_ok_def [abs_def])
  from Cons.IH [OF k1(2) ok k1(3)] obtain k2 where
    "run_session W (map fst xs) k1 =
        (Inr (map (\<lambda>(_, rp, _). (reply_affected rp, reply_rows (w_env W) (cl_inner k1) rp)) xs), k2)"
      "cl_out k2 = cl_out k1 @ concat (map (\<lambda>(sql, _). frames 0 (COM_QUERY # as_bytes sql)) xs)"
      "cl_in k2 = es" "client_idle k2" by blast
  then show ?case
    using k1 same_codec_rows [OF k1(6)] by (simp add: x st_simps)
qed

definition sample_world :: "int world" where
  "sample_world = \<lparr>w_env = sample_env, w_read_file = (\<lambda>f. if f = ''/h/f'' then Inr [49, 10] else Inl ''no such file''),
     w_var = (\<lambda>v. if v = ''HOME'' then Some ''/h'' else None)\<rparr>"

lemma sample_client_idle: "client_idle (sample_client\<lparr>cl_in := ev\<rparr>)"
  by (simp add: client_idle_def Let_def sample_client_def sample_conn_def connection_new_def ps_new_def plain_idle_def
      settled_def)

lemma sample_deliverable:
  "deliverable (ps_max_allowed_packet (cn_packet_stream sample_conn)) ps \<longleftrightarrow>
     list_all (\<lambda>p. length p < 16777215 \<and> not_err p) ps"
  by (simp add: deliverable_def sample_conn_def connection_new_def ps_new_def default_options_def usize_max_def
      MAX_PACKET_LEN_def list_all_iff) auto

definition sample_rows_reply :: server_reply where
  "sample_rows_reply = RowsReply [sample_column] [[Some [52, 50]], [None]] 0 2 0 2"

lemma sample_rows_reply_ok: "reply_ok sample_env sample_conn sample_rows_reply"
proof -
  have "not_err sample_column" "length sample_column < 16777215"
    by (simp_all add: sample_column_def column_packet_def lenenc_string_def lenenc_int_def to_le_bytes_length)
  moreover have "\<not> isl (field_parse (env_encodings sample_env) sample_column (cn_encoding sample_conn))"
    by (simp add: sample_env_def sample_column_parses)
  ultimately show ?thesis
    using sample_columns_ok(2)
    by (simp add: reply_ok_def sample_rows_reply_def sample_deliverable resultset_packets_def eof_packet_def
        text_row_def lenenc_string_def lenenc_int_def to_le_bytes_length)
qed

lemma sample_rows_reply_rows: "reply_rows sample_env sample_conn sample_rows_reply = [[VInt 42], [VNull]]"
proof -
  have "env_encodings sample_env = sample_encodings" by (simp add: sample_env_def)
  then show ?thesis by (simp add: sample_rows_reply_def parse_columns_def sample_column_parses sample_cells)
qed

theorem session_delivers_witness:
  "\<exists>segs k'. run_session sample_world [''DO 1'', ''SELECT a FROM t'']
      (sample_client\<lparr>cl_in := [Recv [7, 0, 0], Recv [1, 0, 1, 0, 2, 0, 0, 0]] @ map Recv segs\<rparr>) =
    (Inr [(1, []), (0, [[VInt 42], [VNull]])], k') \<and> client_idle k'"
proof -
  let ?rows = "stream_of (seq_after 0 (COM_QUERY # as_bytes ''SELECT a FROM t'')) (reply_packets sample_rows_reply)"
  let ?xs = "[(''DO 1'', OkReply 1 0 2 0 [], [[7, 0, 0], [1, 0, 1, 0, 2, 0, 0, 0]]),
    (''SELECT a FROM t'', sample_rows_reply, [?rows])]"
  let ?k = "sample_client\<lparr>cl_in := [Recv [7, 0, 0], Recv [1, 0, 1, 0, 2, 0, 0, 0]] @ map Recv [?rows]\<rparr>"
  have c: "cl_inner ?k = sample_conn" "w_env sample_world = sample_env"
    by (simp_all add: sample_client_def sample_world_def)
  have ok: "ok_packet 1 0 2 0 [] = [0, 1, 0, 2, 0, 0, 0]"
    by (simp add: ok_packet_def lenenc_int_def to_le_bytes_def byte_eval)
  have seq: "seq_after 0 (COM_QUERY # as_bytes ''DO 1'') = 1"
    by (simp add: seq_after_def frame_count_def MAX_PACKET_LEN_def)
  have "reply_ok sample_env sample_conn (OkReply 1 0 2 0 [])"
    by (simp add: reply_ok_def sample_deliverable ok [simplified] usize_max_def)
  moreover have "arrives COM_QUERY (as_bytes ''DO 1'') (reply_packets (OkReply 1 0 2 0 [])) [[7, 0, 0], [1, 0, 1, 0, 2, 0, 0, 0]]"
    unfolding arrives_def seq
    by (simp add: ok [simplified] frames.simps frame_def MAX_PACKET_LEN_def write_int3_eq byte_eval)
  moreover have "?rows \<noteq> []"
    using frames_length [of "lenenc_int 1" "seq_after 0 (COM_QUERY # as_bytes ''SELECT a FROM t'')"]
    by (auto simp: sample_rows_reply_def resultset_packets_def)
  ultimately have "list_all (exchange_ok (w_env sample_world) (cl_inner ?k)) ?xs"
    using sample_rows_reply_ok unfolding c by (simp add: exchange_ok_def arrives_def)
  from session_delivers [OF sample_client_idle this] obtain k' where
    "run_session sample_world (map fst ?xs) ?k =
       (Inr (map (\<lambda>(_, rp, _). (reply_affected rp, reply_rows (w_env sample_world) (cl_inner ?k) rp)) ?xs), k')" "client_idle k'"
    by auto
  moreover have "reply_affected sample_rows_reply = 0" by (simp add: sample_rows_reply_def)
  ultimately show ?thesis
    unfolding c by (intro exI [of _ "[?rows]"] exI [of _ k']) (simp add: sample_rows_reply_rows)
qed

end
