(* ===== verification/Client_Files.thy ===== *)
theory Client_Files
  imports Client_Exchange
begin

text \<open>
  Local files: what \<open>LOAD DATA LOCAL INFILE\<close> sends when the option \<open>local_infile\<close> allows it, and that nothing
  of the file system reaches a server when it does not.
\<close>

section \<open>Chunks\<close>

lemma chunks_Nil [simp]: "chunks n [] = []"
  by (subst chunks.simps) simp

lemma chunks_Cons: "0 < n \<Longrightarrow> xs \<noteq> [] \<Longrightarrow> chunks n xs = take n xs # chunks n (drop n xs)"
  by (subst chunks.simps) simp

lemma chunks_props:
  assumes "0 < n"
  shows "concat (chunks n xs) = xs" and "list_all (\<lambda>ys. ys \<noteq> [] \<and> length ys \<le> n) (chunks n xs)"
proof -
  have "concat (chunks n xs) = xs \<and> list_all (\<lambda>ys. ys \<noteq> [] \<and> length ys \<le> n) (chunks n xs)"
  proof (induction "length xs" arbitrary: xs rule: less_induct)
    case less
    show ?case
    proof (cases "xs = []")
      case False
      with assms have "length (drop n xs) < length xs" by (cases xs) simp_all
      from less [OF this] assms False show ?thesis by (simp add: chunks_Cons)
    qed simp
  qed
  then show "concat (chunks n xs) = xs" "list_all (\<lambda>ys. ys \<noteq> [] \<and> length ys \<le> n) (chunks n xs)" by simp_all
qed

section \<open>Sending a file\<close>

definition with_stream :: "packet_stream \<Rightarrow> 'x client \<Rightarrow> 'x client" where
  "with_stream st k = k\<lparr>cl_inner := (cl_inner k)\<lparr>cn_packet_stream := st\<rparr>\<rparr>"

abbreviation stream_st :: "'x client \<Rightarrow> packet_stream" where
  "stream_st k \<equiv> cn_packet_stream (cl_inner k)"

lemma stream_of_Cons: "stream_of seq (p # ps) = frames seq p @ stream_of (seq_after seq p) ps"
  by (simp add: seq_after_def)

lemma write_packets_plain:
  assumes "\<not> ps_compressed (stream_st k)"
  shows "\<exists>q. write_packets V ps k = (Inr (), with_stream ((stream_st k)\<lparr>
      ps_next_seq_id := foldl seq_after (ps_next_seq_id (stream_st k)) ps, ps_send_queue := ps_send_queue (stream_st k) @ q\<rparr>) k) \<and>
    concat q = stream_of (ps_next_seq_id (stream_st k)) ps"
  using assms
proof (induction ps arbitrary: k)
  case Nil
  then show ?case by (intro exI [of _ "[]"]) (simp add: ret_def with_stream_def)
next
  case (Cons p ps)
  let ?seq = "ps_next_seq_id (stream_st k)"
  let ?k = "with_stream ((stream_st k)\<lparr>ps_next_seq_id := seq_after ?seq p,
    ps_send_queue := ps_send_queue (stream_st k) @ [frames ?seq p]\<rparr>) k"
  have w: "lift_inner (conn_write_packet V p) k = (Inr (), ?k)"
    using write_packet_plain [OF Cons.prems, of V p] by (simp add: lift_inner_def with_stream_def)
  obtain q where q: "write_packets V ps ?k = (Inr (), with_stream ((stream_st ?k)\<lparr>
      ps_next_seq_id := foldl seq_after (ps_next_seq_id (stream_st ?k)) ps, ps_send_queue := ps_send_queue (stream_st ?k) @ q\<rparr>) ?k)"
      "concat q = stream_of (ps_next_seq_id (stream_st ?k)) ps"
    using Cons.IH [of ?k] Cons.prems by (auto simp: with_stream_def)
  then show ?case
    using w by (intro exI [of _ "frames ?seq p # q"]) (simp add: bind_st_ok with_stream_def stream_of_Cons del: stream_of.simps)
qed

lemma foldl_seq_stream: "stream_of seq (ps @ qs) = stream_of seq ps @ stream_of (foldl seq_after seq ps) qs"
  by (induction ps arbitrary: seq) (simp_all add: stream_of_Cons del: stream_of.simps(2))

lemma send_file:
  assumes "co_local_infile (cn_options (cl_inner k))" and "load_local_from_packet packet = Inr name"
    and "w_read_file W (expand_user W (from_utf8_lossy name)) = Inr d"
    and "\<not> ps_compressed (stream_st k)" and "ps_send_queue (stream_st k) = []"
    and "cl_stream k \<noteq> None" and "cl_wfail k = []"
  shows "send_load_local_file W packet k = (Inr (),
    (with_stream ((stream_st k)\<lparr>ps_next_seq_id := foldl seq_after (ps_next_seq_id (stream_st k)) (chunks CHUNK_SIZE d @ [[]])\<rparr>) k)
      \<lparr>cl_out := cl_out k @ stream_of (ps_next_seq_id (stream_st k)) (chunks CHUNK_SIZE d @ [[]])\<rparr>)"
proof -
  let ?seq = "ps_next_seq_id (stream_st k)"
  let ?seq1 = "foldl seq_after ?seq (chunks CHUNK_SIZE d)"
  obtain q where q: "write_packets (w_env W) (chunks CHUNK_SIZE d) k = (Inr (), with_stream ((stream_st k)\<lparr>
      ps_next_seq_id := ?seq1, ps_send_queue := q\<rparr>) k)" "concat q = stream_of ?seq (chunks CHUNK_SIZE d)"
    using write_packets_plain [OF assms(4), of "w_env W" "chunks CHUNK_SIZE d"] assms(5) by auto
  let ?st = "(stream_st k)\<lparr>ps_next_seq_id := ?seq1, ps_send_queue := q\<rparr>"
  let ?st' = "(stream_st k)\<lparr>ps_next_seq_id := seq_after ?seq1 [], ps_send_queue := q @ [frames ?seq1 []]\<rparr>"
  have w: "lift_inner (conn_write_packet (w_env W) []) (with_stream ?st k) = (Inr (), with_stream ?st' k)"
    using write_packet_plain [of "cl_inner (with_stream ?st k)" "w_env W" "[]"] assms(4)
    by (simp add: lift_inner_def with_stream_def)
  have p: "pump_write (with_stream ?st' k) = (Inr (), (with_stream ((stream_st k)\<lparr>ps_next_seq_id := seq_after ?seq1 []\<rparr>) k)
      \<lparr>cl_out := cl_out k @ concat (q @ [frames ?seq1 []])\<rparr>)"
    using pump_write_out [of "with_stream ?st' k"] assms(5-7) by (simp add: with_stream_def)
  show ?thesis
    using assms(1-3) q w p
    by (simp add: send_load_local_file_def st_simps Let_def foldl_seq_stream)
qed

lemma load_local_reads: "load_local_from_packet (packet_new (0xFB # name)) = Inr name"
  by (simp add: load_local_from_packet_def is_load_local_packet_def packet_new_def get_all_data_def first_byte_def)

lemma sees_more:
  assumes "client_sees fin [] (map Recv segs @ es) k" and "[] \<notin> set segs" and "concat segs = stream_of fin ps"
    and "deliverable (ps_max_allowed_packet (stream_st k)) ps" and "segs \<noteq> []" and "ps \<noteq> []"
  shows "client_sees (foldl seq_after fin ps) ps es k"
  using assms sees_nothing [OF assms(1)] unfolding client_sees_def Let_def
  by (intro conjI exI [of _ "[]"] exI [of _ ps] exI [of _ segs]) auto

lemma sees_with_seq:
  "client_sees fin [] es k \<Longrightarrow>
     client_sees q [] es ((with_stream ((stream_st k)\<lparr>ps_next_seq_id := q\<rparr>) k)\<lparr>cl_out := out\<rparr>)"
  by (auto simp: client_sees_def Let_def with_stream_def plain_idle_def deliverable_def)

text \<open>The reads in which the packets \<open>ps\<close> arrive from sequence number \<open>seq\<close> on.\<close>

definition arrives_from :: "u8 \<Rightarrow> bytes list \<Rightarrow> bytes list \<Rightarrow> bool" where
  "arrives_from seq ps segs \<longleftrightarrow> [] \<notin> set segs \<and> segs \<noteq> [] \<and> concat segs = stream_of seq ps"

text \<open>C20: A local file is sent completely and in order.  When the server answers a statement with a request for a
  file and \<open>local_infile\<close> is set, the client sends the contents of that file (a leading tilde expanded) in
  packets of at most 8192 bytes, none of them empty, ends them with an empty packet, continues the sequence
  numbers of the request, and then returns the server's final answer; the packets together are exactly
  the file.\<close>

theorem load_local_sends_file:
  assumes "client_idle k" and "co_local_infile (cn_options (cl_inner k))"
    and "w_read_file W (expand_user W (from_utf8_lossy name)) = Inr d"
    and "reply_ok (w_env W) (cl_inner k) (OkReply n i s w msg)"
    and "deliverable (ps_max_allowed_packet (stream_st k)) [0xFB # name]"
    and "cl_in k = map Recv sega @ map Recv segb @ es"
    and "arrives COM_QUERY (as_bytes sql) [0xFB # name] sega"
    and "seq = seq_after (seq_after 0 (COM_QUERY # as_bytes sql)) (0xFB # name)"
    and "ps = chunks CHUNK_SIZE d @ [[]]" and "arrives_from (foldl seq_after seq ps) [ok_packet n i s w msg] segb"
  shows "\<exists>k'. client_query W sql False k = (Inr (sint (word_of_nat n :: u64)), k') \<and> cl_in k' = es \<and> client_idle k' \<and>
    cl_out k' = cl_out k @ frames 0 (COM_QUERY # as_bytes sql) @ stream_of seq ps \<and>
    concat ps = d \<and> list_all (\<lambda>p. p \<noteq> [] \<and> length p \<le> CHUNK_SIZE) (butlast ps)"
proof -
  let ?V = "w_env W"
  let ?s = "sent_command COM_QUERY (as_bytes sql) k"
  let ?rp = "OkReply n i s w msg"
  let ?r = "result_new\<lparr>mr_unbuffered_active := False\<rparr>"
  have "client_sees (foldl seq_after (seq_after 0 (COM_QUERY # as_bytes sql)) [0xFB # name]) [0xFB # name] (map Recv segb @ es) ?s"
    using assms(1,5-7) by (intro sent_command_sees) simp_all
  then have "client_sees seq [0xFB # name] (map Recv segb @ es) ?s" by (simp add: assms(8))
  then obtain k1 where k1: "client_read_packet ?V ?s = (Inr (packet_new (0xFB # name)), k1)"
      "client_sees seq [] (map Recv segb @ es) k1" "receives ?s k1"
    by (rule net_source.next_seesE)
  note n1 = sees_nothing [OF k1(2)] and r1 = receives_sel [OF k1(3)]
  have cod: "same_codec (cl_inner k) (cl_inner k1)"
    using same_codec_trans [OF sent_command_codec receives_codec [OF k1(3)]] .
  have k1i: "co_local_infile (cn_options (cl_inner k1))" "\<not> ps_compressed (stream_st k1)" "ps_send_queue (stream_st k1) = []"
      "cl_stream k1 \<noteq> None" "cl_wfail k1 = []"
    using assms(1,2) n1 r1 cod by (auto simp: same_codec_def plain_idle_def client_idle_def Let_def sent_command_def)
  let ?k2 = "(with_stream ((stream_st k1)\<lparr>ps_next_seq_id := foldl seq_after seq ps\<rparr>) k1)\<lparr>cl_out := cl_out k1 @ stream_of seq ps\<rparr>"
  have send: "send_load_local_file W (packet_new (0xFB # name)) k1 = (Inr (), ?k2)"
    using send_file [OF k1i(1) load_local_reads assms(3) k1i(2-)] n1 by (simp add: assms(9))
  have cod2: "same_codec (cl_inner k) (cl_inner ?k2)" using cod by (simp add: same_codec_def with_stream_def)
  have ok: "reply_ok ?V (cl_inner ?k2) ?rp" using assms(4) same_codec_reply_ok [OF cod2] by simp
  have "client_sees (foldl seq_after (foldl seq_after seq ps) (reply_packets ?rp)) (reply_packets ?rp) es ?k2"
    using assms(10) ok sees_with_seq [OF k1(2)] unfolding arrives_from_def
    by (intro sees_more) (auto simp: reply_ok_def)
  then have sees: "client_sees (foldl seq_after (foldl seq_after seq ps) (reply_packets ?rp)) (reply_packets ?rp @ []) es ?k2"
    by simp
  have "reply_wf ?V (cl_inner ?k2) ?rp" "\<not> bit s 3" using ok by (simp_all add: reply_ok_def)
  from read_reply_loop [OF this(1) sees] this(2) obtain k3 r where
    k3: "client_result_loop W False ?r ?k2 = store_client_result r k3" "answers ?V (cl_inner ?k2) ?rp r"
      "client_sees (foldl seq_after (foldl seq_after seq ps) (reply_packets ?rp)) [] es k3" "receives ?k2 k3" "\<not> mr_has_next r"
    by (auto simp: answers_def)
  let ?k = "k3\<lparr>cl_inner := core_set_result r (cl_inner k3)\<rparr>"
  have "client_query W sql False k = client_result_loop W False ?r ?k2"
    unfolding client_query_idle [OF assms(1)] client_read_query_result_def
    using k1(1) send by (subst client_result_loop.simps) (simp add: is_load_local_packet_def packet_new_def first_byte_def)
  then have q: "client_query W sql False k = (Inr (sint (word_of_nat n :: u64)), ?k)"
    using k3(1,2) by (simp add: store_client_result_def answers_def)
  have "client_idle ?k"
    using assms(1) k3(2,5) sees_nothing [OF k3(3)] receives_sel [OF k3(4)] r1 k1i
    by (auto simp: client_idle_def Let_def core_set_result_def settled_def sent_command_def with_stream_def answers_def)
  moreover have "cl_in ?k = es" "cl_out ?k = cl_out k @ frames 0 (COM_QUERY # as_bytes sql) @ stream_of seq ps"
    using sees_nothing [OF k3(3)] receives_sel(2) [OF k3(4)] r1(2) by (simp_all add: sent_command_def with_stream_def)
  ultimately show ?thesis
    using q chunks_props [of CHUNK_SIZE d] by (simp add: assms(9) CHUNK_SIZE_def)
qed

theorem load_local_sends_file_witness:
  "\<exists>k'. client_query sample_world ''x'' False
      (sample_client\<lparr>cl_inner := sample_conn\<lparr>cn_options := default_options\<lparr>co_local_infile := True\<rparr>\<rparr>,
         cl_in := [Recv [4, 0, 0, 1, 0xFB, 0x7E, 0x2F, 0x66], Recv [7, 0, 0, 4, 0, 1, 0], Recv [2, 0, 0, 0]]\<rparr>) = (Inr 1, k') \<and>
    cl_out k' = [2, 0, 0, 0, 3, 0x78] @ [2, 0, 0, 2, 49, 10] @ [0, 0, 0, 3]"
proof -
  let ?c = "sample_conn\<lparr>cn_options := default_options\<lparr>co_local_infile := True\<rparr>\<rparr>"
  let ?k = "sample_client\<lparr>cl_inner := ?c,
    cl_in := [Recv [4, 0, 0, 1, 0xFB, 0x7E, 0x2F, 0x66], Recv [7, 0, 0, 4, 0, 1, 0], Recv [2, 0, 0, 0]]\<rparr>"
  have idle: "client_idle ?k"
    by (simp add: client_idle_def Let_def sample_client_def sample_conn_def connection_new_def ps_new_def plain_idle_def
        settled_def)
  have ok: "ok_packet 1 0 2 0 [] = [0, 1, 0, 2, 0, 0, 0]"
    by (simp add: ok_packet_def lenenc_int_def to_le_bytes_def byte_eval)
  have name: "expand_user sample_world (from_utf8_lossy [0x7E, 0x2F, 0x66]) = ''/h/f''"
    by (simp add: from_utf8_lossy_ascii from_bytes_def char_of_eq_iff expand_user_def home_dir_def sample_world_def)
  have ch: "chunks CHUNK_SIZE [49, 10] = [[49, 10 :: u8]]" by (simp add: chunks_Cons CHUNK_SIZE_def)
  have fr: "frames q p = frame q p" "seq_after q p = q + 1" if "length p < 100" for q p
    using that by (simp_all add: frames.simps MAX_PACKET_LEN_def seq_after_def frame_count_def)
  note ev = fr frame_def write_int3_eq byte_eval ok [simplified] ch
  have sql: "COM_QUERY # as_bytes ''x'' = [3, 0x78]" by (simp add: as_bytes_def)
  have h2: "co_local_infile (cn_options (cl_inner ?k))" by simp
  have h3: "w_read_file sample_world (expand_user sample_world (from_utf8_lossy [0x7E, 0x2F, 0x66])) = Inr [49, 10]"
    unfolding name by (simp add: sample_world_def)
  have h4: "reply_ok (w_env sample_world) (cl_inner ?k) (OkReply 1 0 2 0 [])"
    using sample_deliverable [of "[[0, 1, 0, 2, 0, 0, 0]]"]
    by (simp add: reply_ok_def ok [simplified] usize_max_def)
  have h5: "deliverable (ps_max_allowed_packet (stream_st ?k)) [[0xFB, 0x7E, 0x2F, 0x66]]"
    using sample_deliverable [of "[[0xFB, 0x7E, 0x2F, 0x66]]"] by simp
  have h6: "cl_in ?k = map Recv [[4, 0, 0, 1, 0xFB, 0x7E, 0x2F, 0x66]] @ map Recv [[7, 0, 0, 4, 0, 1, 0], [2, 0, 0, 0]] @ []"
    by simp
  have h7: "arrives COM_QUERY (as_bytes ''x'') [[0xFB, 0x7E, 0x2F, 0x66]] [[4, 0, 0, 1, 0xFB, 0x7E, 0x2F, 0x66]]"
    unfolding arrives_def sql by (simp add: ev)
  have h8: "2 = seq_after (seq_after 0 (COM_QUERY # as_bytes ''x'')) [0xFB, 0x7E, 0x2F, 0x66]" unfolding sql by (simp add: fr)
  have h9: "[[49, 10], []] = chunks CHUNK_SIZE [49, 10 :: u8] @ [[]]" by (simp add: ch)
  have h10: "arrives_from (foldl seq_after 2 [[49, 10], []]) [ok_packet 1 0 2 0 []] [[7, 0, 0, 4, 0, 1, 0], [2, 0, 0, 0]]"
    by (simp add: arrives_from_def ev)
  from load_local_sends_file [OF idle h2 h3 h4 h5 h6 h7 h8 h9 h10] obtain k' where
    "client_query sample_world ''x'' False ?k = (Inr (sint (word_of_nat 1 :: u64)), k')"
    "cl_out k' = cl_out ?k @ frames 0 [3, 0x78] @ stream_of 2 [[49, 10], []]"
    unfolding sql by blast
  moreover have "cl_out ?k = []" by (simp add: sample_client_def)
  ultimately show ?thesis by (intro exI [of _ k']) (simp add: ev frame_count_def MAX_PACKET_LEN_def)
qed

section \<open>No file without permission\<close>

text \<open>Reading never writes and never changes the options.\<close>

definition quiet :: "'x client \<Rightarrow> 'x client \<Rightarrow> bool" where
  "quiet k k' \<longleftrightarrow> cl_out k' = cl_out k \<and> cn_options (cl_inner k') = cn_options (cl_inner k)"

lemma quiet_refl [simp]: "quiet k k"
  by (simp add: quiet_def)

lemma quiet_trans: "quiet k k' \<Longrightarrow> quiet k' k'' \<Longrightarrow> quiet k k''"
  by (simp add: quiet_def)

lemma quiet_updates [simp]:
  "quiet k (drop_stream k') = quiet k k'" "quiet k (k'\<lparr>cl_inner := core_set_result r (cl_inner k')\<rparr>) = quiet k k'"
  by (simp_all add: quiet_def drop_stream_def core_force_close_def core_set_result_def)

lemma client_read_quiet: "client_read k = (x, k') \<Longrightarrow> quiet k k'"
  by (auto simp: client_read_def err_panic_apply quiet_def split: option.splits list.splits read_event.splits)

lemma lift_ps_quiet: "lift_inner (lift_ps m) k = (x, k') \<Longrightarrow> quiet k k'"
  by (auto simp: lift_inner_def lift_ps_def quiet_def split: prod.splits)

lemma pump_read_quiet: "pump_read V k = (x, k') \<Longrightarrow> quiet k k'"
proof (induction "net_size k" arbitrary: k rule: less_induct)
  case less
  obtain y k1 where r: "client_read k = (y, k1)" by fastforce
  note q1 = client_read_quiet [OF r]
  show ?case
  proof (cases "\<exists>d. y = Inr (Inr d) \<and> d \<noteq> []")
    case True
    then obtain d where d: "y = Inr (Inr d)" "d \<noteq> []" by blast
    obtain z k2 where f: "lift_inner (conn_feed_bytes V d) k1 = (z, k2)" by fastforce
    have q2: "quiet k1 k2" using lift_ps_quiet f unfolding conn_feed_bytes_def .
    have "net_size k2 < net_size k"
      using client_read_shrinks [of k d k1] r d lift_inner_net [OF f] by simp
    then have "pump_read V k2 = (x, k') \<Longrightarrow> quiet k2 k'" by (rule less.hyps)
    with less.prems r d f q1 q2 show ?thesis
      by (subst (asm) pump_read.simps) (auto split: sum.splits if_splits intro: quiet_trans)
  next
    case False
    with less.prems r q1 show ?thesis
      by (subst (asm) pump_read.simps) (auto simp: err_panic_apply split: sum.splits if_splits)
  qed
qed

lemma client_read_packet_quiet: "client_read_packet V k = (x, k') \<Longrightarrow> quiet k k'"
proof (induction "net_size k" arbitrary: k rule: less_induct)
  case less
  obtain y k1 where r: "lift_inner conn_read_packet k = (y, k1)" by fastforce
  have q1: "quiet k k1" using lift_ps_quiet r unfolding conn_read_packet_def .
  obtain z k2 where p: "pump_read V k1 = (z, k2)" by fastforce
  note q2 = pump_read_quiet [OF p]
  have "net_size k2 < net_size k" if "z = Inr u" for u
    using pump_read_shrinks [of V k1 u k2] p that lift_inner_net [OF r] by simp
  then have "client_read_packet V k2 = (x, k') \<Longrightarrow> z = Inr u \<Longrightarrow> quiet k2 k'" for u using less.hyps by blast
  with less.prems r p q1 q2 show ?case
    by (subst (asm) client_read_packet.simps) (auto split: sum.splits fail.splits error.splits intro: quiet_trans)
qed

lemma refused_file:
  "\<not> co_local_infile (cn_options (cl_inner k)) \<Longrightarrow> send_load_local_file W packet k = (Inl (Fail
     (OperationalError CR_LOAD_DATA_LOCAL_INFILE_REJECTED ''Received LOAD_LOCAL packet but local_infile option is false'')), k)"
  by (simp add: send_load_local_file_def st_simps)

lemma result_loop_quiet:
  assumes "\<not> co_local_infile (cn_options (cl_inner k))"
  shows "quiet k (snd (client_result_loop W b r k)) \<and>
    client_result_loop (W\<lparr>w_read_file := f\<rparr>) b r k = client_result_loop W b r k"
  using assms
proof (induction k arbitrary: b r rule: wf_induct_rule [OF wf_shorter])
  case (1 k)
  obtain x k1 where rd: "client_read_packet (w_env W) k = (x, k1)" by fastforce
  note q = client_read_packet_quiet [OF rd]
  with 1(2) have off: "\<not> co_local_infile (cn_options (cl_inner k1))" by (simp add: quiet_def)
  have IH: "quiet k1 (snd (client_result_loop W b r k1)) \<and>
      client_result_loop (W\<lparr>w_read_file := f\<rparr>) b r k1 = client_result_loop W b r k1" if "x = Inr p" for p b r
    using 1(1) [OF client_read_packet_shrinks off] rd that by simp
  have rd': "client_read_packet (w_env (W\<lparr>w_read_file := f\<rparr>)) k = (x, k1)" using rd by simp
  note unf = client_result_loop.simps [of W b r k, unfolded rd prod.case]
    client_result_loop.simps [of "W\<lparr>w_read_file := f\<rparr>" b r k, unfolded rd' prod.case]
  show ?case
  proof (cases x)
    case (Inl e)
    with q show ?thesis unfolding unf by simp
  next
    case (Inr p)
    obtain y r1 where fd: "feed_packet (w_env W) p (cl_inner k1) r = (y, r1)" by fastforce
    show ?thesis
      using Inr IH [OF Inr, of False r1] q quiet_trans [OF q] fd unfolding unf
      by (cases y) (auto simp: refused_file [OF off] split: feed_result.splits)
  qed
qed

text \<open>The error of a refused request.\<close>

definition infile_rejected :: error where
  "infile_rejected = OperationalError CR_LOAD_DATA_LOCAL_INFILE_REJECTED ''Received LOAD_LOCAL packet but local_infile option is false''"

text \<open>C21: No local file leaves the client unless \<open>local_infile\<close> is set.  With the option off, whatever the server sends while a
  result is read, the client writes nothing and the outcome does not depend on the contents of any
  file.  A request for a file, a first packet of the reply that starts with \<open>0xFB\<close>, is refused: the read returns the error
  \<open>CR_LOAD_DATA_LOCAL_INFILE_REJECTED\<close>, with the request used up and nothing else done.  In particular a statement that the
  server answers with the request fails with that error, having sent the statement and nothing more.\<close>

theorem no_file_without_permission:
  assumes "\<not> co_local_infile (cn_options (cl_inner k))"
  shows "cl_out (snd (client_read_query_result W u k)) = cl_out k \<and>
    client_read_query_result (W\<lparr>w_read_file := f\<rparr>) u k = client_read_query_result W u k \<and>
    (\<forall>packet k1. client_read_packet (w_env W) k = (Inr packet, k1) \<and> is_load_local_packet packet \<longrightarrow>
       client_read_query_result W u k = (Inl (Fail infile_rejected), k1)) \<and>
    (\<forall>sql name segs es. client_idle k \<and> cl_in k = map Recv segs @ es \<and> arrives COM_QUERY (as_bytes sql) [0xFB # name] segs \<and>
       deliverable (ps_max_allowed_packet (stream_st k)) [0xFB # name] \<longrightarrow>
       (\<exists>k'. client_query W sql u k = (Inl (Fail infile_rejected), k') \<and> cl_in k' = es \<and>
          cl_out k' = cl_out k @ frames 0 (COM_QUERY # as_bytes sql)))"
proof (intro conjI allI impI)
  note quiet = result_loop_quiet [OF assms]
  show "cl_out (snd (client_read_query_result W u k)) = cl_out k"
      "client_read_query_result (W\<lparr>w_read_file := f\<rparr>) u k = client_read_query_result W u k"
    using quiet by (simp_all add: client_read_query_result_def quiet_def)
  have refused: "client_read_query_result W u k = (Inl (Fail infile_rejected), k1)"
    if "client_read_packet (w_env W) k = (Inr packet, k1) \<and> is_load_local_packet packet"
      "\<not> co_local_infile (cn_options (cl_inner k))" for packet and k k1
  proof -
    have "\<not> co_local_infile (cn_options (cl_inner k1))"
      using client_read_packet_quiet [of "w_env W" k "Inr packet" k1] that by (simp add: quiet_def)
    with that(1) show ?thesis
      unfolding client_read_query_result_def by (subst client_result_loop.simps) (simp add: refused_file infile_rejected_def)
  qed
  show "client_read_query_result W u k = (Inl (Fail infile_rejected), k1)"
    if "client_read_packet (w_env W) k = (Inr packet, k1) \<and> is_load_local_packet packet" for packet k1
    using refused [OF that assms] .
  fix sql name segs es
  assume h: "client_idle k \<and> cl_in k = map Recv segs @ es \<and> arrives COM_QUERY (as_bytes sql) [0xFB # name] segs \<and>
    deliverable (ps_max_allowed_packet (stream_st k)) [0xFB # name]"
  let ?s = "sent_command COM_QUERY (as_bytes sql) k"
  have "client_sees (foldl seq_after (seq_after 0 (COM_QUERY # as_bytes sql)) [0xFB # name]) [0xFB # name] es ?s"
    using h by (intro sent_command_sees) blast+
  then obtain k1 where k1: "client_read_packet (w_env W) ?s = (Inr (packet_new (0xFB # name)), k1)"
      "client_sees (foldl seq_after (seq_after 0 (COM_QUERY # as_bytes sql)) [0xFB # name]) [] es k1" "receives ?s k1"
    by (rule net_source.next_seesE)
  have "\<not> co_local_infile (cn_options (cl_inner ?s))"
    using assms sent_command_codec [of k COM_QUERY "as_bytes sql"] by (simp add: same_codec_def)
  from refused [OF _ this, of "packet_new (0xFB # name)" k1] k1(1)
  have "client_read_query_result W u ?s = (Inl (Fail infile_rejected), k1)"
    by (simp add: is_load_local_packet_def packet_new_def first_byte_def)
  then have "client_query W sql u k = (Inl (Fail infile_rejected), k1)"
    using client_query_idle h by metis
  then show "\<exists>k'. client_query W sql u k = (Inl (Fail infile_rejected), k') \<and> cl_in k' = es \<and>
      cl_out k' = cl_out k @ frames 0 (COM_QUERY # as_bytes sql)"
    using sees_nothing [OF k1(2)] receives_sel(2) [OF k1(3)] by (auto simp: sent_command_def)
qed

theorem no_file_without_permission_witness:
  "\<exists>k'. client_query sample_world ''x'' False (sample_client\<lparr>cl_in := [Recv [4, 0, 0, 1, 0xFB, 0x7E, 0x2F, 0x66]]\<rparr>) =
      (Inl (Fail infile_rejected), k') \<and> cl_in k' = [] \<and> cl_out k' = [2, 0, 0, 0, 3, 0x78]"
proof -
  let ?seg = "[4, 0, 0, 1, 0xFB, 0x7E, 0x2F, 0x66] :: bytes" and ?name = "[0x7E, 0x2F, 0x66] :: bytes"
  let ?k = "sample_client\<lparr>cl_in := [Recv ?seg]\<rparr>"
  have off: "\<not> co_local_infile (cn_options (cl_inner ?k))"
    by (simp add: sample_client_def sample_conn_def connection_new_def default_options_def)
  have sql: "COM_QUERY # as_bytes ''x'' = [3, 0x78]" by (simp add: as_bytes_def)
  have fr: "frames q p = frame q p" "seq_after q p = q + 1" if "length p < 100" for q p
    using that by (simp_all add: frames.simps MAX_PACKET_LEN_def seq_after_def frame_count_def)
  note ev = fr frame_def write_int3_eq byte_eval
  have idle: "client_idle ?k"
    by (simp add: client_idle_def Let_def sample_client_def sample_conn_def connection_new_def ps_new_def plain_idle_def settled_def)
  have arr: "arrives COM_QUERY (as_bytes ''x'') [0xFB # ?name] [?seg]" unfolding arrives_def sql by (simp add: ev)
  have del: "deliverable (ps_max_allowed_packet (stream_st ?k)) [0xFB # ?name]" using sample_deliverable [of "[0xFB # ?name]"] by (simp add: sample_client_def)
  have inp: "cl_in ?k = map Recv [?seg] @ []" by simp
  from no_file_without_permission [OF off, of sample_world False] idle arr del inp obtain k' where
    "client_query sample_world ''x'' False ?k = (Inl (Fail infile_rejected), k')" "cl_in k' = []"
    "cl_out k' = cl_out ?k @ frames 0 (COM_QUERY # as_bytes ''x'')" by blast
  moreover have "cl_out ?k = []" by (simp add: sample_client_def)
  ultimately show ?thesis unfolding sql by (intro exI [of _ k']) (simp add: ev)
qed

end
