(* ===== verification/Client_Setup.thy ===== *)
theory Client_Setup
  imports Client_Files Option_File "HOL-Library.Sublist"
begin

text \<open>
  Establishing a connection, \<^verbatim>\<open>mysql/src/connection.rs\<close>: the option file, the stream, the authentication
  over it with the upgrade to TLS, and the statements sent right after it.

  Parameters: the outcome of opening a stream (record \<open>net\<close>), and the TLS library (record \<open>tls_lib\<close>): reading of
  PEM files, construction of verifiers and of the client configuration, the handshake, and the verification
  of a certificate by the two base verifiers.  The library's fallible calls give an error text.  The bytes
  of the TLS handshake are not modelled: after it the reads and writes of the model are those of the
  TLS stream.
\<close>

section \<open>The option file\<close>

definition option_file_read :: "'x world \<Rightarrow> string \<Rightarrow> error + option_file" where
  "option_file_read W path =
     (case w_read_file W path of
        Inl e \<Rightarrow> Inl (OperationalError CR_UNKNOWN_ERROR (''Failed to read option file '' @ path @ '': '' @ e))
      | Inr d \<Rightarrow>
          (case str_from_utf8 d of
             None \<Rightarrow> Inl (OperationalError CR_UNKNOWN_ERROR
               (''Failed to read option file '' @ path @ '': stream did not contain valid UTF-8''))
           | Some text \<Rightarrow> option_file_parse (env_lc (w_env W)) text))"

text \<open>The value of an option, when the field still has its default.\<close>

definition from_file :: "bool \<Rightarrow> option_file \<Rightarrow> string \<Rightarrow> string \<Rightarrow> string option" where
  "from_file unset opts grp key = (if unset then option_get opts grp key else None)"

definition fill :: "string option \<Rightarrow> (string \<Rightarrow> connect_options \<Rightarrow> connect_options) \<Rightarrow> connect_options \<Rightarrow> connect_options" where
  "fill v upd options = (case v of Some s \<Rightarrow> upd s options | None \<Rightarrow> options)"

definition port_from_file :: "string \<Rightarrow> option_file \<Rightarrow> string \<Rightarrow> connect_options \<Rightarrow> error + connect_options" where
  "port_from_file path opts grp options =
     (case from_file (co_port options = co_port default_options) opts grp ''port'' of
        None \<Rightarrow> Inr options
      | Some val \<Rightarrow>
          (case parse_unsigned 65535 val of
             Some n \<Rightarrow> Inr (options\<lparr>co_port := word_of_nat n\<rparr>)
           | None \<Rightarrow> Inl (OperationalError CR_UNKNOWN_ERROR
               (''Invalid port in option file '' @ path @ '': '' @ val))))"

definition apply_option_file :: "'x world \<Rightarrow> connect_options \<Rightarrow> error + connect_options" where
  "apply_option_file W options =
     (case co_read_default_file options of
        None \<Rightarrow> Inr options
      | Some path \<Rightarrow>
          (let options = options\<lparr>co_read_default_file := None\<rparr>;
               grp = (case co_read_default_group options of Some g \<Rightarrow> g | None \<Rightarrow> ''client'')
           in bind_res (option_file_read W path) (\<lambda>opts.
           let options = fill (from_file (co_host options = co_host default_options) opts grp ''host'')
                 (\<lambda>s o'. o'\<lparr>co_host := s\<rparr>) options
           in bind_res (port_from_file path opts grp options) (\<lambda>options.
           let options = fill (from_file (co_user options = []) opts grp ''user'')
                 (\<lambda>s o'. o'\<lparr>co_user := s\<rparr>) options;
               options = fill (from_file (co_password options = []) opts grp ''password'')
                 (\<lambda>s o'. o'\<lparr>co_password := as_bytes s\<rparr>) options;
               options = fill (from_file (co_database options = None) opts grp ''database'')
                 (\<lambda>s o'. o'\<lparr>co_database := Some s\<rparr>) options;
               options = fill (from_file (co_host options = co_host default_options) opts grp ''socket'')
                 (\<lambda>s o'. o'\<lparr>co_host := s\<rparr>) options;
               options = fill (from_file (co_charset options = co_charset default_options) opts grp ''default-character-set'')
                 (\<lambda>s o'. o'\<lparr>co_charset := s\<rparr>) options;
               options = fill (from_file (co_ssl_ca options = None) opts grp ''ssl-ca'')
                 (\<lambda>s o'. o'\<lparr>co_ssl_ca := Some s\<rparr>) options;
               options = fill (from_file (co_ssl_cert options = None) opts grp ''ssl-cert'')
                 (\<lambda>s o'. o'\<lparr>co_ssl_cert := Some s\<rparr>) options;
               options = fill (from_file (co_ssl_key options = None) opts grp ''ssl-key'')
                 (\<lambda>s o'. o'\<lparr>co_ssl_key := Some s\<rparr>) options
           in Inr options))))"

section \<open>TLS\<close>

text \<open>Certificates and keys are their DER bytes.\<close>

datatype tls_server_name = IpAddress string | DnsName string

datatype cert_error = NotValidForName | NotValidForNameContext | OtherCertError string

text \<open>The verifiers: of given root certificates, of the platform, and the wrapper of this crate.\<close>

datatype verifier = WebPkiVerifier "bytes list" | PlatformVerifier | NoHostnameVerifier verifier

record tls_config =
  tc_verifier :: verifier
  tc_client_auth :: "(bytes list \<times> bytes) option"

text \<open>What a server presents in the handshake: certificate, intermediates, OCSP response, and the time.\<close>

type_synonym presented = "bytes \<times> bytes list \<times> bytes \<times> nat"

record tls_lib =
  tl_versions :: "string option"
  tl_pem_certs :: "bytes \<Rightarrow> string + bytes list"
  tl_pem_keys :: "bytes \<Rightarrow> string + bytes list"
  tl_parsable :: "bytes \<Rightarrow> bool"
  tl_platform_builder :: "string option"
  tl_webpki_builder :: "bytes list \<Rightarrow> string option"
  tl_platform_new :: "string option"
  tl_client_auth :: "bytes list \<Rightarrow> bytes \<Rightarrow> string option"
  tl_verify :: "verifier \<Rightarrow> presented \<Rightarrow> tls_server_name \<Rightarrow> cert_error option"
  tl_signature :: "verifier \<Rightarrow> bytes \<Rightarrow> bytes \<Rightarrow> bytes \<Rightarrow> string option"
  tl_schemes :: "verifier \<Rightarrow> nat list"
  tl_handshake :: "tls_config \<Rightarrow> tls_server_name \<Rightarrow> string option"
  tl_parse_ip :: "string \<Rightarrow> bool option"
  tl_dns_name :: "string \<Rightarrow> bool"

text \<open>\<open>None\<close> means that the certificate is accepted.\<close>

fun verify_server_cert :: "tls_lib \<Rightarrow> verifier \<Rightarrow> presented \<Rightarrow> tls_server_name \<Rightarrow> cert_error option" where
  "verify_server_cert L (NoHostnameVerifier inner) shown name =
     (case verify_server_cert L inner shown name of
        None \<Rightarrow> None
      | Some NotValidForName \<Rightarrow> None
      | Some NotValidForNameContext \<Rightarrow> None
      | Some e \<Rightarrow> Some e)"
| "verify_server_cert L v shown name = tl_verify L v shown name"

fun verify_tls_signature :: "tls_lib \<Rightarrow> verifier \<Rightarrow> bytes \<Rightarrow> bytes \<Rightarrow> bytes \<Rightarrow> string option" where
  "verify_tls_signature L (NoHostnameVerifier inner) message cert dss = verify_tls_signature L inner message cert dss"
| "verify_tls_signature L v message cert dss = tl_signature L v message cert dss"

fun supported_verify_schemes :: "tls_lib \<Rightarrow> verifier \<Rightarrow> nat list" where
  "supported_verify_schemes L (NoHostnameVerifier inner) = supported_verify_schemes L inner"
| "supported_verify_schemes L v = tl_schemes L v"

definition ssl_error :: "string \<Rightarrow> error" where
  "ssl_error m = OperationalError CR_SSL_CONNECTION_ERROR m"

text \<open>\<open>map_err\<close> on a call of the library, and on a call that returns a value.\<close>

definition tls_check :: "string \<Rightarrow> string option \<Rightarrow> error + unit" where
  "tls_check what r = (case r of None \<Rightarrow> Inr () | Some e \<Rightarrow> Inl (ssl_error (what @ e)))"

definition tls_try :: "string \<Rightarrow> string + 'a \<Rightarrow> error + 'a" where
  "tls_try what r = (case r of Inr x \<Rightarrow> Inr x | Inl e \<Rightarrow> Inl (ssl_error (what @ e)))"

text \<open>The root certificates of the file \<open>ssl_ca\<close>.\<close>

definition load_roots :: "'x world \<Rightarrow> tls_lib \<Rightarrow> string \<Rightarrow> error + bytes list" where
  "load_roots W L ca_path =
     bind_res (tls_try ''Failed to read CA file: '' (w_read_file W ca_path)) (\<lambda>cert_file.
     bind_res (tls_try ''Failed to parse CA file: '' (tl_pem_certs L cert_file)) (\<lambda>certs.
     Inr (filter (tl_parsable L) certs)))"

definition build_verifier :: "'x world \<Rightarrow> tls_lib \<Rightarrow> connect_options \<Rightarrow> error + verifier" where
  "build_verifier W L options =
     (if co_ssl_verify_identity options then
        (case co_ssl_ca options of
           Some ca_path \<Rightarrow> bind_res (load_roots W L ca_path) (\<lambda>roots. Inr (WebPkiVerifier roots))
         | None \<Rightarrow>
             bind_res (tls_check ''Failed to configure platform verifier: '' (tl_platform_builder L)) (\<lambda>_.
             Inr PlatformVerifier))
      else
        (case co_ssl_ca options of
           Some ca_path \<Rightarrow>
             bind_res (load_roots W L ca_path) (\<lambda>roots.
             bind_res (tls_check ''Failed to build webpki verifier: '' (tl_webpki_builder L roots)) (\<lambda>_.
             Inr (NoHostnameVerifier (WebPkiVerifier roots))))
         | None \<Rightarrow>
             bind_res (tls_check ''Failed to create platform verifier: '' (tl_platform_new L)) (\<lambda>_.
             Inr (NoHostnameVerifier PlatformVerifier))))"

text \<open>The certificate and key that the client presents, if both are configured.\<close>

definition client_auth_cert :: "'x world \<Rightarrow> tls_lib \<Rightarrow> connect_options \<Rightarrow> error + (bytes list \<times> bytes) option" where
  "client_auth_cert W L options =
     (case (co_ssl_cert options, co_ssl_key options) of
        (Some cert_path, Some key_path) \<Rightarrow>
          bind_res (tls_try ''Failed to read client cert file: '' (w_read_file W cert_path)) (\<lambda>cert_file.
          bind_res (tls_try ''Failed to parse client cert file: '' (tl_pem_certs L cert_file)) (\<lambda>certs.
          bind_res (tls_try ''Failed to read client key file: '' (w_read_file W key_path)) (\<lambda>key_file.
          bind_res (tls_try ''Failed to parse client key file: '' (tl_pem_keys L key_file)) (\<lambda>keys.
          case keys of
            [] \<Rightarrow> Inl (ssl_error ''No PKCS8 private key found'')
          | key # _ \<Rightarrow>
              bind_res (tls_check ''Failed to build TLS config: '' (tl_client_auth L certs key)) (\<lambda>_.
              Inr (Some (certs, key)))))))
      | _ \<Rightarrow> Inr None)"

definition build_tls_config :: "'x world \<Rightarrow> tls_lib \<Rightarrow> connect_options \<Rightarrow> error + tls_config" where
  "build_tls_config W L options =
     bind_res (tls_check ''Failed to configure TLS protocol versions: '' (tl_versions L)) (\<lambda>_.
     bind_res (build_verifier W L options) (\<lambda>v.
     if (co_ssl_cert options \<noteq> None) \<noteq> (co_ssl_key options \<noteq> None) then
       Inl (ssl_error ''ssl_cert and ssl_key must be specified together'')
     else bind_res (client_auth_cert W L options) (\<lambda>ca. Inr \<lparr>tc_verifier = v, tc_client_auth = ca\<rparr>)))"

definition server_name_from_host :: "tls_lib \<Rightarrow> string \<Rightarrow> error + tls_server_name" where
  "server_name_from_host L host =
     (let host = (if 2 \<le> length host \<and> hd host = CHR ''['' \<and> last host = CHR '']''
                  then butlast (tl host) else host)
      in if tl_parse_ip L host \<noteq> None then Inr (IpAddress host)
         else if tl_dns_name L host then Inr (DnsName host)
         else Inl (ssl_error ''Invalid server hostname for TLS''))"

definition upgrade_to_tls :: "'x world \<Rightarrow> tls_lib \<Rightarrow> ('x client, unit) rs" where
  "upgrade_to_tls W L =
     bind_st get_st (\<lambda>k.
     bind_st (lift_err (build_tls_config W L (cn_options (cl_inner k)))) (\<lambda>config.
     bind_st (lift_err (server_name_from_host L (co_host (cn_options (cl_inner k))))) (\<lambda>server_name.
     bind_st (modify_st (\<lambda>k. k\<lparr>cl_stream := None\<rparr>)) (\<lambda>_.
     case cl_stream k of
       None \<Rightarrow> err (InterfaceError CR_NULL_POINTER ''No stream to upgrade'')
     | Some TlsStream \<Rightarrow> err (InterfaceError CR_SSL_CONNECTION_ERROR ''Already TLS'')
     | Some UnixStream \<Rightarrow>
         err (InterfaceError CR_SSL_CONNECTION_ERROR ''TLS upgrade is not supported on Unix domain sockets'')
     | Some PlainStream \<Rightarrow>
         (case tl_handshake L config server_name of
            Some e \<Rightarrow> err (ssl_error (''TLS handshake failed: '' @ e))
          | None \<Rightarrow>
              modify_st (\<lambda>k. k\<lparr>cl_stream := Some TlsStream, cl_inner := set_secure True (cl_inner k)\<rparr>))))))"

section \<open>Authentication\<close>

text \<open>The loop of \<open>authenticate\<close>.\<close>

function authenticate_loop :: "'x env \<Rightarrow> auth_state \<Rightarrow> ('x client, unit) rs" where
  "authenticate_loop V state k =
     (case state of
        NeedRead \<Rightarrow>
          (case pump_read V k of
             (Inl e, k') \<Rightarrow> (Inl e, k')
           | (Inr _, k') \<Rightarrow>
               (case lift_inner (request_authentication_continue V) k' of
                  (Inl e, k'') \<Rightarrow> (Inl e, k'')
                | (Inr state', k'') \<Rightarrow> authenticate_loop V state' k''))
      | Send \<Rightarrow>
          (case pump_write k of
             (Inl e, k') \<Rightarrow> (Inl e, k')
           | (Inr _, k') \<Rightarrow> authenticate_loop V NeedRead k')
      | Success \<Rightarrow> (Inr (), k))"
  by pat_completeness auto
termination
  by (relation "measures [\<lambda>(_, _, k). net_size k, \<lambda>(_, state, _). of_bool (state = Send)]")
    (auto dest!: sym [of "(_, _)"] pump_read_shrinks lift_inner_net pump_write_net)

declare authenticate_loop.simps [simp del]

definition authenticate :: "'x world \<Rightarrow> tls_lib \<Rightarrow> ('x client, unit) rs" where
  "authenticate W L =
     bind_st (lift_inner (request_authentication_start (w_env W))) (\<lambda>state.
     bind_st get_st (\<lambda>k.
     bind_st
       (if cn_needs_tls_upgrade (cl_inner k) then
          bind_st pump_write (\<lambda>_.
          bind_st (upgrade_to_tls W L) (\<lambda>_.
          bind_st (lift_inner (request_authentication_send_credentials (w_env W))) (\<lambda>state.
          bind_st pump_write (\<lambda>_. ret state))))
        else bind_st pump_write (\<lambda>_. ret state)) (\<lambda>state.
     authenticate_loop (w_env W) state)))"

section \<open>Connecting\<close>

text \<open>The statements sent after the authentication.\<close>

definition opt_query :: "'x world \<Rightarrow> string option \<Rightarrow> ('x client, unit) rs" where
  "opt_query W sql =
     (case sql of None \<Rightarrow> ret () | Some q \<Rightarrow> bind_st (client_query W q False) (\<lambda>_. ret ()))"

definition post_connect_setup :: "'x world \<Rightarrow> connect_options \<Rightarrow> ('x client, unit) rs" where
  "post_connect_setup W options =
     bind_st (lift_inner (set_character_set (w_env W) (co_charset options) (co_collation options))) (\<lambda>_.
     bind_st pump_write (\<lambda>_.
     bind_st (client_read_ok_packet (w_env W)) (\<lambda>_.
     bind_st get_st (\<lambda>k.
     bind_st (opt_query W (map_option (\<lambda>m. ''SET sql_mode='' @ quoted (conn_escape_string (cl_inner k) m)) (co_sql_mode options))) (\<lambda>_.
     bind_st (opt_query W (co_init_command options)) (\<lambda>_.
     opt_query W (map_option (\<lambda>b. ''SET AUTOCOMMIT = '' @ dec (if b then 1 else 0)) (co_autocommit options))))))))"

text \<open>Everything \<open>connect\<close> does once the stream is open.\<close>

definition connect_over :: "'x world \<Rightarrow> tls_lib \<Rightarrow> connect_options \<Rightarrow> ('x client, unit) rs" where
  "connect_over W L options =
     bind_st (pump_read (w_env W)) (\<lambda>_.
     bind_st (lift_inner get_server_information) (\<lambda>_.
     bind_st (authenticate W L) (\<lambda>_.
     bind_st (modify_st (\<lambda>k.
       if co_compress options \<and> cn_server_capabilities (cl_inner k) AND COMPRESS \<noteq> 0
       then k\<lparr>cl_inner := core_enable_compression (cl_inner k)\<rparr> else k)) (\<lambda>_.
     post_connect_setup W options))))"

text \<open>
  The outcome of opening a stream under the connection timeout: timed out, refused, or open, for a TCP
  stream with the outcome of \<open>set_nodelay\<close>, and the behaviour of the network on it.
\<close>

datatype open_outcome = OpenTimeout string | OpenError string | Opened "string option" "read_event list" "write_outcome list"

record net =
  nt_unix :: "string \<Rightarrow> nat \<Rightarrow> open_outcome"
  nt_tcp :: "string \<Rightarrow> nat \<Rightarrow> open_outcome"

definition conn_host_error :: "string \<Rightarrow> error" where
  "conn_host_error m = OperationalError CR_CONN_HOST_ERROR m"

definition trim_end_slash :: "string \<Rightarrow> string" where
  "trim_end_slash s = rev (dropWhile ((=) (CHR ''/'')) (rev s))"

definition tcp_address :: "tls_lib \<Rightarrow> connect_options \<Rightarrow> string" where
  "tcp_address L options =
     (if tl_parse_ip L (co_host options) = Some True
      then ''['' @ co_host options @ '']:'' @ dec (unat (co_port options))
      else co_host options @ '':'' @ dec (unat (co_port options)))"

definition open_stream :: "'x world \<Rightarrow> net \<Rightarrow> tls_lib \<Rightarrow> connect_options \<Rightarrow>
    error + connection_stream \<times> read_event list \<times> write_outcome list" where
  "open_stream W N L options =
     (let unix = (co_host options \<noteq> [] \<and> hd (co_host options) = CHR ''/'');
          addr = (if unix then trim_end_slash (co_host options) else tcp_address L options)
      in case (if unix then nt_unix N else nt_tcp N) addr (co_connect_timeout options) of
           OpenTimeout e \<Rightarrow> Inl (conn_host_error (''Connection timeout: '' @ e))
         | OpenError e \<Rightarrow> Inl (conn_host_error
             (''Can't connect to MySQL server on '' @ env_debug_str (w_env W) addr @ '' ('' @ e @ '')''))
         | Opened nodelay ev fs \<Rightarrow>
             (if unix then Inr (UnixStream, ev, fs)
              else
                (case nodelay of
                   Some e \<Rightarrow> Inl (conn_host_error (''Failed to set TCP_NODELAY: '' @ e))
                 | None \<Rightarrow> Inr (PlainStream, ev, fs))))"

definition client_connect :: "'x world \<Rightarrow> net \<Rightarrow> tls_lib \<Rightarrow> connect_options \<Rightarrow> fail + 'x client" where
  "client_connect W N L options =
     (case apply_option_file W options of
        Inl e \<Rightarrow> Inl (Fail e)
      | Inr options \<Rightarrow>
          (case core_connect (w_env W) options of
             Inl e \<Rightarrow> Inl (Fail e)
           | Inr inner \<Rightarrow>
               (case open_stream W N L options of
                  Inl e \<Rightarrow> Inl (Fail e)
                | Inr (stream, ev, fs) \<Rightarrow>
                    (case connect_over W L options \<lparr>cl_inner = inner, cl_stream = Some stream,
                         cl_transaction_dirty = False, cl_in = ev, cl_out = [], cl_wfail = fs\<rparr> of
                       (Inl e, _) \<Rightarrow> Inl e
                     | (Inr _, conn) \<Rightarrow> Inr conn))))"

section \<open>Options of the file and of the program\<close>

text \<open>The value that wins: the program's, unless it is the default, then the file's, then the default.\<close>

definition winning :: "'a \<Rightarrow> 'a \<Rightarrow> (string \<Rightarrow> 'a) \<Rightarrow> option_file \<Rightarrow> string \<Rightarrow> string \<Rightarrow> 'a" where
  "winning dflt val conv opts grp key =
     (if val = dflt then (case option_get opts grp key of Some s \<Rightarrow> conv s | None \<Rightarrow> val) else val)"

lemma fill_winning:
  "fill (from_file (co_host opt = co_host default_options) opts grp key) (\<lambda>s o'. o'\<lparr>co_host := s\<rparr>) opt =
     opt\<lparr>co_host := winning ''localhost'' (co_host opt) id opts grp key\<rparr>"
  "fill (from_file (co_user opt = []) opts grp key) (\<lambda>s o'. o'\<lparr>co_user := s\<rparr>) opt =
     opt\<lparr>co_user := winning [] (co_user opt) id opts grp key\<rparr>"
  "fill (from_file (co_password opt = []) opts grp key) (\<lambda>s o'. o'\<lparr>co_password := as_bytes s\<rparr>) opt =
     opt\<lparr>co_password := winning [] (co_password opt) as_bytes opts grp key\<rparr>"
  "fill (from_file (co_database opt = None) opts grp key) (\<lambda>s o'. o'\<lparr>co_database := Some s\<rparr>) opt =
     opt\<lparr>co_database := winning None (co_database opt) Some opts grp key\<rparr>"
  "fill (from_file (co_charset opt = co_charset default_options) opts grp key) (\<lambda>s o'. o'\<lparr>co_charset := s\<rparr>) opt =
     opt\<lparr>co_charset := winning ''utf8mb4'' (co_charset opt) id opts grp key\<rparr>"
  "fill (from_file (co_ssl_ca opt = None) opts grp key) (\<lambda>s o'. o'\<lparr>co_ssl_ca := Some s\<rparr>) opt =
     opt\<lparr>co_ssl_ca := winning None (co_ssl_ca opt) Some opts grp key\<rparr>"
  "fill (from_file (co_ssl_cert opt = None) opts grp key) (\<lambda>s o'. o'\<lparr>co_ssl_cert := Some s\<rparr>) opt =
     opt\<lparr>co_ssl_cert := winning None (co_ssl_cert opt) Some opts grp key\<rparr>"
  "fill (from_file (co_ssl_key opt = None) opts grp key) (\<lambda>s o'. o'\<lparr>co_ssl_key := Some s\<rparr>) opt =
     opt\<lparr>co_ssl_key := winning None (co_ssl_key opt) Some opts grp key\<rparr>"
  by (simp_all add: fill_def from_file_def winning_def default_options_def DEFAULT_CHARSET_def split: option.split)

lemma port_winning:
  "port_from_file path opts grp opt = Inr res \<longleftrightarrow>
   res = opt\<lparr>co_port := winning 3306 (co_port opt) (\<lambda>s. word_of_nat (the (parse_unsigned 65535 s))) opts grp ''port''\<rparr> \<and>
   (co_port opt = 3306 \<longrightarrow> (\<forall>s. option_get opts grp ''port'' = Some s \<longrightarrow> parse_unsigned 65535 s \<noteq> None))"
  by (cases "option_get opts grp ''port''"; cases "parse_unsigned 65535 (the (option_get opts grp ''port''))")
    (auto simp: port_from_file_def from_file_def winning_def default_options_def)

text \<open>C31: Options given by the program win over the option file.  When applying the option file succeeds, every
  option that the program has set keeps its value, every option at its default takes the value of the
  file's group (\<open>client\<close> unless another is named) if the file has it, a socket path counts for the host when
  neither the program nor the file names another host, a port of the file that is accepted is a number
  of 16 bits, and every option that no file sets is unchanged.\<close>

theorem option_file_precedence:
  assumes "apply_option_file W options = Inr res" and "co_read_default_file options = Some path"
  shows "\<exists>opts. option_file_read W path = Inr opts \<and>
    (let grp = (case co_read_default_group options of Some g \<Rightarrow> g | None \<Rightarrow> ''client'');
         host = winning ''localhost'' (co_host options) id opts grp ''host'';
         port = winning 3306 (co_port options) (\<lambda>s. word_of_nat (the (parse_unsigned 65535 s))) opts grp ''port''
     in (co_port options = 3306 \<longrightarrow> (\<forall>s. option_get opts grp ''port'' = Some s \<longrightarrow> parse_unsigned 65535 s \<noteq> None)) \<and>
        res = options\<lparr>co_host := winning ''localhost'' host id opts grp ''socket'', co_port := port,
          co_user := winning [] (co_user options) id opts grp ''user'',
          co_password := winning [] (co_password options) as_bytes opts grp ''password'',
          co_database := winning None (co_database options) Some opts grp ''database'',
          co_charset := winning ''utf8mb4'' (co_charset options) id opts grp ''default-character-set'',
          co_ssl_ca := winning None (co_ssl_ca options) Some opts grp ''ssl-ca'',
          co_ssl_cert := winning None (co_ssl_cert options) Some opts grp ''ssl-cert'',
          co_ssl_key := winning None (co_ssl_key options) Some opts grp ''ssl-key'',
          co_read_default_file := None\<rparr>)"
proof -
  obtain opts where o: "option_file_read W path = Inr opts"
    using assms by (auto simp: apply_option_file_def Let_def bind_res_Inr_iff)
  show ?thesis
    using assms o
    by (simp add: apply_option_file_def Let_def bind_res_Inr_iff fill_winning port_winning) auto
qed

lemma utf8_valid_ascii: "list_all (\<lambda>b. b < 128) bs \<Longrightarrow> utf8_valid bs"
  by (induction bs) (subst utf8_valid.simps, simp add: utf8_step_def utf8_get_def)+

lemma str_from_utf8_as_bytes: "ascii_str s \<Longrightarrow> str_from_utf8 (as_bytes s) = Some s"
  by (simp add: str_from_utf8_def utf8_valid_ascii ascii_str_as_bytes)

text \<open>A world whose option file sets the user and the port.\<close>

definition sample_config :: "(string \<times> (string \<times> string) list) list" where
  "sample_config = [(''client'', [(''user'', ''u''), (''port'', ''99'')])]"

definition option_world :: "int world" where
  "option_world = sample_world\<lparr>w_read_file := (\<lambda>_. Inr (as_bytes (render_config sample_config)))\<rparr>"

theorem option_file_precedence_witness:
  "\<exists>opts res. option_file_read option_world ''f'' = Inr opts \<and> option_get opts ''client'' ''port'' = Some ''99'' \<and>
     apply_option_file option_world (default_options\<lparr>co_user := ''me'', co_read_default_file := Some ''f''\<rparr>) = Inr res \<and>
     co_user res = ''me'' \<and> co_port res = 99"
proof -
  let ?o = "default_options\<lparr>co_user := ''me'', co_read_default_file := Some ''f''\<rparr>"
  have "good_config sample_config"
    by (simp add: sample_config_def good_config_def good_group_def good_key_def plain_char_def key_char_def)
  from parse_render_config [OF lowercases_ascii_map this] obtain opts where
    opts: "option_file_parse (map ascii_lower) (render_config sample_config) = Inr opts"
      "\<And>g k. option_get opts g k = map_of (rev (config_options sample_config)) (g, k)" by blast
  have "ascii_str (render_config sample_config)"
    by (simp add: ascii_str_def render_config_def sample_config_def section_line_def option_line_def)
  then have rd: "option_file_read option_world ''f'' = Inr opts"
    using opts(1) by (simp add: option_file_read_def option_world_def sample_world_def sample_env_def str_from_utf8_as_bytes)
  have port: "option_get opts ''client'' ''port'' = Some ''99''" "parse_unsigned 65535 ''99'' = Some 99"
    by (simp_all add: opts(2) config_options_def sample_config_def parse_unsigned_def is_digit_def digits_val_def digit_val_def)
  have grp: "co_read_default_file ?o = Some ''f''" "co_read_default_group (?o\<lparr>co_read_default_file := None\<rparr>) = None"
    by (simp_all add: default_options_def)
  have "\<exists>r. port_from_file ''f'' opts ''client'' opt = Inr r" for opt
    using port by (simp add: port_from_file_def from_file_def)
  then have "\<exists>res. apply_option_file option_world ?o = Inr res"
    unfolding apply_option_file_def Let_def grp option.case rd bind_res_simps by (metis bind_res_simps(2))
  then obtain res where res: "apply_option_file option_world ?o = Inr res" ..
  from option_file_precedence [OF this, of "''f''"] rd port have "co_user res = ''me'' \<and> co_port res = 99"
    by (auto simp: Let_def winning_def default_options_def)
  with rd port res show ?thesis by blast
qed

section \<open>Certificates are always verified\<close>

text \<open>C22: No configuration turns certificate verification off.  Whatever the options, a certificate that the TLS
  configuration accepts has been checked by the verifier of the platform, or of exactly the usable
  certificates of \<open>ssl_ca\<close> when that is set; that verifier accepts it, or, only when \<open>ssl_verify_identity\<close> is
  not set, rejects nothing but the host name.\<close>

theorem tls_config_verifies:
  assumes "build_tls_config W L options = Inr config"
    and "verify_server_cert L (tc_verifier config) shown name = None"
  shows "\<exists>base. (case co_ssl_ca options of
      None \<Rightarrow> base = PlatformVerifier
    | Some path \<Rightarrow> \<exists>d certs. w_read_file W path = Inr d \<and> tl_pem_certs L d = Inr certs \<and>
        base = WebPkiVerifier (filter (tl_parsable L) certs)) \<and>
    (tl_verify L base shown name = None \<or> \<not> co_ssl_verify_identity options \<and>
       tl_verify L base shown name \<in> {Some NotValidForName, Some NotValidForNameContext})"
proof -
  obtain v where v: "build_verifier W L options = Inr v" "tc_verifier config = v"
    using assms(1) by (auto simp: build_tls_config_def bind_res_Inr_iff split: if_splits)
  with assms(2) have "verify_server_cert L v shown name = None" by simp
  with v(1) show ?thesis
    by (auto simp: build_verifier_def load_roots_def tls_try_def tls_check_def bind_res_Inr_iff
        split: if_splits option.splits sum.splits cert_error.splits)
qed

text \<open>A library that accepts certificates of its roots, and only for the name in front of them.\<close>

definition sample_tls :: tls_lib where
  "sample_tls = \<lparr>tl_versions = None, tl_pem_certs = (\<lambda>d. Inr [d]), tl_pem_keys = (\<lambda>d. Inr [d]), tl_parsable = (\<lambda>_. True),
     tl_platform_builder = None, tl_webpki_builder = (\<lambda>_. None), tl_platform_new = None, tl_client_auth = (\<lambda>_ _. None),
     tl_verify = (\<lambda>v shown name. case (v, shown) of
         (WebPkiVerifier roots, (cert, _)) \<Rightarrow>
           (if cert \<notin> set roots then Some (OtherCertError ''unknown issuer'')
            else if name = DnsName ''db'' then None else Some NotValidForName)
       | _ \<Rightarrow> Some (OtherCertError ''unknown issuer'')),
     tl_signature = (\<lambda>_ _ _ _. None), tl_schemes = (\<lambda>_. []), tl_handshake = (\<lambda>_ _. None),
     tl_parse_ip = (\<lambda>_. None), tl_dns_name = (\<lambda>_. True)\<rparr>"

theorem tls_config_verifies_witness:
  "\<exists>config. build_tls_config sample_world sample_tls (default_options\<lparr>co_ssl_ca := Some ''/h/f''\<rparr>) = Inr config \<and>
     verify_server_cert sample_tls (tc_verifier config) ([49, 10], [], [], 0) (DnsName ''x'') = None \<and>
     tl_verify sample_tls (WebPkiVerifier [[49, 10]]) ([49, 10], [], [], 0) (DnsName ''x'') = Some NotValidForName"
proof -
  let ?config = "\<lparr>tc_verifier = NoHostnameVerifier (WebPkiVerifier [[49, 10]]), tc_client_auth = None\<rparr>"
  have "build_tls_config sample_world sample_tls (default_options\<lparr>co_ssl_ca := Some ''/h/f''\<rparr>) = Inr ?config"
    by (simp add: build_tls_config_def build_verifier_def load_roots_def client_auth_cert_def tls_check_def tls_try_def
        sample_tls_def sample_world_def default_options_def)
  moreover have "verify_server_cert sample_tls (tc_verifier ?config) ([49, 10], [], [], 0) (DnsName ''x'') = None"
    by (simp add: sample_tls_def)
  ultimately show ?thesis
    using tls_config_verifies [of sample_world sample_tls "default_options\<lparr>co_ssl_ca := Some ''/h/f''\<rparr>" ?config]
    by (intro exI [of _ ?config]) (auto simp: sample_tls_def)
qed

section \<open>TLS before credentials\<close>

text \<open>Output is only ever added.\<close>

definition grows :: "'x client \<Rightarrow> 'x client \<Rightarrow> bool" where
  "grows k k' \<longleftrightarrow> (\<exists>d. cl_out k' = cl_out k @ d)"

lemma growsI: "cl_out k' = cl_out k \<Longrightarrow> grows k k'"
  by (simp add: grows_def)

lemma grows_trans: "grows k k' \<Longrightarrow> grows k' k'' \<Longrightarrow> grows k k''"
  by (auto simp: grows_def)

lemma grows_lift: "lift_inner m k = (x, k') \<Longrightarrow> grows k k'"
  by (auto simp: lift_inner_def split: prod.splits intro: growsI)

lemma grows_write_all: "client_write_all d k = (x, k') \<Longrightarrow> grows k k'"
  by (auto simp: client_write_all_def io_outcome_def err_panic_apply grows_def split: option.splits list.splits)

lemma grows_pump_write_loop: "pump_write_loop k = (x, k') \<Longrightarrow> grows k k'"
proof (induction k rule: pump_write_loop.induct)
  case (1 k)
  obtain d c where p: "pop_send_queue (cl_inner k) = (d, c)" by fastforce
  show ?case
  proof (cases d)
    case None
    with p 1(2) show ?thesis by (subst (asm) pump_write_loop.simps) (simp add: growsI)
  next
    case (Some b)
    obtain y k1 where w: "client_write_all b (k\<lparr>cl_inner := c\<rparr>) = (y, k1)" by fastforce
    then have g: "grows k k1" using grows_write_all [OF w] by (simp add: grows_def)
    from 1 p Some w g show ?thesis
      by (subst (asm) (2) pump_write_loop.simps) (auto split: sum.splits intro: grows_trans)
  qed
qed

lemma grows_pump_write: "pump_write k = (x, k') \<Longrightarrow> grows k k'"
  using grows_pump_write_loop
  by (fastforce simp: pump_write_def st_simps client_flush_def io_outcome_def grows_def
      split: prod.splits sum.splits option.splits list.splits)

lemma grows_pump_read: "pump_read V k = (x, k') \<Longrightarrow> grows k k'"
  by (auto dest!: pump_read_quiet simp: quiet_def intro: growsI)

lemma grows_authenticate_loop: "authenticate_loop V st k = (x, k') \<Longrightarrow> grows k k'"
proof (induction V st k rule: authenticate_loop.induct)
  case (1 V st k)
  show ?case
  proof (cases st)
    case NeedRead
    obtain y k1 where r: "pump_read V k = (y, k1)" by fastforce
    obtain z k2 where c: "lift_inner (request_authentication_continue V) k1 = (z, k2)" by fastforce
    from 1 NeedRead r c grows_pump_read [OF r] grows_lift [OF c] show ?thesis
      by (subst (asm) (3) authenticate_loop.simps) (auto split: sum.splits intro: grows_trans)
  next
    case Send
    obtain y k1 where w: "pump_write k = (y, k1)" by fastforce
    from 1 Send w grows_pump_write [OF w] show ?thesis
      by (subst (asm) (3) authenticate_loop.simps) (auto split: sum.splits intro: grows_trans)
  next
    case Success
    with 1(3) show ?thesis by (subst (asm) authenticate_loop.simps) (simp add: growsI)
  qed
qed

lemma pump_write_single:
  assumes "pump_write k = (x, k')" and "ps_send_queue (cn_packet_stream (cl_inner k)) = [d]"
  shows "(\<exists>w. cl_out k' = cl_out k @ w \<and> prefix w d) \<and>
    (x = Inr () \<longrightarrow> cl_out k' = cl_out k @ d \<and> cn_options (cl_inner k') = cn_options (cl_inner k))"
proof -
  let ?c = "(cl_inner k)\<lparr>cn_packet_stream := (cn_packet_stream (cl_inner k))\<lparr>ps_send_queue := []\<rparr>\<rparr>"
  have p: "pop_send_queue (cl_inner k) = (Some d, ?c)" "pop_send_queue ?c = (None, ?c)"
    using assms(2) by (simp_all add: pop_send_queue_def)
  obtain y k1 where w: "client_write_all d (k\<lparr>cl_inner := ?c\<rparr>) = (y, k1)" by fastforce
  have k1: "y = Inr () \<and> cl_inner k1 = ?c \<and> cl_out k1 = cl_out k @ d \<or> (\<exists>e n. y = Inl e \<and> cl_out k1 = cl_out k @ take n d)"
    using w by (auto simp: client_write_all_def io_outcome_def err_panic_apply intro: exI [of _ 0] split: option.splits list.splits)
  have l: "pump_write_loop k1 = (Inr (), k1)" if "cl_inner k1 = ?c"
    using p(2) that by (subst pump_write_loop.simps) simp
  have "pump_write_loop k = (y, k1)"
    using p(1) w l k1 by (subst pump_write_loop.simps) auto
  with assms(1) k1 show ?thesis
    by (auto simp: pump_write_def st_simps client_flush_def io_outcome_def take_is_prefix split: option.splits list.splits)
qed

lemma upgrade_to_tls_out:
  "upgrade_to_tls W L k = (x, k') \<Longrightarrow> cl_out k' = cl_out k \<and>
    (x = Inr () \<longrightarrow> (\<exists>config name. build_tls_config W L (cn_options (cl_inner k)) = Inr config \<and>
       server_name_from_host L (co_host (cn_options (cl_inner k))) = Inr name \<and> tl_handshake L config name = None))"
  by (cases "build_tls_config W L (cn_options (cl_inner k))"; cases "server_name_from_host L (co_host (cn_options (cl_inner k)))")
    (auto simp: upgrade_to_tls_def st_simps lift_err_def split: option.splits connection_stream.splits)

lemma start_required:
  assumes "\<not> ps_compressed (cn_packet_stream c)" and "co_ssl_mode (cn_options c) = Required"
    and "request_authentication_start V c = (x, c')"
  shows "(\<exists>e. x = Inl e) \<and> c' = c \<or>
    (\<exists>cs. x = Inr Send \<and> c' = (queued (response_head (cn_client_flag c OR SSL) cs) c)\<lparr>cn_needs_tls_upgrade := True\<rparr>)"
  using assms
  by (auto simp: request_authentication_start_def st_simps conn_write_queued Let_def split: option.splits if_splits)

text \<open>C13: With TLS required, credentials are sent under TLS only.  Whatever the server sends and however the network
  fails, also in the middle of a write, when the client authenticates under \<open>SslMode::Required\<close> it writes the SSL request (flags,
  packet limit and character set, no user name and no response) or a part of it or nothing, and anything
  more only after the whole request and a TLS handshake that has succeeded with the configuration built from the options
  and the name of the host.\<close>

theorem credentials_under_tls:
  assumes "co_ssl_mode (cn_options (cl_inner k)) = Required" and "\<not> ps_compressed (cn_packet_stream (cl_inner k))"
    and "ps_send_queue (cn_packet_stream (cl_inner k)) = []" and "authenticate W L k = (x, k')"
  shows "\<exists>cs w rest. cl_out k' = cl_out k @ w @ rest \<and>
    prefix w (frames (ps_next_seq_id (cn_packet_stream (cl_inner k))) (response_head (cn_client_flag (cl_inner k) OR SSL) cs)) \<and>
    (rest \<noteq> [] \<longrightarrow>
       w = frames (ps_next_seq_id (cn_packet_stream (cl_inner k))) (response_head (cn_client_flag (cl_inner k) OR SSL) cs) \<and>
       (\<exists>config name. build_tls_config W L (cn_options (cl_inner k)) = Inr config \<and>
          server_name_from_host L (co_host (cn_options (cl_inner k))) = Inr name \<and> tl_handshake L config name = None))"
proof -
  let ?c = "cl_inner k" and ?V = "w_env W"
  obtain s c1 where s: "request_authentication_start ?V ?c = (s, c1)" by fastforce
  show ?thesis
  proof (cases "\<exists>e. s = Inl e")
    case True
    with start_required [OF assms(2,1) s] s assms(4) have "cl_out k' = cl_out k @ [] @ []"
      by (auto simp: authenticate_def st_simps lift_inner_def)
    then show ?thesis by (intro exI) (rule conjI, assumption, simp)
  next
    case False
    with start_required [OF assms(2,1) s] obtain cs where
      c1: "s = Inr Send" "c1 = (queued (response_head (cn_client_flag ?c OR SSL) cs) ?c)\<lparr>cn_needs_tls_upgrade := True\<rparr>" by blast
    let ?req = "frames (ps_next_seq_id (cn_packet_stream ?c)) (response_head (cn_client_flag ?c OR SSL) cs)"
    let ?k1 = "k\<lparr>cl_inner := c1\<rparr>"
    obtain y2 k2 where w: "pump_write ?k1 = (y2, k2)" by fastforce
    have k2: "(\<exists>w. cl_out k2 = cl_out k @ w \<and> prefix w ?req) \<and>
        (y2 = Inr () \<longrightarrow> cl_out k2 = cl_out k @ ?req \<and> cn_options (cl_inner k2) = cn_options ?c)"
      using pump_write_single [OF w] assms(3) by (simp add: c1(2) queued_def)
    obtain y3 k3 where u: "upgrade_to_tls W L k2 = (y3, k3)" by fastforce
    note k3 = upgrade_to_tls_out [OF u]
    define tail where "tail = bind_st (lift_inner (request_authentication_send_credentials ?V)) (\<lambda>state.
      bind_st (bind_st pump_write (\<lambda>_. ret state)) (\<lambda>state. authenticate_loop ?V state))"
    have g: "grows k3 (snd (tail k3))" for k3
      unfolding tail_def bind_st_def ret_def
      by (auto split: prod.splits sum.splits dest!: grows_lift grows_pump_write
          intro: grows_trans grows_authenticate_loop [OF prod.collapse [symmetric]])
    have "authenticate W L k = bind_st pump_write (\<lambda>_. bind_st (upgrade_to_tls W L) (\<lambda>_. tail)) ?k1"
      using s c1 by (simp add: authenticate_def tail_def bind_st_def ret_def get_st_def lift_inner_def split: prod.splits sum.splits)
    then have "authenticate W L k = (case y2 of Inl e \<Rightarrow> (Inl e, k2) | Inr _ \<Rightarrow> (case y3 of Inl e \<Rightarrow> (Inl e, k3) | Inr _ \<Rightarrow> tail k3))"
      using w u by (simp only: bind_st_def prod.case)
    then consider "k' = k2" | "y2 = Inr ()" "k' = k3" | "y2 = Inr ()" "y3 = Inr ()" "k' = snd (tail k3)"
      using assms(4) by (cases y2; cases y3) (auto dest: arg_cong [where f = snd])
    then show ?thesis
    proof cases
      case 1
      with k2 show ?thesis by (metis append_Nil2)
    next
      case 2
      with k2 k3 have "cl_out k' = cl_out k @ ?req @ []" by simp
      then show ?thesis by blast
    next
      case 3
      with k2 k3 g [of k3] obtain d where "cl_out k' = cl_out k @ ?req @ d" by (auto simp: grows_def)
      with 3 k2 k3 show ?thesis by (metis prefix_order.refl)
    qed
  qed
qed

theorem credentials_under_tls_witness:
  "\<exists>k'. authenticate sample_world (sample_tls\<lparr>tl_handshake := \<lambda>_ _. Some ''refused''\<rparr>)
      (sample_client\<lparr>cl_inner := login_conn\<lparr>cn_options := (cn_options login_conn)\<lparr>co_ssl_mode := Required\<rparr>, cn_server_capabilities := SSL\<rparr>\<rparr>) =
      (Inl (Fail (ssl_error ''TLS handshake failed: refused'')), k') \<and>
    (\<exists>cs. prefix (cl_out k') (frames 0 (response_head (CAPABILITIES OR SSL) cs)))"
proof -
  let ?L = "sample_tls\<lparr>tl_handshake := \<lambda>_ _. Some ''refused''\<rparr>"
  let ?c = "login_conn\<lparr>cn_options := (cn_options login_conn)\<lparr>co_ssl_mode := Required\<rparr>, cn_server_capabilities := SSL\<rparr>"
  let ?k = "sample_client\<lparr>cl_inner := ?c\<rparr>"
  note c_defs = login_conn_def sample_conn_def connection_new_def default_options_def ps_new_def DEFAULT_CHARSET_def
  have c: "co_ssl_mode (cn_options (cl_inner ?k)) = Required" "\<not> ps_compressed (cn_packet_stream (cl_inner ?k))"
      "ps_send_queue (cn_packet_stream (cl_inner ?k)) = []" "cl_out ?k = []" "ps_next_seq_id (cn_packet_stream ?c) = 0"
      "cn_client_flag ?c = CAPABILITIES" "co_user (cn_options ?c) = ''u''" "co_charset (cn_options ?c) = ''utf8mb4''"
      "cl_stream ?k = Some PlainStream" "cl_wfail ?k = []"
    by (simp_all add: c_defs sample_client_def)
  obtain cs where start: "request_authentication_start sample_env ?c =
      (Inr Send, (queued (response_head (CAPABILITIES OR SSL) cs) ?c)\<lparr>cn_needs_tls_upgrade := True\<rparr>)"
    using start_required [of ?c sample_env] utf8mb4_found c
    by (auto simp: request_authentication_start_def st_simps conn_write_queued sample_env_def)
  let ?k1 = "?k\<lparr>cl_inner := (queued (response_head (CAPABILITIES OR SSL) cs) ?c)\<lparr>cn_needs_tls_upgrade := True\<rparr>\<rparr>"
  obtain k2 where w: "pump_write ?k1 = (Inr (), k2)" "cl_stream k2 = Some PlainStream" "cn_options (cl_inner k2) = cn_options ?c"
    using pump_write_out [of ?k1] c by (simp add: queued_def)
  have cfg: "\<exists>config. build_tls_config sample_world ?L (cn_options ?c) = Inr config"
      "server_name_from_host ?L (co_host (cn_options ?c)) = Inr (DnsName ''localhost'')"
    by (simp_all add: build_tls_config_def build_verifier_def client_auth_cert_def tls_check_def sample_tls_def c_defs
        server_name_from_host_def)
  have "\<exists>k3. upgrade_to_tls sample_world ?L k2 = (Inl (Fail (ssl_error ''TLS handshake failed: refused'')), k3)"
    using cfg w(2,3) by (auto simp: upgrade_to_tls_def st_simps lift_err_def)
  then obtain k3 where "authenticate sample_world ?L ?k = (Inl (Fail (ssl_error ''TLS handshake failed: refused'')), k3)"
    using start w(1) by (auto simp: authenticate_def st_simps lift_inner_def sample_world_def)
  moreover from credentials_under_tls [OF c(1-3) this] have "\<exists>cs. prefix (cl_out k3) (frames 0 (response_head (CAPABILITIES OR SSL) cs))"
    using c by auto
  ultimately show ?thesis by blast
qed

end
