(* ===== verification/Transaction.thy ===== *)
theory Transaction
  imports Client_Exchange
begin

text \<open>
  Transactions, \<^verbatim>\<open>mysql/src/transaction.rs\<close>.  A \<open>Transaction\<close> borrows the connection, so its methods work on
  the client; the object itself is the flag \<open>finished\<close>, which its destructor reads.
\<close>

datatype isolation_level = ReadUncommitted | ReadCommitted | RepeatableRead | Serializable

fun isolation_as_sql :: "isolation_level \<Rightarrow> string" where
  "isolation_as_sql ReadUncommitted = ''READ UNCOMMITTED''"
| "isolation_as_sql ReadCommitted = ''READ COMMITTED''"
| "isolation_as_sql RepeatableRead = ''REPEATABLE READ''"
| "isolation_as_sql Serializable = ''SERIALIZABLE''"

record tx_options =
  tx_isolation_level :: "isolation_level option"
  tx_read_only :: bool

definition default_tx_options :: tx_options where
  "default_tx_options = \<lparr>tx_isolation_level = None, tx_read_only = False\<rparr>"

record transaction =
  tx_finished :: bool

definition tx_begin_with :: "'x world \<Rightarrow> tx_options \<Rightarrow> ('x client, transaction) rs" where
  "tx_begin_with W options =
     bind_st (rollback_dirty_transaction W) (\<lambda>_.
     bind_st get_st (\<lambda>k.
     if client_in_transaction k then
       err (ProgrammingError CR_COMMANDS_OUT_OF_SYNC ''Cannot begin a transaction while already in one'')
     else
       bind_st (case tx_isolation_level options of
           None \<Rightarrow> ret ()
         | Some level \<Rightarrow>
             bind_st (client_query W (''SET TRANSACTION ISOLATION LEVEL '' @ isolation_as_sql level) False) (\<lambda>_. ret ())) (\<lambda>_.
       bind_st (client_query W
         (if tx_read_only options then ''START TRANSACTION READ ONLY'' else ''START TRANSACTION'') False) (\<lambda>_.
       ret \<lparr>tx_finished = False\<rparr>))))"

definition tx_begin :: "'x world \<Rightarrow> ('x client, transaction) rs" where
  "tx_begin W = tx_begin_with W default_tx_options"

text \<open>The destructor.\<close>

definition tx_drop :: "transaction \<Rightarrow> 'x client \<Rightarrow> 'x client" where
  "tx_drop tx k = (if \<not> tx_finished tx then mark_transaction_dirty k else k)"

text \<open>\<open>commit\<close> and \<open>rollback\<close> consume the transaction: it is dropped on every path.\<close>

definition tx_end :: "'x world \<Rightarrow> string \<Rightarrow> transaction \<Rightarrow> ('x client, unit) rs" where
  "tx_end W sql tx k =
     (let tx = tx\<lparr>tx_finished := True\<rparr>
      in case client_query W sql False k of (r, k') \<Rightarrow> (map_sum id (\<lambda>_. ()) r, tx_drop tx k'))"

definition tx_commit :: "'x world \<Rightarrow> transaction \<Rightarrow> ('x client, unit) rs" where
  "tx_commit W tx = tx_end W ''COMMIT'' tx"

definition tx_rollback :: "'x world \<Rightarrow> transaction \<Rightarrow> ('x client, unit) rs" where
  "tx_rollback W tx = tx_end W ''ROLLBACK'' tx"

definition tx_execute :: "'x world \<Rightarrow> string \<Rightarrow> 'x mysql_value list option \<Rightarrow> ('x client, int) rs" where
  "tx_execute W query args = client_execute W query args"

definition tx_query :: "'x world \<Rightarrow> string \<Rightarrow> bool \<Rightarrow> ('x client, int) rs" where
  "tx_query W sql unbuffered = client_query W sql unbuffered"

definition tx_savepoint :: "'x world \<Rightarrow> string \<Rightarrow> ('x client, unit) rs" where
  "tx_savepoint W name = bind_st (client_query W (''SAVEPOINT '' @ name) False) (\<lambda>_. ret ())"

definition tx_rollback_to :: "'x world \<Rightarrow> string \<Rightarrow> ('x client, unit) rs" where
  "tx_rollback_to W name = bind_st (client_query W (''ROLLBACK TO SAVEPOINT '' @ name) False) (\<lambda>_. ret ())"

definition tx_release_savepoint :: "'x world \<Rightarrow> string \<Rightarrow> ('x client, unit) rs" where
  "tx_release_savepoint W name = bind_st (client_query W (''RELEASE SAVEPOINT '' @ name) False) (\<lambda>_. ret ())"

section \<open>What beginning a transaction sends\<close>

text \<open>The statements of \<open>begin_with\<close>, given whether a transaction is open or abandoned.\<close>

definition begin_statements :: "bool \<Rightarrow> tx_options \<Rightarrow> string list" where
  "begin_statements open_tx options =
     (if open_tx then [''ROLLBACK''] else []) @
     (case tx_isolation_level options of
        None \<Rightarrow> [] | Some level \<Rightarrow> [''SET TRANSACTION ISOLATION LEVEL '' @ isolation_as_sql level]) @
     [if tx_read_only options then ''START TRANSACTION READ ONLY'' else ''START TRANSACTION'']"

text \<open>A run of statements whose replies arrive in order.\<close>

fun run_statements :: "'x world \<Rightarrow> string list \<Rightarrow> ('x client, unit) rs" where
  "run_statements W [] = ret ()"
| "run_statements W (sql # sqls) = bind_st (client_query W sql False) (\<lambda>_. run_statements W sqls)"

definition in_trans_status :: "u16 \<Rightarrow> bool" where
  "in_trans_status s \<longleftrightarrow> s AND SERVER_STATUS_IN_TRANS \<noteq> 0"

text \<open>The server answers \<open>xs\<close>; \<open>last_status\<close> is the status it reports last.\<close>

definition served :: "'x world \<Rightarrow> exchange list \<Rightarrow> read_event list \<Rightarrow> 'x client \<Rightarrow> bool" where
  "served W xs es k \<longleftrightarrow> client_idle k \<and> list_all (exchange_ok (w_env W) (cl_inner k)) xs \<and>
     cl_in k = concat (map (\<lambda>(_, _, segs). map Recv segs) xs) @ es"

definition sent_all :: "exchange list \<Rightarrow> bytes" where
  "sent_all xs = concat (map (\<lambda>(sql, _). frames 0 (COM_QUERY # as_bytes sql)) xs)"

lemma served_query:
  assumes "served W ((sql, rp, segs) # xs) es k"
  shows "\<exists>k'. client_query W sql False k = (Inr (reply_affected rp), k') \<and> served W xs es k' \<and>
    cl_out k' = cl_out k @ sent_all [(sql, rp, segs)] \<and> cn_server_status (cl_inner k') = reply_status rp \<and>
    cl_transaction_dirty k' = cl_transaction_dirty k \<and> same_codec (cl_inner k) (cl_inner k') \<and>
    client_rows k' = reply_rows (w_env W) (cl_inner k) rp \<and> cl_stream k' = cl_stream k"
proof -
  let ?es = "concat (map (\<lambda>(_, _, segs). map Recv segs) xs) @ es"
  have h: "client_idle k" "reply_ok (w_env W) (cl_inner k) rp" "cl_in k = map Recv segs @ ?es"
      "arrives COM_QUERY (as_bytes sql) (reply_packets rp) segs"
    using assms by (auto simp: served_def exchange_ok_def)
  from query_reply [OF h] obtain k' where
    k': "client_query W sql False k = (Inr (reply_affected rp), k')" "client_idle k'" "cl_in k' = ?es"
      "cl_out k' = cl_out k @ frames 0 (COM_QUERY # as_bytes sql)" "cn_server_status (cl_inner k') = reply_status rp"
      "same_codec (cl_inner k) (cl_inner k')" "cl_transaction_dirty k' = cl_transaction_dirty k"
      "client_rows k' = reply_rows (w_env W) (cl_inner k) rp" "cl_stream k' = cl_stream k"
    by blast
  have "list_all (exchange_ok (w_env W) (cl_inner k')) xs"
    using assms same_codec_reply_ok [OF k'(6)] by (simp add: served_def exchange_ok_def [abs_def])
  with k' show ?thesis by (auto simp: served_def sent_all_def)
qed

lemma served_run:
  assumes "served W xs es k"
  shows "\<exists>k'. run_statements W (map fst xs) k = (Inr (), k') \<and> served W [] es k' \<and> cl_out k' = cl_out k @ sent_all xs \<and>
    cl_transaction_dirty k' = cl_transaction_dirty k \<and> cl_stream k' = cl_stream k"
  using assms
proof (induction xs arbitrary: k)
  case Nil
  then show ?case by (simp add: ret_def sent_all_def)
next
  case (Cons x xs)
  obtain sql rp segs where x: "x = (sql, rp, segs)" by (cases x)
  from served_query [OF Cons.prems [unfolded x]] obtain k1 where
    k1: "client_query W sql False k = (Inr (reply_affected rp), k1)" "served W xs es k1"
      "cl_out k1 = cl_out k @ sent_all [(sql, rp, segs)]" "cl_transaction_dirty k1 = cl_transaction_dirty k"
      "cl_stream k1 = cl_stream k" by blast
  from Cons.IH [OF k1(2)] k1 show ?case by (auto simp: x st_simps sent_all_def)
qed

lemma rollback_dirty_clean:
  "\<not> (cl_transaction_dirty k \<or> client_in_transaction k) \<Longrightarrow> rollback_dirty_transaction W k = (Inr (), k)"
  by (simp add: rollback_dirty_transaction_def st_simps)

lemma rollback_dirty_served:
  assumes "cl_transaction_dirty k \<or> client_in_transaction k" and "served W ((''ROLLBACK'', rp, segs) # xs) es k"
  shows "\<exists>k'. rollback_dirty_transaction W k = (Inr (), k') \<and> served W xs es k' \<and> \<not> cl_transaction_dirty k' \<and>
    client_in_transaction k' = in_trans_status (reply_status rp) \<and>
    cl_out k' = cl_out k @ sent_all [(''ROLLBACK'', rp, segs)] \<and> cl_stream k' = cl_stream k"
proof -
  from served_query [OF assms(2)] obtain k1 where
    k1: "client_query W ''ROLLBACK'' False k = (Inr (reply_affected rp), k1)" "served W xs es k1"
      "cl_out k1 = cl_out k @ sent_all [(''ROLLBACK'', rp, segs)]" "cn_server_status (cl_inner k1) = reply_status rp"
      "cl_stream k1 = cl_stream k" by blast
  have "rollback_dirty_transaction W k = (Inr (), k1\<lparr>cl_transaction_dirty := False\<rparr>)"
    using assms(1) k1(1) by (simp add: rollback_dirty_transaction_def st_simps)
  with k1 show ?thesis
    by (simp add: served_def client_idle_def client_in_transaction_def core_in_transaction_def in_trans_status_def)
qed

lemma begin_run:
  assumes "rollback_dirty_transaction W k = (Inr (), k1)" and "\<not> client_in_transaction k1"
    and "run_statements W (begin_statements False options) k1 = (Inr (), k2)"
  shows "tx_begin_with W options k = (Inr \<lparr>tx_finished = False\<rparr>, k2)"
  using assms
  by (cases "tx_isolation_level options"; cases "tx_read_only options")
    (auto simp: tx_begin_with_def begin_statements_def st_simps split: prod.splits sum.splits)

text \<open>C16: Beginning a transaction never mixes two of them.  When the server accepts the statements, \<open>begin_with\<close> sends
  exactly: a \<open>ROLLBACK\<close> if the client has abandoned a transaction or the last status says that one is open,
  the isolation level if one is asked for, and \<open>START TRANSACTION\<close>, read-only if asked for, in this order;
  it returns an unfinished transaction on an idle client, and the abandoned one is forgotten.\<close>

theorem begin_statements_sent:
  assumes "served W xs es k" and "map fst xs = begin_statements (cl_transaction_dirty k \<or> client_in_transaction k) options"
    and "cl_transaction_dirty k \<or> client_in_transaction k \<longrightarrow> \<not> in_trans_status (reply_status (fst (snd (hd xs))))"
  shows "\<exists>k'. tx_begin_with W options k = (Inr \<lparr>tx_finished = False\<rparr>, k') \<and> cl_out k' = cl_out k @ sent_all xs \<and>
    served W [] es k' \<and> \<not> cl_transaction_dirty k'"
proof (cases "cl_transaction_dirty k \<or> client_in_transaction k")
  case True
  then obtain rp segs ys where xs: "xs = (''ROLLBACK'', rp, segs) # ys" "map fst ys = begin_statements False options"
    using assms(2) by (cases xs) (auto simp: begin_statements_def)
  from rollback_dirty_served [OF True assms(1) [unfolded xs(1)]] obtain k1 where
    k1: "rollback_dirty_transaction W k = (Inr (), k1)" "served W ys es k1" "\<not> cl_transaction_dirty k1"
      "\<not> client_in_transaction k1" "cl_out k1 = cl_out k @ sent_all [(''ROLLBACK'', rp, segs)]"
    using assms(3) True xs(1) by auto
  from served_run [OF k1(2)] obtain k2 where "run_statements W (begin_statements False options) k1 = (Inr (), k2)"
      "served W [] es k2" "cl_out k2 = cl_out k1 @ sent_all ys" "\<not> cl_transaction_dirty k2"
    using k1(3) xs(2) by auto
  with begin_run [OF k1(1,4)] k1(5) xs(1) show ?thesis by (simp add: sent_all_def)
next
  case False
  from served_run [OF assms(1)] obtain k2 where "run_statements W (begin_statements False options) k = (Inr (), k2)"
      "served W [] es k2" "cl_out k2 = cl_out k @ sent_all xs" "\<not> cl_transaction_dirty k2"
    using False assms(2) by auto
  with begin_run [OF rollback_dirty_clean [OF False]] False show ?thesis by simp
qed

definition ok_exchange :: "string \<Rightarrow> bytes list \<Rightarrow> exchange" where
  "ok_exchange sql segs = (sql, OkReply 0 0 2 0 [], segs)"

lemma sample_ok_exchange:
  "exchange_ok sample_env sample_conn (ok_exchange sql [frames (seq_after 0 (COM_QUERY # as_bytes sql)) [0, 0, 0, 2, 0, 0, 0]])"
proof -
  have ok: "ok_packet 0 0 2 0 [] = [0, 0, 0, 2, 0, 0, 0]"
    by (simp add: ok_packet_def lenenc_int_def to_le_bytes_def byte_eval)
  have "[] \<noteq> frames q [0, 0, 0, 2, 0, 0, 0]" for q using frames_length [of "[0, 0, 0, 2, 0, 0, 0]" q] by auto
  then show ?thesis
    by (simp add: exchange_ok_def ok_exchange_def reply_ok_def sample_deliverable ok usize_max_def arrives_def)
qed

theorem begin_statements_sent_witness:
  "\<exists>segs k'. tx_begin sample_world (sample_client\<lparr>cl_transaction_dirty := True, cl_in := map Recv segs\<rparr>) =
      (Inr \<lparr>tx_finished = False\<rparr>, k') \<and> \<not> cl_transaction_dirty k' \<and>
    cl_out k' = frames 0 (COM_QUERY # as_bytes ''ROLLBACK'') @ frames 0 (COM_QUERY # as_bytes ''START TRANSACTION'')"
proof -
  let ?x = "\<lambda>sql. ok_exchange sql [frames (seq_after 0 (COM_QUERY # as_bytes sql)) [0, 0, 0, 2, 0, 0, 0]]"
  let ?xs = "[?x ''ROLLBACK'', ?x ''START TRANSACTION'']"
  let ?segs = "concat (map (\<lambda>(_, _, segs). segs) ?xs)"
  let ?k = "sample_client\<lparr>cl_transaction_dirty := True, cl_in := map Recv ?segs\<rparr>"
  have "client_idle ?k" using sample_client_idle [of "map Recv ?segs"] by (simp add: client_idle_def)
  moreover have "w_env sample_world = sample_env" "cl_inner ?k = sample_conn"
    by (simp_all add: sample_world_def sample_client_def)
  ultimately have "served sample_world ?xs [] ?k"
    using sample_ok_exchange by (simp add: served_def) (simp add: ok_exchange_def)
  moreover have "map fst ?xs = begin_statements True default_tx_options" "\<not> in_trans_status (reply_status (fst (snd (hd ?xs))))"
    by (simp_all add: ok_exchange_def begin_statements_def default_tx_options_def in_trans_status_def)
  ultimately obtain k' where "tx_begin_with sample_world default_tx_options ?k = (Inr \<lparr>tx_finished = False\<rparr>, k')"
      "cl_out k' = cl_out ?k @ sent_all ?xs" "\<not> cl_transaction_dirty k'"
    using begin_statements_sent [of sample_world ?xs "[]" ?k default_tx_options] by auto
  moreover have "cl_out ?k = []" by (simp add: sample_client_def)
  ultimately show ?thesis
    unfolding tx_begin_def by (intro exI [of _ ?segs] exI [of _ k']) (simp add: sent_all_def ok_exchange_def)
qed

end
