(* ===== verification/Client_Connect.thy ===== *)
theory Client_Connect
  imports Client_Setup Transaction
begin

text \<open>
  A whole connect, from the opened stream to the idle client: the greeting, the login with or without TLS,
  \<open>SET NAMES\<close> and the statements of the options, against a server that takes its turns.
\<close>

section \<open>One packet, one message\<close>

text \<open>The reads \<open>segs\<close> bring the packet \<open>p\<close>, framed from \<open>seq\<close>; the client that has read it, and that has also taken
  it out of the queue.\<close>

definition brings :: "u8 \<Rightarrow> bytes \<Rightarrow> bytes list \<Rightarrow> bool" where
  "brings seq p segs \<longleftrightarrow> [] \<notin> set segs \<and> concat segs = frames seq p"

definition received :: "mysql_packet list \<Rightarrow> bytes \<Rightarrow> read_event list \<Rightarrow> 'x client \<Rightarrow> 'x client" where
  "received q p es k = k\<lparr>cl_inner := (cl_inner k)\<lparr>cn_packet_stream := (cn_packet_stream (cl_inner k))\<lparr>
     ps_next_seq_id := seq_after (ps_next_seq_id (cn_packet_stream (cl_inner k))) p, ps_recv_queue := q\<rparr>\<rparr>, cl_in := es\<rparr>"

abbreviation next_seq :: "'x client \<Rightarrow> u8" where
  "next_seq k \<equiv> ps_next_seq_id (cn_packet_stream (cl_inner k))"

abbreviation limit :: "'x connection \<Rightarrow> nat" where
  "limit c \<equiv> ps_max_allowed_packet (cn_packet_stream c)"

lemma pump_one:
  assumes "client_idle k" and "cl_in k = map Recv segs @ es" and "brings (next_seq k) p segs" and "deliverable (limit (cl_inner k)) [p]"
  shows "pump_read V k = (Inr (), received [packet_new p] p es k)"
proof -
  let ?st = "cn_packet_stream (cl_inner k)"
  have i: "cl_stream k \<noteq> None" "plain_idle ?st" "recv_queue (cl_inner k) = []" "ps_recv_buffer ?st = []"
    using assms(1) by (simp_all add: client_idle_def Let_def)
  have "segs \<noteq> []" using assms(3) frames_length [of p "next_seq k"] by (auto simp: brings_def)
  with i assms have "client_sees (seq_after (next_seq k) p) [p] es k"
    unfolding client_sees_def Let_def
    by (intro conjI exI [of _ "[]"] exI [of _ "[p]"] exI [of _ segs]) (auto simp: brings_def)
  from pump_read_sees [OF this i(3)] obtain k' where
    k': "pump_read V k = (Inr (), k')" "client_sees (seq_after (next_seq k) p) [p] es k'" "recv_queue (cl_inner k') \<noteq> []" "receives k k'"
    by blast
  then have "recv_queue (cl_inner k') = [packet_new p] \<and> cl_in k' = es \<and> ps_recv_buffer (cn_packet_stream (cl_inner k')) = [] \<and>
      next_seq k' = seq_after (next_seq k) p"
    by (auto simp: client_sees_def Let_def Cons_eq_append_conv)
  with k'(1,4) i(4) show ?thesis by (auto simp: receives_def received_def)
qed

lemma received_idle: "client_idle k \<Longrightarrow> client_idle (received [] p es k)"
  by (simp add: client_idle_def Let_def received_def plain_idle_def)

lemma received_taken: "lift_inner conn_read_packet (received [x] p es k) = (Inr x, received [] p es k)"
  by (simp add: lift_inner_def received_def conn_read_packet_Cons)

text \<open>The client that has written the message \<open>d\<close>.\<close>

definition wrote :: "bytes \<Rightarrow> 'x client \<Rightarrow> 'x client" where
  "wrote d k = k\<lparr>cl_inner := (cl_inner k)\<lparr>cn_packet_stream := (cn_packet_stream (cl_inner k))\<lparr>
     ps_next_seq_id := seq_after (next_seq k) d\<rparr>\<rparr>, cl_out := cl_out k @ frames (next_seq k) d\<rparr>"

lemma pump_write_queued:
  "client_idle k \<Longrightarrow> pump_write (k\<lparr>cl_inner := queued d (cl_inner k)\<rparr>) = (Inr (), wrote d k)"
  using pump_write_out [of "k\<lparr>cl_inner := queued d (cl_inner k)\<rparr>"]
  by (simp add: client_idle_def Let_def queued_def wrote_def)

lemma wrote_idle: "client_idle k \<Longrightarrow> client_idle (wrote d k)"
  by (simp add: client_idle_def Let_def wrote_def plain_idle_def)

section \<open>The login\<close>

text \<open>The handshake response of the connection \<open>c\<close>, if it can make one.\<close>

definition login_payload :: "'x env \<Rightarrow> u32 \<Rightarrow> 'x connection \<Rightarrow> bytes option" where
  "login_payload V flags c =
     (case charset_by_name (env_lc V) (co_charset (cn_options c)) of
        None \<Rightarrow> None
      | Some cs \<Rightarrow>
          (case make_auth_response (env_crypto V) (cn_auth_plugin_name c) (co_password (cn_options c)) (cn_salt c) (cn_secure c) of
             Inl _ \<Rightarrow> None
           | Inr resp \<Rightarrow>
               (case encode_authresp c resp of
                  Inl _ \<Rightarrow> None
                | Inr authdata \<Rightarrow> Some (auth_payload V flags (cs_id cs) authdata c))))"

lemma write_auth_payload:
  "login_payload V flags c = Some d \<Longrightarrow> \<not> ps_compressed (cn_packet_stream c) \<Longrightarrow> write_auth_packet V flags c = (Inr (), queued d c)"
  by (auto simp: login_payload_def write_auth_packet_def st_simps lift_err_def lift_res_def conn_write_queued
      split: option.splits sum.splits)

text \<open>Whether the client asks for TLS, and whether the upgrade succeeds.\<close>

definition wants_tls :: "connect_options \<Rightarrow> u32 \<Rightarrow> bool" where
  "wants_tls options caps =
     (case co_ssl_mode options of Disabled \<Rightarrow> False | Preferred \<Rightarrow> caps AND SSL \<noteq> 0 | Required \<Rightarrow> True)"

definition tls_works :: "'x world \<Rightarrow> tls_lib \<Rightarrow> connect_options \<Rightarrow> bool" where
  "tls_works W L options =
     (case (build_tls_config W L options, server_name_from_host L (co_host options)) of
        (Inr config, Inr name) \<Rightarrow> tl_handshake L config name = None
      | _ \<Rightarrow> False)"

definition ssl_request :: "'x env \<Rightarrow> 'x connection \<Rightarrow> bytes" where
  "ssl_request V c = response_head (cn_client_flag c OR SSL)
     (case charset_by_name (env_lc V) (co_charset (cn_options c)) of Some cs \<Rightarrow> cs_id cs | None \<Rightarrow> 0)"

text \<open>The client right before the handshake response, and the flags it puts there.\<close>

definition secured :: "'x client \<Rightarrow> 'x client" where
  "secured k = k\<lparr>cl_stream := Some TlsStream, cl_inner := (cl_inner k)\<lparr>cn_needs_tls_upgrade := True, cn_secure := True\<rparr>\<rparr>"

definition before_login :: "'x env \<Rightarrow> bool \<Rightarrow> 'x client \<Rightarrow> 'x client" where
  "before_login V tls k = (if tls then secured (wrote (ssl_request V (cl_inner k)) k) else k)"

definition login_flags :: "bool \<Rightarrow> 'x connection \<Rightarrow> u32" where
  "login_flags tls c = (if tls then cn_client_flag c OR SSL else cn_client_flag c)"

lemma before_login_idle: "client_idle k \<Longrightarrow> client_idle (before_login V tls k)"
  using wrote_idle [of k] by (simp add: before_login_def secured_def client_idle_def Let_def)

lemma idle_plain: "client_idle k \<Longrightarrow> \<not> ps_compressed (cn_packet_stream (cl_inner k))"
  by (simp add: client_idle_def Let_def plain_idle_def)

lemma phase_same: "cn_auth_phase c = ph \<Longrightarrow> c\<lparr>cn_auth_phase := ph\<rparr> = c"
  by auto

lemma authenticate_plain:
  assumes "client_idle k" and "co_user (cn_options (cl_inner k)) \<noteq> []" and "\<not> cn_needs_tls_upgrade (cl_inner k)"
    and "cn_auth_phase (cl_inner k) = AP_Initial" and "\<not> wants_tls (cn_options (cl_inner k)) (cn_server_capabilities (cl_inner k))"
    and "login_payload (w_env W) (cn_client_flag (cl_inner k)) (cl_inner k) = Some d"
  shows "authenticate W L k = authenticate_loop (w_env W) NeedRead (wrote d k)"
proof -
  let ?c = "cl_inner k"
  obtain cs where cs: "charset_by_name (env_lc (w_env W)) (co_charset (cn_options ?c)) = Some cs"
    using assms(6) by (auto simp: login_payload_def split: option.splits)
  have q: "(queued d ?c)\<lparr>cn_auth_phase := AP_Initial\<rparr> = queued d ?c"
    by (rule phase_same) (simp add: queued_def assms(4))
  have "request_authentication_start (w_env W) ?c = (Inr NeedRead, (queued d ?c)\<lparr>cn_auth_phase := AP_Initial\<rparr>)"
    using assms(2,5) cs write_auth_payload [OF assms(6) idle_plain [OF assms(1)]]
    by (cases "co_ssl_mode (cn_options ?c)")
      (simp_all add: request_authentication_start_def wants_tls_def set_phase_def st_simps)
  then have start: "lift_inner (request_authentication_start (w_env W)) k = (Inr NeedRead, k\<lparr>cl_inner := queued d ?c\<rparr>)"
    by (simp only: lift_inner_def prod.case q)
  have "\<not> cn_needs_tls_upgrade (queued d ?c)" using assms(3) by (simp add: queued_def)
  then show ?thesis
    using pump_write_queued [OF assms(1), of d] start
    by (simp add: authenticate_def bind_st_def get_st_def ret_def)
qed

lemma authenticate_tls:
  assumes "client_idle k" and "co_user (cn_options (cl_inner k)) \<noteq> []" and "cl_stream k = Some PlainStream"
    and "cn_auth_phase (cl_inner k) = AP_Initial" and "wants_tls (cn_options (cl_inner k)) (cn_server_capabilities (cl_inner k))"
    and "cn_server_capabilities (cl_inner k) AND SSL \<noteq> 0" and "tls_works W L (cn_options (cl_inner k))"
    and "login_payload (w_env W) (cn_client_flag (cl_inner k) OR SSL) (cl_inner (before_login (w_env W) True k)) = Some d"
  shows "authenticate W L k = authenticate_loop (w_env W) NeedRead (wrote d (before_login (w_env W) True k))"
proof -
  let ?c = "cl_inner k" and ?V = "w_env W"
  let ?req = "ssl_request ?V ?c" and ?k1 = "k\<lparr>cl_inner := (cl_inner k)\<lparr>cn_needs_tls_upgrade := True\<rparr>\<rparr>"
  let ?k2 = "before_login ?V True k"
  have opt: "cn_options (cl_inner ?k2) = cn_options ?c" by (simp add: before_login_def secured_def wrote_def)
  then obtain cs where cs: "charset_by_name (env_lc ?V) (co_charset (cn_options ?c)) = Some cs"
    using assms(8) by (auto simp: login_payload_def split: option.splits)
  have "request_authentication_start ?V ?c = (Inr Send, (queued ?req ?c)\<lparr>cn_needs_tls_upgrade := True\<rparr>)"
    using assms(2,5,6) cs idle_plain [OF assms(1)]
    by (cases "co_ssl_mode (cn_options ?c)")
      (simp_all add: request_authentication_start_def wants_tls_def ssl_request_def conn_write_queued st_simps)
  then have start: "lift_inner (request_authentication_start ?V) k = (Inr Send, ?k1\<lparr>cl_inner := queued ?req (cl_inner ?k1)\<rparr>)"
    by (simp add: lift_inner_def queued_def)
  have w1: "pump_write (?k1\<lparr>cl_inner := queued ?req (cl_inner ?k1)\<rparr>) = (Inr (), wrote ?req ?k1)"
    using assms(1) by (intro pump_write_queued) (simp add: client_idle_def Let_def)
  have up: "upgrade_to_tls W L (wrote ?req ?k1) = (Inr (), ?k2)"
    using assms(3,7)
    by (auto simp: tls_works_def upgrade_to_tls_def wrote_def before_login_def secured_def set_secure_def st_simps split: sum.splits)
  have q: "(queued d (cl_inner ?k2))\<lparr>cn_auth_phase := AP_Initial\<rparr> = queued d (cl_inner ?k2)"
    by (rule phase_same) (simp add: queued_def before_login_def secured_def wrote_def assms(4))
  have i2: "client_idle ?k2" by (rule before_login_idle [OF assms(1)])
  have fl: "cn_client_flag (cl_inner ?k2) = cn_client_flag ?c" by (simp add: before_login_def secured_def wrote_def)
  have "request_authentication_send_credentials ?V (cl_inner ?k2) = (Inr NeedRead, (queued d (cl_inner ?k2))\<lparr>cn_auth_phase := AP_Initial\<rparr>)"
    using write_auth_payload [OF assms(8) idle_plain [OF i2]] fl
    by (simp add: request_authentication_send_credentials_def set_phase_def st_simps)
  then have cred: "lift_inner (request_authentication_send_credentials ?V) ?k2 = (Inr NeedRead, ?k2\<lparr>cl_inner := queued d (cl_inner ?k2)\<rparr>)"
    by (simp only: lift_inner_def prod.case q)
  have "cn_needs_tls_upgrade (queued ?req (cl_inner ?k1))" by (simp add: queued_def)
  then show ?thesis
    using start w1 up cred pump_write_queued [OF i2, of d]
    by (simp add: authenticate_def bind_st_def get_st_def ret_def)
qed

text \<open>
  The server's answers to the handshake response, each with the reads that bring it: an OK packet, or for
  \<open>caching_sha2_password\<close> the success of the fast path and then an OK packet.  The status known afterwards.
\<close>

definition ok_status :: "bytes \<Rightarrow> u16 option" where
  "ok_status p =
     (if is_ok_packet (packet_new p)
      then (case fst (ok_from_packet (packet_new p)) of Inr ok \<Rightarrow> Some (ok_server_status ok) | Inl _ \<Rightarrow> None)
      else None)"

fun accepts :: "auth_plugin \<Rightarrow> u8 \<Rightarrow> (bytes \<times> bytes list) list \<Rightarrow> bool" where
  "accepts plugin seq [(p, segs)] \<longleftrightarrow> ok_status p \<noteq> None \<and> brings seq p segs"
| "accepts plugin seq [(f, segs), (p, segs')] \<longleftrightarrow>
     plugin = CachingSha2Password \<and> f = [1, 3] \<and> brings seq f segs \<and>
     ok_status p \<noteq> None \<and> brings (seq_after seq f) p segs'"
| "accepts plugin seq _ \<longleftrightarrow> False"

fun status_after :: "u16 \<Rightarrow> (bytes \<times> bytes list) list \<Rightarrow> u16" where
  "status_after s [(f, segs), (p, segs')] = the (ok_status p)"
| "status_after s _ = s"

definition reads_of :: "(bytes \<times> bytes list) list \<Rightarrow> read_event list" where
  "reads_of xs = concat (map (\<lambda>(_, segs). map Recv segs) xs)"

text \<open>What each of these packets does.\<close>

lemma ok_status_kind:
  assumes "ok_status p = Some s"
  shows "\<not> is_auth_switch_request (packet_new p)" "\<not> is_extra_auth_data (packet_new p)" "\<not> is_error_packet (packet_new p)"
    "is_ok_packet (packet_new p)" "\<exists>ok. fst (ok_from_packet (packet_new p)) = Inr ok \<and> ok_server_status ok = s"
  using assms
  by (auto simp: ok_status_def is_ok_packet_def is_auth_switch_request_def is_extra_auth_data_def is_error_packet_def
      split: if_splits sum.splits)

lemma continue_taken:
  "lift_inner (request_authentication_continue V) (received [packet_new p] p es k) =
    lift_inner (\<lambda>c. (case cn_auth_phase c of
       AP_Initial \<Rightarrow> process_auth_initial V (packet_new p)
     | AP_CachingSha2FastSuccess \<Rightarrow>
         (if \<not> is_ok_packet (packet_new p) then err (plugin_error ''caching sha2: expected OK packet after fast auth'')
          else
            bind_st (run_reader ok_from_packet (packet_new p)) (\<lambda>ok.
            bind_st (modify_st (\<lambda>c. c\<lparr>cn_server_status := ok_server_status ok, cn_auth_phase := AP_Initial\<rparr>)) (\<lambda>_.
            ret Success)))
     | AP_CachingSha2PublicKey \<Rightarrow> process_caching_sha2_public_key V (packet_new p)
     | AP_Sha256Password \<Rightarrow> process_sha256_continue V (packet_new p)) c) (received [] p es k)"
proof -
  have "conn_read_packet (cl_inner (received [packet_new p] p es k)) = (Inr (packet_new p), cl_inner (received [] p es k))"
    by (simp add: received_def conn_read_packet_Cons)
  then show ?thesis
    by (simp add: request_authentication_continue_def lift_inner_def bind_st_def get_st_def) (simp add: received_def split: prod.split)
qed

lemma continue_ok:
  assumes "cn_auth_phase (cl_inner k) = AP_Initial" and "ok_status p = Some s"
  shows "lift_inner (request_authentication_continue V) (received [packet_new p] p es k) = (Inr Success, received [] p es k)"
proof -
  have "cn_auth_phase (cl_inner (received [] p es k)) = AP_Initial" using assms(1) by (simp add: received_def)
  then show ?thesis
    using ok_status_kind [OF assms(2)]
    unfolding continue_taken
    by (simp add: process_auth_initial_def check_error_def lift_inner_def st_simps)
qed

definition in_phase :: "auth_phase \<Rightarrow> 'x client \<Rightarrow> 'x client" where
  "in_phase ph k = k\<lparr>cl_inner := (cl_inner k)\<lparr>cn_auth_phase := ph\<rparr>\<rparr>"

definition in_status :: "u16 \<Rightarrow> 'x client \<Rightarrow> 'x client" where
  "in_status s k = k\<lparr>cl_inner := (cl_inner k)\<lparr>cn_server_status := s\<rparr>\<rparr>"

lemma initial_fast:
  "cn_auth_plugin_name c = CachingSha2Password \<Longrightarrow>
    process_auth_initial V (packet_new [1, 3]) c = (Inr NeedRead, c\<lparr>cn_auth_phase := AP_CachingSha2FastSuccess\<rparr>)"
  by (simp add: process_auth_initial_def process_caching_sha2_fast_def is_auth_switch_request_def
      is_extra_auth_data_def is_error_packet_def packet_new_def first_byte_def on_packet_def advance_def read_uint8_def read_def
      slice_of_def usize_max_def check_error_def set_phase_def st_simps)

lemma continue_fast:
  assumes "cn_auth_phase (cl_inner k) = AP_Initial" and "cn_auth_plugin_name (cl_inner k) = CachingSha2Password"
  shows "lift_inner (request_authentication_continue V) (received [packet_new [1, 3]] [1, 3] es k) =
    (Inr NeedRead, in_phase AP_CachingSha2FastSuccess (received [] [1, 3] es k))"
proof -
  have "cn_auth_phase (cl_inner (received [] [1, 3] es k)) = AP_Initial"
      "cn_auth_plugin_name (cl_inner (received [] [1, 3] es k)) = CachingSha2Password"
    using assms by (simp_all add: received_def)
  then show ?thesis
    unfolding continue_taken by (simp add: lift_inner_def initial_fast in_phase_def)
qed

lemma continue_fast_ok:
  assumes "cn_auth_phase (cl_inner k) = AP_CachingSha2FastSuccess" and "ok_status p = Some s"
  shows "lift_inner (request_authentication_continue V) (received [packet_new p] p es k) =
    (Inr Success, in_phase AP_Initial (in_status s (received [] p es k)))"
proof -
  have "cn_auth_phase (cl_inner (received [] p es k)) = AP_CachingSha2FastSuccess" using assms(1) by (simp add: received_def)
  moreover obtain ok where "fst (ok_from_packet (packet_new p)) = Inr ok" "ok_server_status ok = s"
    using ok_status_kind(5) [OF assms(2)] by blast
  ultimately show ?thesis
    using ok_status_kind(4) [OF assms(2)]
    unfolding continue_taken
    by (simp add: run_reader_def lift_inner_def in_phase_def in_status_def st_simps)
qed

lemma loop_needs_read:
  assumes "client_idle k" and "cl_in k = map Recv segs @ es" and "brings (next_seq k) p segs" and "deliverable (limit (cl_inner k)) [p]"
    and "lift_inner (request_authentication_continue V) (received [packet_new p] p es k) = (Inr st, k')"
  shows "authenticate_loop V NeedRead k = authenticate_loop V st k'"
  using pump_one [OF assms(1-4), of V] assms(5) by (subst authenticate_loop.simps) simp

lemma loop_success: "authenticate_loop V Success k = (Inr (), k)"
  by (subst authenticate_loop.simps) simp

lemma in_phase_idle: "client_idle (in_phase ph k) \<longleftrightarrow> client_idle k" "client_idle (in_status s k) \<longleftrightarrow> client_idle k"
  by (simp_all add: client_idle_def Let_def in_phase_def in_status_def)

text \<open>What a login leaves as it was.\<close>

definition login_keeps :: "'x client \<Rightarrow> 'x client \<Rightarrow> bool" where
  "login_keeps k k' \<longleftrightarrow> same_codec (cl_inner k) (cl_inner k') \<and> cn_server_capabilities (cl_inner k') = cn_server_capabilities (cl_inner k) \<and>
     cl_out k' = cl_out k \<and> cl_transaction_dirty k' = cl_transaction_dirty k \<and> cl_stream k' = cl_stream k"

lemma login_accepted:
  assumes "client_idle k" and "cl_in k = reads_of xs @ es" and "cn_auth_phase (cl_inner k) = AP_Initial"
    and "accepts (cn_auth_plugin_name (cl_inner k)) (next_seq k) xs" and "deliverable (limit (cl_inner k)) (map fst xs)"
  shows "\<exists>k'. authenticate_loop V NeedRead k = (Inr (), k') \<and> client_idle k' \<and> cl_in k' = es \<and> login_keeps k k' \<and>
    cn_server_status (cl_inner k') = status_after (cn_server_status (cl_inner k)) xs"
proof -
  consider (direct) p segs where "xs = [(p, segs)]" | (fast) segs p segs' where "xs = [([1, 3], segs), (p, segs')]"
    using assms(4) by (cases "(cn_auth_plugin_name (cl_inner k), next_seq k, xs)" rule: accepts.cases) auto
  then show ?thesis
  proof cases
    case (direct p segs)
    then obtain s where s: "ok_status p = Some s" using assms(4) by auto
    have h: "cl_in k = map Recv segs @ es" "brings (next_seq k) p segs" "deliverable (limit (cl_inner k)) [p]"
      using assms(2,4,5) direct by (auto simp: reads_of_def)
    have "authenticate_loop V NeedRead k = authenticate_loop V Success (received [] p es k)"
      by (rule loop_needs_read [OF assms(1) h continue_ok [OF assms(3) s]])
    then show ?thesis
      using received_idle [OF assms(1)] direct
      by (simp add: loop_success) (simp add: received_def login_keeps_def same_codec_def)
  next
    case (fast segs p segs')
    let ?es = "map Recv segs' @ es"
    let ?k1 = "in_phase AP_CachingSha2FastSuccess (received [] [1, 3] ?es k)"
    obtain s where s: "ok_status p = Some s" and plugin: "cn_auth_plugin_name (cl_inner k) = CachingSha2Password"
      using assms(4) fast by auto
    have h: "cl_in k = map Recv segs @ ?es" "brings (next_seq k) [1, 3] segs" "deliverable (limit (cl_inner k)) [[1, 3]]"
      using assms(2,4,5) fast by (auto simp: reads_of_def deliverable_def)
    have "authenticate_loop V NeedRead k = authenticate_loop V NeedRead ?k1"
      by (rule loop_needs_read [OF assms(1) h continue_fast [OF assms(3) plugin]])
    also have "\<dots> = authenticate_loop V Success (in_phase AP_Initial (in_status s (received [] p es ?k1)))"
    proof (rule loop_needs_read)
      show "client_idle ?k1" by (simp add: in_phase_idle received_idle assms(1))
      show "cl_in ?k1 = map Recv segs' @ es" by (simp add: in_phase_def received_def)
      show "brings (next_seq ?k1) p segs'" using assms(4) fast by (simp add: in_phase_def received_def)
      show "deliverable (limit (cl_inner ?k1)) [p]" using assms(5) fast by (simp add: in_phase_def received_def deliverable_def)
      show "lift_inner (request_authentication_continue V) (received [packet_new p] p es ?k1) =
          (Inr Success, in_phase AP_Initial (in_status s (received [] p es ?k1)))"
        by (rule continue_fast_ok [OF _ s]) (simp add: in_phase_def)
    qed
    finally show ?thesis
      using received_idle [OF assms(1)] fast s
      by (simp add: loop_success in_phase_idle received_idle) (simp add: received_def login_keeps_def same_codec_def in_phase_def in_status_def)
  qed
qed

section \<open>The statements after the login\<close>

definition set_names :: "connect_options \<Rightarrow> string" where
  "set_names options =
     (case co_collation options of
        Some co \<Rightarrow> ''SET NAMES '' @ co_charset options @ '' COLLATE '' @ co
      | None \<Rightarrow> ''SET NAMES '' @ co_charset options)"

definition collation_ok :: "connect_options \<Rightarrow> bool" where
  "collation_ok options = (case co_collation options of Some co \<Rightarrow> list_all collation_char co | None \<Rightarrow> True)"

lemma charset_sent:
  assumes "client_idle k" and "collation_ok (cn_options (cl_inner k))"
    and "charset_by_name (env_lc V) (co_charset (cn_options (cl_inner k))) = Some cs" and "cn_encoding (cl_inner k) = encoding cs"
  shows "lift_inner (set_character_set V (co_charset (cn_options (cl_inner k))) (co_collation (cn_options (cl_inner k)))) k =
    (Inr (), k\<lparr>cl_inner := issued COM_QUERY (as_bytes (set_names (cn_options (cl_inner k)))) (cl_inner k)\<rparr>)"
proof -
  let ?c = "cl_inner k"
  have e: "?c\<lparr>cn_encoding := encoding cs\<rparr> = ?c" using assms(4) by simp
  have i: "(issued cmd arg ?c)\<lparr>cn_options := (cn_options (issued cmd arg ?c))\<lparr>co_charset := co_charset (cn_options ?c),
      co_collation := co\<rparr>\<rparr> = issued cmd arg ?c" if "co_collation (cn_options ?c) = co" for cmd arg co
    using that by (auto simp: issued_def)
  show ?thesis
    using assms(2) execute_idle [OF assms(1), of V]
    by (cases "co_collation (cn_options ?c)")
      (simp_all add: set_character_set_def lift_inner_def assms(3) collation_ok_def set_names_def bind_st_def modify_st_def e i)
qed

lemma ok_packet_read:
  assumes "client_idle k" and "cl_in k = map Recv segs @ es" and "arrives cmd arg [p] segs" and "deliverable (limit (cl_inner k)) [p]"
    and "ok_status p = Some s"
  shows "\<exists>ok k'. client_read_ok_packet V (sent_command cmd arg k) = (Inr ok, k') \<and> client_idle k' \<and> cl_in k' = es \<and>
    cl_out k' = cl_out k @ frames 0 (cmd # arg) \<and> same_codec (cl_inner k) (cl_inner k') \<and>
    cn_server_status (cl_inner k') = cn_server_status (cl_inner k) \<and> cn_server_capabilities (cl_inner k') = cn_server_capabilities (cl_inner k) \<and>
    cl_transaction_dirty k' = cl_transaction_dirty k \<and> cl_stream k' = cl_stream k"
proof -
  let ?s = "sent_command cmd arg k"
  have "client_sees (foldl seq_after (seq_after 0 (cmd # arg)) [p]) [p] es ?s"
    by (rule sent_command_sees [OF assms(1-3) _ assms(4)]) simp
  from client_read_packet_sees [OF this] obtain k' fin where
    k': "client_read_packet V ?s = (Inr (packet_new p), k')" "client_sees fin [] es k'" "receives ?s k'" by blast
  obtain ok where ok: "fst (ok_from_packet (packet_new p)) = Inr ok" using ok_status_kind(5) [OF assms(5)] by blast
  have "client_read_ok_packet V ?s = (Inr ok, k')"
    using k'(1) ok ok_status_kind(4) [OF assms(5)] by (simp add: client_read_ok_packet_def run_reader_def st_simps)
  moreover have "client_idle k'"
    using assms(1) sees_nothing [OF k'(2)] receives_sel [OF k'(3)] by (auto simp: client_idle_def Let_def sent_command_def settled_def)
  moreover have "same_codec (cl_inner k) (cl_inner k')"
    by (rule same_codec_trans [OF sent_command_codec receives_codec [OF k'(3)]])
  ultimately show ?thesis
    using sees_nothing [OF k'(2)] receives_sel [OF k'(3)] by (intro exI [of _ ok] exI [of _ k']) (auto simp: sent_command_def)
qed

text \<open>The statements that the options ask for, with the escaping that the status selects.\<close>

definition opt_statement :: "string option \<Rightarrow> string list" where
  "opt_statement sql = (case sql of Some q \<Rightarrow> [q] | None \<Rightarrow> [])"

definition setup_statements :: "connect_options \<Rightarrow> u16 \<Rightarrow> string list" where
  "setup_statements options status =
     opt_statement (map_option (\<lambda>m. ''SET sql_mode='' @ quoted
       (if status AND SERVER_STATUS_NO_BACKSLASH_ESCAPES \<noteq> 0 then replace_char QUOTE [QUOTE, QUOTE] m else escape_string m))
       (co_sql_mode options)) @
     opt_statement (co_init_command options) @
     opt_statement (map_option (\<lambda>b. ''SET AUTOCOMMIT = '' @ dec (if b then 1 else 0)) (co_autocommit options))"

lemma run_opt_statement: "run_statements W (opt_statement sql @ sqls) = bind_st (opt_query W sql) (\<lambda>_. run_statements W sqls)"
  by (cases sql) (auto simp: opt_statement_def opt_query_def bind_st_def ret_def split: prod.splits sum.splits)

lemma run_last_statement: "run_statements W (opt_statement sql) = opt_query W sql"
  by (cases sql) (simp_all add: opt_statement_def opt_query_def)

lemma setup_run:
  "run_statements W (setup_statements options (cn_server_status c)) =
    bind_st (opt_query W (map_option (\<lambda>m. ''SET sql_mode='' @ quoted (conn_escape_string c m)) (co_sql_mode options))) (\<lambda>_.
    bind_st (opt_query W (co_init_command options)) (\<lambda>_.
    opt_query W (map_option (\<lambda>b. ''SET AUTOCOMMIT = '' @ dec (if b then 1 else 0)) (co_autocommit options))))"
  by (simp add: setup_statements_def run_opt_statement run_last_statement conn_escape_string_def)

definition exchange_reads :: "exchange list \<Rightarrow> read_event list" where
  "exchange_reads xs = concat (map (\<lambda>(_, _, segs). map Recv segs) xs)"

lemma post_setup_served:
  assumes "client_idle k" and "cn_options (cl_inner k) = options" and "collation_ok options"
    and "charset_by_name (env_lc (w_env W)) (co_charset options) = Some cs" and "cn_encoding (cl_inner k) = encoding cs"
    and "cl_in k = map Recv segs @ exchange_reads xs @ es" and "arrives COM_QUERY (as_bytes (set_names options)) [p] segs"
    and "ok_status p \<noteq> None" and "deliverable (limit (cl_inner k)) [p]"
    and "list_all (exchange_ok (w_env W) (cl_inner k)) xs" and "map fst xs = setup_statements options (cn_server_status (cl_inner k))"
  shows "\<exists>k'. post_connect_setup W options k = (Inr (), k') \<and> served W [] es k' \<and>
    cl_out k' = cl_out k @ frames 0 (COM_QUERY # as_bytes (set_names options)) @ sent_all xs \<and> cl_transaction_dirty k' = cl_transaction_dirty k \<and>
    cl_stream k' = cl_stream k"
proof -
  let ?names = "as_bytes (set_names options)"
  have cs: "lift_inner (set_character_set (w_env W) (co_charset options) (co_collation options)) k =
      (Inr (), k\<lparr>cl_inner := issued COM_QUERY ?names (cl_inner k)\<rparr>)"
    using charset_sent [of k "w_env W" cs] assms(1-5) by simp
  obtain s where s: "ok_status p = Some s" using assms(8) by blast
  obtain ok k1 where k1: "client_read_ok_packet (w_env W) (sent_command COM_QUERY ?names k) = (Inr ok, k1)" "client_idle k1"
      "cl_in k1 = exchange_reads xs @ es" "cl_out k1 = cl_out k @ frames 0 (COM_QUERY # ?names)"
      "same_codec (cl_inner k) (cl_inner k1)" "cn_server_status (cl_inner k1) = cn_server_status (cl_inner k)"
      "cl_transaction_dirty k1 = cl_transaction_dirty k" "cl_stream k1 = cl_stream k"
    using ok_packet_read [OF assms(1,6,7,9) s, of "w_env W"] by blast
  have "post_connect_setup W options k = run_statements W (setup_statements options (cn_server_status (cl_inner k1))) k1"
    using cs pump_write_issued [OF assms(1)] k1(1)
    by (simp only: post_connect_setup_def setup_run bind_st_def get_st_def prod.case sum.case)
  moreover have "served W xs es k1"
    using k1(2,3) assms(10) same_codec_reply_ok [OF k1(5)]
    by (simp add: served_def exchange_reads_def exchange_ok_def [abs_def])
  ultimately show ?thesis
    using served_run [of W xs es k1] assms(11) k1(4,6-8) by auto
qed

section \<open>The whole connect\<close>

text \<open>
  The server's turns: the greeting, the answers to the login, the answer to \<open>SET NAMES\<close>, and the exchanges
  that follow; each with the reads that bring it.
\<close>

record server_turns =
  tn_hello :: handshake
  tn_hello_in :: "bytes list"
  tn_login :: "(bytes \<times> bytes list) list"
  tn_names :: bytes
  tn_names_in :: "bytes list"
  tn_exchanges :: "exchange list"

definition turns_reads :: "server_turns \<Rightarrow> read_event list" where
  "turns_reads w = map Recv (tn_hello_in w) @ reads_of (tn_login w) @ map Recv (tn_names_in w) @ exchange_reads (tn_exchanges w)"

text \<open>The connection after the greeting, and the one that logs in.\<close>

definition login_conn_of :: "bool \<Rightarrow> handshake \<Rightarrow> 'x connection \<Rightarrow> 'x connection" where
  "login_conn_of tls h c = (let c = greeted h [] c in if tls then c\<lparr>cn_secure := True\<rparr> else c)"

text \<open>What the client sends to log in: the handshake response, after the SSL request if it wants TLS.\<close>

definition login_messages :: "'x env \<Rightarrow> bool \<Rightarrow> 'x connection \<Rightarrow> bytes \<Rightarrow> bytes list" where
  "login_messages V tls c d = (if tls then [ssl_request V c] else []) @ [d]"

text \<open>The server's turns fit the protocol: \<open>d\<close> is the client's handshake response.\<close>

definition takes_turns :: "'x env \<Rightarrow> connect_options \<Rightarrow> 'x connection \<Rightarrow> bytes \<Rightarrow> server_turns \<Rightarrow> bool" where
  "takes_turns V options c d w \<longleftrightarrow>
     (let h = tn_hello w; tls = wants_tls options (handshake_caps h)
      in handshake_ok h \<and> brings 0 (handshake_packet h) (tn_hello_in w) \<and>
         login_payload V (login_flags tls c) (login_conn_of tls h c) = Some d \<and>
         accepts (cn_auth_plugin_name (login_conn_of tls h c)) (foldl seq_after 1 (login_messages V tls c d)) (tn_login w) \<and>
         arrives COM_QUERY (as_bytes (set_names options)) [tn_names w] (tn_names_in w) \<and> ok_status (tn_names w) \<noteq> None \<and>
         deliverable (limit c) (handshake_packet h # map fst (tn_login w) @ [tn_names w]) \<and>
         list_all (exchange_ok V c) (tn_exchanges w) \<and>
         map fst (tn_exchanges w) = setup_statements options (status_after (h_status h) (tn_login w)))"

lemma core_connect_new:
  assumes "core_connect V options = Inr c"
  shows "\<exists>cs flag. charset_by_name (env_lc V) (co_charset options) = Some cs \<and>
    c = (connection_new options (encoding cs))\<lparr>cn_client_flag := flag\<rparr>"
proof -
  obtain cs where cs: "charset_by_name (env_lc V) (co_charset options) = Some cs"
    using assms by (auto simp: core_connect_def split: if_splits option.splits)
  then have "c = (connection_new options (encoding cs))\<lparr>cn_client_flag := cn_client_flag c\<rparr>"
    using assms by (auto simp: core_connect_def Let_def split: if_splits)
  with cs show ?thesis by blast
qed

lemma login_payload_cong:
  assumes "cn_options c' = cn_options c" "cn_auth_plugin_name c' = cn_auth_plugin_name c" "cn_salt c' = cn_salt c"
    "cn_secure c' = cn_secure c" "cn_server_capabilities c' = cn_server_capabilities c"
  shows "login_payload V flags c' = login_payload V flags c"
proof -
  have "encode_authresp c' = encode_authresp c" "auth_payload V f i d c' = auth_payload V f i d c" for f i d
    by (intro ext, simp only: encode_authresp_def assms) (simp only: auth_payload_def connect_attrs_def assms)
  then show ?thesis by (simp only: login_payload_def assms)
qed

text \<open>The client that has read the greeting.\<close>

definition welcomed :: "handshake \<Rightarrow> read_event list \<Rightarrow> 'x client \<Rightarrow> 'x client" where
  "welcomed h es k = (let k = received [] (handshake_packet h) es k in k\<lparr>cl_inner := greeted h [] (cl_inner k)\<rparr>)"

lemma greeting_read:
  assumes "client_idle k" and "cl_in k = map Recv segs @ es" and "handshake_ok h" and "brings (next_seq k) (handshake_packet h) segs"
    and "deliverable (limit (cl_inner k)) [handshake_packet h]"
  shows "bind_st (pump_read V) (\<lambda>_. bind_st (lift_inner get_server_information) f) k = f () (welcomed h es k)"
proof -
  let ?k = "received [packet_new (handshake_packet h)] (handshake_packet h) es k"
  have "get_server_information (cl_inner ?k) = (Inr (), greeted h [] (cl_inner ?k))"
    by (rule get_server_information_reads [OF assms(3)]) (simp add: received_def)
  moreover have "?k\<lparr>cl_inner := greeted h [] (cl_inner ?k)\<rparr> = welcomed h es k"
    by (simp add: welcomed_def Let_def received_def greeted_def)
  ultimately show ?thesis
    using pump_one [OF assms(1,2,4,5), of V] by (simp add: bind_st_def lift_inner_def)
qed

lemma greeted_sel [simp]:
  "cn_options (greeted h q c) = cn_options c" "cn_server_capabilities (greeted h q c) = handshake_caps h"
  "cn_auth_phase (greeted h q c) = cn_auth_phase c" "cn_needs_tls_upgrade (greeted h q c) = cn_needs_tls_upgrade c"
  "cn_secure (greeted h q c) = cn_secure c" "cn_salt (greeted h q c) = h_salt1 h @ h_salt2 h"
  "cn_client_flag (greeted h q c) = cn_client_flag c" "cn_server_status (greeted h q c) = h_status h"
  "cn_encoding (greeted h q c) = cn_encoding c" "cn_closed (greeted h q c) = cn_closed c" "cn_result (greeted h q c) = cn_result c"
  "cn_packet_stream (greeted h q c) = (cn_packet_stream c)\<lparr>ps_recv_queue := q\<rparr>"
  "cn_use_unicode (greeted h q c) = cn_use_unicode c" "cn_field_converters (greeted h q c) = cn_field_converters c"
  by (simp_all add: greeted_def)

lemma welcomed_idle: "client_idle k \<Longrightarrow> client_idle (welcomed h es k)"
  by (simp add: welcomed_def Let_def received_def client_idle_def plain_idle_def)

lemma welcomed_codec: "same_codec (cl_inner k) (cl_inner (welcomed h es k))"
  by (simp add: welcomed_def Let_def received_def same_codec_def)

lemma before_login_codec: "same_codec (cl_inner k) (cl_inner (wrote d (before_login V tls k)))"
  by (simp add: before_login_def secured_def wrote_def same_codec_def)

text \<open>A fresh connection.\<close>

definition fresh :: "'x connection \<Rightarrow> bool" where
  "fresh c \<longleftrightarrow> cn_auth_phase c = AP_Initial \<and> \<not> cn_needs_tls_upgrade c \<and> \<not> cn_secure c \<and> ps_next_seq_id (cn_packet_stream c) = 0"

lemma seq_after_hello: "deliverable m [p] \<Longrightarrow> seq_after s p = s + 1"
  by (simp add: deliverable_def seq_after_def frame_count_def)

lemma login_sent:
  assumes "client_idle k" and "fresh (cl_inner k)" and "co_user (cn_options (cl_inner k)) \<noteq> []"
    and "tls = wants_tls (cn_options (cl_inner k)) (handshake_caps h)"
    and "tls \<longrightarrow> cl_stream k = Some PlainStream \<and> handshake_caps h AND SSL \<noteq> 0 \<and> tls_works W L (cn_options (cl_inner k))"
    and "login_payload (w_env W) (login_flags tls (cl_inner k)) (login_conn_of tls h (cl_inner k)) = Some d"
  shows "authenticate W L (welcomed h es k) =
    authenticate_loop (w_env W) NeedRead (wrote d (before_login (w_env W) tls (welcomed h es k)))"
proof -
  let ?k = "welcomed h es k" and ?V = "w_env W"
  let ?k2 = "before_login ?V tls ?k"
  have i: "client_idle ?k" by (rule welcomed_idle [OF assms(1)])
  have sel: "cn_options (cl_inner ?k) = cn_options (cl_inner k)" "cn_server_capabilities (cl_inner ?k) = handshake_caps h"
      "cn_auth_phase (cl_inner ?k) = AP_Initial" "\<not> cn_needs_tls_upgrade (cl_inner ?k)" "cl_stream ?k = cl_stream k"
      "cn_client_flag (cl_inner ?k) = cn_client_flag (cl_inner k)"
    using assms(2) by (simp_all add: welcomed_def Let_def received_def fresh_def)
  have "login_payload ?V flags (cl_inner ?k2) = login_payload ?V flags (login_conn_of tls h (cl_inner k))" for flags
    using assms(2)
    by (intro login_payload_cong)
      (simp_all add: before_login_def secured_def wrote_def login_conn_of_def welcomed_def Let_def received_def fresh_def, simp add: greeted_def)
  then have pay: "login_payload ?V (login_flags tls (cl_inner ?k)) (cl_inner ?k2) = Some d"
    using assms(6) sel(6) by (simp only: login_flags_def)
  show ?thesis
  proof (cases tls)
    case True
    with authenticate_tls [OF i] assms(3-5) sel pay show ?thesis by (simp add: login_flags_def)
  next
    case False
    with authenticate_plain [OF i] assms(3,4) sel pay show ?thesis by (simp add: login_flags_def before_login_def)
  qed
qed

lemma login_out:
  assumes "fresh (cl_inner k)" and "deliverable m [handshake_packet h]"
  shows "cl_out (wrote d (before_login V tls (welcomed h es k))) = cl_out k @ stream_of 1 (login_messages V tls (cl_inner k) d)"
    "next_seq (wrote d (before_login V tls (welcomed h es k))) = foldl seq_after 1 (login_messages V tls (cl_inner k) d)"
proof -
  have n: "next_seq (welcomed h es k) = 1"
    using assms seq_after_hello [OF assms(2), of 0] by (simp add: welcomed_def Let_def received_def fresh_def)
  have r: "ssl_request V (cl_inner (welcomed h es k)) = ssl_request V (cl_inner k)" "cl_out (welcomed h es k) = cl_out k"
    by (simp_all add: ssl_request_def welcomed_def Let_def received_def)
  show "cl_out (wrote d (before_login V tls (welcomed h es k))) = cl_out k @ stream_of 1 (login_messages V tls (cl_inner k) d)"
    by (simp add: before_login_def secured_def wrote_def login_messages_def n r seq_after_def)
  show "next_seq (wrote d (before_login V tls (welcomed h es k))) = foldl seq_after 1 (login_messages V tls (cl_inner k) d)"
    by (simp add: before_login_def secured_def wrote_def login_messages_def n r)
qed

lemma connect_over_served:
  assumes "client_idle k" and "fresh (cl_inner k)" and "cn_options (cl_inner k) = options" and "co_user options \<noteq> []"
    and "collation_ok options" and "charset_by_name (env_lc (w_env W)) (co_charset options) = Some cs" "cn_encoding (cl_inner k) = encoding cs"
    and "cl_in k = turns_reads t @ es" and "takes_turns (w_env W) options (cl_inner k) d t"
    and "tls = wants_tls options (handshake_caps (tn_hello t))"
    and "tls \<longrightarrow> cl_stream k = Some PlainStream \<and> handshake_caps (tn_hello t) AND SSL \<noteq> 0 \<and> tls_works W L options"
    and "\<not> (co_compress options \<and> handshake_caps (tn_hello t) AND COMPRESS \<noteq> 0)"
  shows "\<exists>k'. connect_over W L options k = (Inr (), k') \<and> served W [] es k' \<and>
    cl_out k' = cl_out k @ stream_of 1 (login_messages (w_env W) tls (cl_inner k) d) @
      frames 0 (COM_QUERY # as_bytes (set_names options)) @ sent_all (tn_exchanges t) \<and>
    cl_stream k' = (if tls then Some TlsStream else cl_stream k) \<and> cl_transaction_dirty k' = cl_transaction_dirty k"
proof -
  let ?V = "w_env W" and ?h = "tn_hello t" and ?c = "cl_inner k"
  define es1 where "es1 = map Recv (tn_names_in t) @ exchange_reads (tn_exchanges t) @ es"
  define k1 where "k1 = welcomed ?h (reads_of (tn_login t) @ es1) k"
  define k2 where "k2 = wrote d (before_login ?V tls k1)"
  have t: "handshake_ok ?h" "brings 0 (handshake_packet ?h) (tn_hello_in t)"
      "login_payload ?V (login_flags tls ?c) (login_conn_of tls ?h ?c) = Some d"
      "accepts (cn_auth_plugin_name (login_conn_of tls ?h ?c)) (foldl seq_after 1 (login_messages ?V tls ?c d)) (tn_login t)"
      "arrives COM_QUERY (as_bytes (set_names options)) [tn_names t] (tn_names_in t)" "ok_status (tn_names t) \<noteq> None"
      "deliverable (limit ?c) [handshake_packet ?h]" "deliverable (limit ?c) (map fst (tn_login t))" "deliverable (limit ?c) [tn_names t]"
      "list_all (exchange_ok ?V ?c) (tn_exchanges t)"
      "map fst (tn_exchanges t) = setup_statements options (status_after (h_status ?h) (tn_login t))"
    using assms(9,10) by (auto simp: takes_turns_def Let_def deliverable_def)
  have hello: "bind_st (pump_read ?V) (\<lambda>_. bind_st (lift_inner get_server_information) f) k = f () k1" for f :: "unit \<Rightarrow> ('a client, unit) rs"
    unfolding k1_def using t(2) assms(2,8)
    by (intro greeting_read [OF assms(1) _ t(1) _ t(7)]) (simp_all add: es1_def turns_reads_def fresh_def)
  have auth: "authenticate W L k1 = authenticate_loop ?V NeedRead k2"
    unfolding k1_def k2_def using assms(3,4,10,11) t(3) by (intro login_sent [OF assms(1,2)]) simp_all
  have cod: "same_codec ?c (cl_inner k2)"
    unfolding k1_def k2_def by (rule same_codec_trans [OF welcomed_codec before_login_codec])
  have sel: "cn_auth_phase (cl_inner k2) = AP_Initial" "cn_auth_plugin_name (cl_inner k2) = cn_auth_plugin_name (login_conn_of tls ?h ?c)"
      "cl_in k2 = reads_of (tn_login t) @ es1" "cn_server_status (cl_inner k2) = h_status ?h" "cl_transaction_dirty k2 = cl_transaction_dirty k"
      "cn_server_capabilities (cl_inner k2) = handshake_caps ?h" "cl_stream k2 = (if tls then Some TlsStream else cl_stream k)"
    using assms(2)
    by (simp_all add: k2_def k1_def welcomed_def Let_def received_def before_login_def secured_def wrote_def login_conn_of_def fresh_def)
      (simp_all add: greeted_def)
  have lim: "limit (cl_inner k2) = limit ?c" using cod by (simp add: same_codec_def)
  have i2: "client_idle k2" unfolding k1_def k2_def by (intro wrote_idle before_login_idle welcomed_idle assms(1))
  have acc: "accepts (cn_auth_plugin_name (cl_inner k2)) (next_seq k2) (tn_login t)"
    using t(4) login_out(2) [OF assms(2) t(7)] sel(2) by (simp add: k2_def k1_def)
  from login_accepted [OF i2 sel(3,1) acc] t(8) obtain k3 where k3: "authenticate_loop ?V NeedRead k2 = (Inr (), k3)" "client_idle k3"
      "cl_in k3 = es1" "login_keeps k2 k3" "cn_server_status (cl_inner k3) = status_after (h_status ?h) (tn_login t)"
    unfolding lim sel(4) by blast
  have cod3: "same_codec ?c (cl_inner k3)" using cod k3(4) same_codec_trans by (auto simp: login_keeps_def)
  have "connect_over W L options k = post_connect_setup W options k3"
    unfolding connect_over_def hello using assms(12) k3(1,4) sel(6) auth by (auto simp: bind_st_def modify_st_def login_keeps_def)
  moreover obtain k' where k': "post_connect_setup W options k3 = (Inr (), k')" "served W [] es k'"
      "cl_out k' = cl_out k3 @ frames 0 (COM_QUERY # as_bytes (set_names options)) @ sent_all (tn_exchanges t)"
      "cl_transaction_dirty k' = cl_transaction_dirty k3" "cl_stream k' = cl_stream k3"
    using post_setup_served [OF k3(2) _ assms(5,6) _ _ t(5,6), of "tn_exchanges t" es] cod3 assms(3,7) t(9-11) k3(3,5)
      same_codec_reply_ok [OF cod3] by (auto simp: same_codec_def es1_def exchange_ok_def [abs_def])
  moreover have "cl_out k3 = cl_out k @ stream_of 1 (login_messages ?V tls ?c d)" "cl_transaction_dirty k3 = cl_transaction_dirty k"
      "cl_stream k3 = (if tls then Some TlsStream else cl_stream k)"
    using k3(4) sel(5,7) login_out(1) [OF assms(2) t(7), of d ?V tls "reads_of (tn_login t) @ es1"]
    by (simp_all only: login_keeps_def k2_def k1_def)
  ultimately show ?thesis by (intro exI [of _ k']) (simp only: append_assoc simp_thms)
qed

text \<open>C5: A connect against a server that answers turn by turn completes.  Let the stream open without compression being agreed
  on, let no write fail, and let the server take its turns: a well-formed greeting; for the login an OK packet, or the success of the
  fast path of \<open>caching_sha2_password\<close> and then an OK packet; an OK packet for \<open>SET NAMES\<close>; a reply to each statement of the options.
  Let every packet of the greeting, of the login and of \<open>SET NAMES\<close> arrive in reads of its own, cut within it anywhere, and so
  every reply.  Then \<open>connect\<close>, with the options of the program or those of an option file applied,
  returns a client that is idle with the input read exactly to the end of the last reply.
  It has sent exactly: the SSL request first if the options and the server want TLS, then the handshake
  response, \<open>SET NAMES\<close> with the character set and the collation, and the statements for the SQL mode, the init
  command and autocommit, in this order; and with TLS its stream is the TLS stream.  Not covered are the
  other login methods, and a server that sends the success of the fast path and the OK packet in one segment: then
  the client waits for ever, as the last section shows.\<close>

theorem connect_completes:
  assumes "apply_option_file W given = Inr options" and "co_user options \<noteq> []" and "collation_ok options"
    and "core_connect (w_env W) options = Inr c" and "open_stream W N L options = Inr (stream, turns_reads t @ es, [])"
    and "takes_turns (w_env W) options c d t" and "tls = wants_tls options (handshake_caps (tn_hello t))"
    and "tls \<longrightarrow> stream = PlainStream \<and> handshake_caps (tn_hello t) AND SSL \<noteq> 0 \<and> tls_works W L options"
    and "\<not> (co_compress options \<and> handshake_caps (tn_hello t) AND COMPRESS \<noteq> 0)"
  shows "\<exists>k. client_connect W N L given = Inr k \<and> client_idle k \<and> cl_in k = es \<and>
    cl_out k = stream_of 1 (login_messages (w_env W) tls c d) @
      frames 0 (COM_QUERY # as_bytes (set_names options)) @ sent_all (tn_exchanges t) \<and>
    cl_stream k = Some (if tls then TlsStream else stream) \<and> \<not> cl_transaction_dirty k"
proof -
  let ?k = "\<lparr>cl_inner = c, cl_stream = Some stream, cl_transaction_dirty = False, cl_in = turns_reads t @ es, cl_out = [], cl_wfail = []\<rparr>"
  obtain cs flag where cs: "charset_by_name (env_lc (w_env W)) (co_charset options) = Some cs"
      and c: "c = (connection_new options (encoding cs))\<lparr>cn_client_flag := flag\<rparr>"
    using core_connect_new [OF assms(4)] by blast
  have k: "client_idle ?k" "fresh (cl_inner ?k)" "cn_options (cl_inner ?k) = options" "cn_encoding (cl_inner ?k) = encoding cs"
    by (simp_all add: c client_idle_def Let_def connection_new_def ps_new_def plain_idle_def settled_def fresh_def)
  have "\<exists>k'. connect_over W L options ?k = (Inr (), k') \<and> served W [] es k' \<and>
      cl_out k' = cl_out ?k @ stream_of 1 (login_messages (w_env W) tls (cl_inner ?k) d) @
        frames 0 (COM_QUERY # as_bytes (set_names options)) @ sent_all (tn_exchanges t) \<and>
      cl_stream k' = (if tls then Some TlsStream else cl_stream ?k) \<and> cl_transaction_dirty k' = cl_transaction_dirty ?k"
    using assms(6-9) by (intro connect_over_served [OF k(1-3) assms(2,3) cs k(4)]) simp_all
  then show ?thesis
    using assms(1,4,5) by (auto simp: client_connect_def served_def)
qed

text \<open>A server that knows the password's hash, and a network that leads to it.\<close>

definition sample_options :: connect_options where
  "sample_options = default_options\<lparr>co_user := ''u'', co_password := [1, 2]\<rparr>"

definition sample_ok :: bytes where
  "sample_ok = [0, 0, 0, 2, 0, 0, 0]"

definition sample_turns :: "bytes \<Rightarrow> server_turns" where
  "sample_turns d =
     (let q = seq_after 1 d; names = as_bytes ''SET NAMES utf8mb4''; auto = ''SET AUTOCOMMIT = 0''
      in \<lparr>tn_hello = sample_handshake, tn_hello_in = [frames 0 (handshake_packet sample_handshake)],
          tn_login = [([1, 3], [frames q [1, 3]]), (sample_ok, [frames (seq_after q [1, 3]) sample_ok])],
          tn_names = sample_ok, tn_names_in = [frames (seq_after 0 (COM_QUERY # names)) sample_ok],
          tn_exchanges = [ok_exchange auto [frames (seq_after 0 (COM_QUERY # as_bytes auto)) sample_ok]]\<rparr>)"

definition sample_net :: "read_event list \<Rightarrow> net" where
  "sample_net ev = \<lparr>nt_unix = (\<lambda>_ _. OpenError ''refused''), nt_tcp = (\<lambda>_ _. Opened None ev [])\<rparr>"

lemma sample_ok_status: "ok_status sample_ok = Some 2"
proof -
  have ok: "ok_packet 0 0 2 0 [] = sample_ok" "length sample_ok \<le> usize_max"
    by (simp_all add: sample_ok_def ok_packet_def lenenc_int_def to_le_bytes_def byte_eval usize_max_def)
  then show ?thesis
    using ok_packet_decodes [of 0 0 2 0 "[]"] is_ok_packet_ok [of 0 0 2 0 "[]"] by (simp add: ok_status_def)
qed

lemma frames_not_Nil [simp]: "[] \<noteq> frames q p"
  using frames_length [of p q] by auto

theorem connect_completes_witness:
  "\<exists>c d k. core_connect sample_env sample_options = Inr (c :: int connection) \<and>
     login_payload sample_env CAPABILITIES (greeted sample_handshake [] c) = Some d \<and>
     client_connect sample_world (sample_net (turns_reads (sample_turns d))) sample_tls sample_options = Inr k \<and> client_idle k \<and>
     cl_out k = frames 1 d @ frames 0 (COM_QUERY # as_bytes ''SET NAMES utf8mb4'') @ frames 0 (COM_QUERY # as_bytes ''SET AUTOCOMMIT = 0'')"
proof -
  let ?o = "sample_options" and ?h = sample_handshake and ?W = sample_world
  let ?c = "(connection_new ?o (encoding (mk_charset 45 ''utf8mb4'' ''utf8mb4_general_ci'' True))) :: int connection"
  note o_defs = sample_options_def default_options_def DEFAULT_CHARSET_def
  have env: "w_env ?W = sample_env" "env_lc sample_env = map ascii_lower" "env_crypto sample_env = plain_crypto"
    by (simp_all add: sample_world_def sample_env_def)
  have c: "core_connect sample_env ?o = Inr ?c"
    by (simp add: core_connect_def env utf8mb4_found o_defs Let_def)
  have caps: "handshake_caps ?h = 0x80000" by (simp add: handshake_caps_def sample_handshake_def)
  have plugin: "cn_auth_plugin_name (greeted ?h [] ?c) = CachingSha2Password"
    by (simp add: greeted_def caps) (simp add: sample_handshake_def plugin_from_bytes_def)
  obtain d where pay: "login_payload sample_env CAPABILITIES (greeted ?h [] ?c) = Some d"
    using plugin by (simp add: login_payload_def env connection_new_def o_defs utf8mb4_found encode_authresp_def caps mk_charset_def)
  have opts: "\<not> wants_tls ?o (handshake_caps ?h)" "co_user ?o \<noteq> []" "collation_ok ?o" "set_names ?o = ''SET NAMES utf8mb4''"
      "apply_option_file ?W ?o = Inr ?o" "\<not> co_compress ?o" "setup_statements ?o s = [''SET AUTOCOMMIT = 0'']" for s
    by (simp_all add: apply_option_file_def wants_tls_def caps collation_ok_def set_names_def setup_statements_def opt_statement_def dec.simps digit_char_def char_of_def bit_iff_odd o_defs)
  let ?t = "sample_turns d"
  have t: "tn_hello ?t = ?h" "tn_hello_in ?t = [frames 0 (handshake_packet ?h)]"
      "tn_login ?t = [([1, 3], [frames (seq_after 1 d) [1, 3]]), (sample_ok, [frames (seq_after (seq_after 1 d) [1, 3]) sample_ok])]"
      "tn_names ?t = sample_ok" "tn_names_in ?t = [frames (seq_after 0 (COM_QUERY # as_bytes ''SET NAMES utf8mb4'')) sample_ok]"
      "tn_exchanges ?t = [ok_exchange ''SET AUTOCOMMIT = 0'' [frames (seq_after 0 (COM_QUERY # as_bytes ''SET AUTOCOMMIT = 0'')) sample_ok]]"
    by (simp_all only: sample_turns_def Let_def server_turns.select_convs)
  have lim: "limit ?c = limit sample_conn"
    by (simp add: connection_new_def sample_conn_def ps_new_def o_defs)
  have x: "list_all (exchange_ok sample_env ?c) (tn_exchanges ?t)"
    using sample_ok_exchange [of "''SET AUTOCOMMIT = 0''"] lim
    by (simp add: t sample_ok_def exchange_ok_def ok_exchange_def reply_ok_def)
  have deliv: "deliverable (limit ?c) [handshake_packet ?h, [1, 3], sample_ok, sample_ok]"
    unfolding lim sample_deliverable
    by (simp add: handshake_packet_def sample_handshake_def sample_ok_def byte_simps)
  have "handshake_ok ?h" by (simp add: handshake_ok_def sample_handshake_def as_bytes_def)
  then have turns: "takes_turns sample_env ?o ?c d ?t"
    using opts(1,4,7) pay plugin deliv x
    by (simp add: takes_turns_def Let_def t brings_def login_flags_def login_conn_of_def login_messages_def arrives_def sample_ok_status
        connection_new_def ok_exchange_def)
  have "open_stream ?W (sample_net (turns_reads ?t)) sample_tls ?o = Inr (PlainStream, turns_reads ?t @ [], [])"
    by (simp add: open_stream_def sample_net_def o_defs)
  from connect_completes [OF opts(5,2,3) _ this, of ?c d False] c turns opts(1,6) t(1)
  obtain k where "client_connect ?W (sample_net (turns_reads ?t)) sample_tls ?o = Inr k" "client_idle k"
      "cl_out k = stream_of 1 (login_messages sample_env False ?c d) @ frames 0 (COM_QUERY # as_bytes (set_names ?o)) @ sent_all (tn_exchanges ?t)"
    by (auto simp: env(1))
  then show ?thesis
    using c pay by (intro exI [of _ ?c] exI [of _ d] exI [of _ k]) (simp add: login_messages_def opts(4) t(6) sent_all_def ok_exchange_def)
qed

section \<open>Answers that arrive together\<close>

text \<open>The packets of one read are queued together.\<close>

lemma pump_all:
  assumes "client_idle k" and "cl_in k = Recv (stream_of (next_seq k) ps) # es" and "deliverable (limit (cl_inner k)) ps" and "ps \<noteq> []"
    and "length (stream_of (next_seq k) ps) \<le> READ_BUF"
  shows "\<exists>s. pump_read V k = (Inr (), k\<lparr>cl_inner := with_recv (map packet_new ps) ((cl_inner k)\<lparr>cn_packet_stream :=
    (cn_packet_stream (cl_inner k))\<lparr>ps_next_seq_id := s\<rparr>\<rparr>), cl_in := es\<rparr>)"
proof -
  let ?st = "cn_packet_stream (cl_inner k)" and ?d = "stream_of (next_seq k) ps"
  have i: "cl_stream k \<noteq> None" "plain_idle ?st" "ps_recv_queue ?st = []" "ps_recv_buffer ?st = []"
    using assms(1) by (simp_all add: client_idle_def Let_def)
  have rd: "client_read k = (Inr (Inr ?d), k\<lparr>cl_in := es\<rparr>)"
    using client_read_chunk [OF i(1), of ?d "[]" es] assms(2,5) by simp
  have ne: "?d \<noteq> []" using assms(4) frames_not_Nil by (cases ps) (auto dest: sym)
  obtain r where f: "ps_feed_bytes (env_zlib V) ?d ?st = (Inr (length ps), (fold push_packet ps ?st)\<lparr>ps_recv_buffer := r\<rparr>)" "r = []"
    using feed_chunk [of ?st ?d "[]" ps "env_zlib V"] i(2,4) assms(3) by auto
  have "(fold push_packet ps ?st)\<lparr>ps_recv_buffer := []\<rparr> = ?st\<lparr>ps_next_seq_id := foldl seq_after (next_seq k) ps,
      ps_recv_queue := map packet_new ps\<rparr>"
    using i(3,4) by (subst fold_push_packet_eq) simp
  with f have fed: "lift_inner (conn_feed_bytes V ?d) (k\<lparr>cl_in := es\<rparr>) = (Inr (length ps), k\<lparr>cl_inner := with_recv (map packet_new ps)
      ((cl_inner k)\<lparr>cn_packet_stream := ?st\<lparr>ps_next_seq_id := foldl seq_after (next_seq k) ps\<rparr>\<rparr>), cl_in := es\<rparr>)"
    by (simp add: lift_inner_def conn_feed_bytes_def lift_ps_def with_recv_def)
  show ?thesis
    using rd ne fed assms(4) by (subst pump_read.simps) auto
qed

text \<open>
  The login can wait for what it already has.  When the success of the fast path and the OK packet arrive
  in one read, \<open>authenticate\<close> takes the first packet from the queue, is told to read, and reads from the stream
  while the OK packet stays in the queue: with nothing more to come from the server it waits for ever.
\<close>

lemma login_waits_though_answered:
  assumes "client_idle k" and "cn_auth_phase (cl_inner k) = AP_Initial" and "cn_auth_plugin_name (cl_inner k) = CachingSha2Password"
    and "cl_in k = [Recv (stream_of (next_seq k) [[1, 3], p])]" and "deliverable (limit (cl_inner k)) [[1, 3], p]"
    and "length (stream_of (next_seq k) [[1, 3], p]) \<le> READ_BUF"
  shows "\<exists>k'. authenticate_loop V NeedRead k = (Inl Blocked, k') \<and> recv_queue (cl_inner k') = [packet_new p]"
proof -
  obtain s where p: "pump_read V k = (Inr (), k\<lparr>cl_inner := with_recv [packet_new [1, 3], packet_new p] ((cl_inner k)\<lparr>cn_packet_stream :=
      (cn_packet_stream (cl_inner k))\<lparr>ps_next_seq_id := s\<rparr>\<rparr>), cl_in := []\<rparr>)" (is "_ = (_, ?k1)")
    using pump_all [OF assms(1,4,5) _ assms(6)] by auto
  let ?k2 = "?k1\<lparr>cl_inner := (with_recv [packet_new p] (cl_inner ?k1))\<lparr>cn_auth_phase := AP_CachingSha2FastSuccess\<rparr>\<rparr>"
  have "request_authentication_continue V (cl_inner ?k1) = (Inr NeedRead, cl_inner ?k2)"
    using assms(2,3) read_packet_Cons [of "cl_inner ?k1" "packet_new [1, 3]" "[packet_new p]"]
    by (simp add: request_authentication_continue_def bind_st_def get_st_def initial_fast)
  then have c: "lift_inner (request_authentication_continue V) ?k1 = (Inr NeedRead, ?k2)"
    by (simp add: lift_inner_def)
  have "cl_stream k \<noteq> None" using assms(1) by (simp add: client_idle_def Let_def)
  then have b: "pump_read V ?k2 = (Inl Blocked, ?k2)"
    by (subst pump_read.simps) (auto simp: client_read_def err_panic_apply)
  have "authenticate_loop V NeedRead k = authenticate_loop V NeedRead ?k2"
    using p c by (subst authenticate_loop.simps) simp
  also have "\<dots> = (Inl Blocked, ?k2)"
    using b by (subst authenticate_loop.simps) simp
  finally show ?thesis by simp
qed

end
