(* ===== verification/Client_Waits.thy ===== *)
theory Client_Waits
  imports Transaction Client_Setup
begin

text \<open>
  When the operations of the client wait.  All of them are total functions of the model; what can keep a
  caller waiting is a read from the stream.  The rules follow the combinators: \<open>prompt\<close> computations never
  wait, and those that satisfy \<open>waits_for_input\<close> wait only when everything the server has sent is used up.
\<close>

section \<open>Computations that never wait\<close>

definition prompt :: "('s, 'a) rs \<Rightarrow> bool" where
  "prompt m \<longleftrightarrow> (\<forall>s. fst (m s) \<noteq> Inl Blocked)"

named_theorems prompt_intros \<open>computations that never wait\<close>

lemma promptD: "prompt m \<Longrightarrow> m s = (x, s') \<Longrightarrow> x \<noteq> Inl Blocked"
  by (metis prompt_def fst_conv)

lemma prompt_basic [prompt_intros]:
  "prompt (ret x)" "prompt (err e)" "prompt panic" "prompt (modify_st f)" "prompt get_st" "prompt (lift_err r)"
  by (simp_all add: prompt_def st_simps) (cases r; simp add: st_simps)

lemma prompt_bind [prompt_intros]: "prompt m \<Longrightarrow> (\<And>x. prompt (f x)) \<Longrightarrow> prompt (bind_st m f)"
  by (auto simp: prompt_def bind_st_def split: prod.splits sum.splits) (metis fst_conv)+

lemma prompt_if [prompt_intros]: "prompt m \<Longrightarrow> prompt m' \<Longrightarrow> prompt (if b then m else m')"
  by simp

lemma prompt_option_case [prompt_intros]:
  "prompt m \<Longrightarrow> (\<And>x. prompt (f x)) \<Longrightarrow> prompt (case v of None \<Rightarrow> m | Some x \<Rightarrow> f x)"
  by (simp split: option.splits)

lemma prompt_guarded: "prompt a \<Longrightarrow> prompt b \<Longrightarrow> prompt (\<lambda>p. if c p then a p else b p)"
  by (simp add: prompt_def)

lemma prompt_run_reader [prompt_intros]: "prompt m \<Longrightarrow> prompt (run_reader m p)"
  by (simp add: prompt_def run_reader_def lift_res_def)

subsection \<open>Readers of packets\<close>

lemma prompt_cursor [prompt_intros]: "prompt (read n)" "prompt read_all" "prompt (advance n)"
  by (simp_all add: prompt_def read_def read_all_def advance_def Let_def err_panic_apply)

lemma prompt_numbers [prompt_intros]:
  "prompt read_uint8" "prompt read_uint16" "prompt read_uint24" "prompt read_uint32" "prompt read_uint64"
  unfolding read_uint8_def read_uint16_def read_uint24_def read_uint32_def read_uint64_def by (intro prompt_intros)+

lemma prompt_lenenc [prompt_intros]: "prompt read_length_encoded_integer" "prompt read_length_coded_string"
  unfolding read_length_encoded_integer_def read_length_coded_string_def by (intro prompt_intros)+

lemma prompt_wrappers [prompt_intros]: "prompt ok_from_packet" "prompt eof_from_packet" "prompt (parse_fields C enc)"
  unfolding ok_from_packet_def eof_from_packet_def parse_fields_def by (intro prompt_guarded prompt_intros)+

lemma prompt_columns [prompt_intros]: "prompt (read_columns V fcs)"
  by (induction fcs) (simp_all add: prompt_intros)

subsection \<open>The result reader\<close>

lemma prompt_lift [prompt_intros]:
  "prompt (lift_res (field_parse C d enc))" "prompt (lift_res (load_local_from_packet p))"
  using prompt_wrappers(3) [of C enc]
  by (simp_all add: prompt_def lift_res_def field_parse_def load_local_from_packet_def)

lemma prompt_rows [prompt_intros]: "prompt (check_packet_is_eof p)" "prompt (read_row_from_packet V p)"
  unfolding check_packet_is_eof_def read_row_from_packet_def by (intro prompt_intros)+

lemma prompt_feed_packet [prompt_intros]: "prompt (feed_packet V p c)"
proof -
  have "prompt (feed_initial p c)" "prompt (feed_description V p c)" "prompt (feed_row V p)"
    unfolding feed_initial_def read_load_local_packet_def feed_description_def feed_row_def by (intro prompt_intros)+
  then have "prompt (case st of RS_Initial \<Rightarrow> feed_initial p c | RS_Descriptions \<Rightarrow> feed_description V p c
      | RS_Rows \<Rightarrow> feed_row V p | RS_UnbufferedReady \<Rightarrow> feed_row V p | RS_Done \<Rightarrow> ret FR_Done)" for st
    by (cases st) (simp_all add: prompt_intros)
  then show ?thesis unfolding feed_packet_def by (intro prompt_intros)
qed

lemma prompt_rowdata [prompt_intros]: "prompt (read_rowdata_packet_unbuffered V p)"
  unfolding read_rowdata_packet_unbuffered_def by (intro prompt_intros)

subsection \<open>The packet stream\<close>

lemma prompt_join_chunks: "fst (join_chunks buff s) \<noteq> Inl Blocked"
proof (induction buff s rule: join_chunks.induct)
  case (1 buff st buffer)
  then show ?case by (subst join_chunks.simps) (auto simp: Let_def err_panic_apply)
qed

lemma prompt_parse_plain: "fst (parse_plain_loop n s) \<noteq> Inl Blocked"
proof (induction n s rule: parse_plain_loop.induct)
  case (1 n st buffer)
  obtain x st' buffer' where j: "join_chunks [] (st, buffer) = (x, (st', buffer'))" using prod_cases3 by blast
  then have "x \<noteq> Inl Blocked" using prompt_join_chunks [of "[]" "(st, buffer)"] by simp
  with 1 j show ?case
    by (subst parse_plain_loop.simps) (auto simp: Let_def err_panic_apply split: sum.splits)
qed

lemma prompt_inflate [prompt_intros]: "prompt (feed_compressed_packets Z)"
proof -
  have "fst (feed_compressed_packets Z st) \<noteq> Inl Blocked" for st
  proof (induction Z st rule: feed_compressed_packets.induct)
    case (1 Z st)
    then show ?case
      by (subst feed_compressed_packets.simps) (auto simp: Let_def err_panic_apply split: sum.splits)
  qed
  then show ?thesis by (simp add: prompt_def)
qed

lemma prompt_parse [prompt_intros]: "prompt parse_decompressed" "prompt parse_received"
  using prompt_parse_plain [of 0]
  by (auto simp: prompt_def parse_decompressed_def parse_received_def parse_plain_packets_def split: prod.splits sum.splits)
    (metis fst_conv)+

lemma prompt_feed_bytes [prompt_intros]: "prompt (ps_feed_bytes Z d)"
  unfolding ps_feed_bytes_def by (intro prompt_intros)

text \<open>Feeding bytes queues as many packets as it reports.\<close>

lemma join_chunks_queue:
  "join_chunks buff (st, buffer) = (Inr r, (st', buffer')) \<Longrightarrow> ps_recv_queue st' = ps_recv_queue st"
proof (induction buff "(st, buffer)" arbitrary: st buffer rule: join_chunks.induct)
  case (1 buff st buffer)
  from "1.prems" show ?case
    by (subst (asm) join_chunks.simps)
      (auto simp: Let_def err_panic_apply split: if_splits dest!: "1.hyps" [rotated -1])
qed

lemma parse_plain_queue:
  "parse_plain_loop n (st, buffer) = (Inr m, (st', buffer')) \<Longrightarrow> length (ps_recv_queue st') + n = length (ps_recv_queue st) + m"
proof (induction "length buffer" arbitrary: n st buffer rule: less_induct)
  case less
  obtain x st1 buffer1 where j: "join_chunks [] (st, buffer) = (x, (st1, buffer1))" using prod_cases3 by blast
  show ?case
  proof (cases "\<exists>r. x = Inr r \<and> 4 \<le> length buffer \<and> 4 + read_int3 (take 3 buffer) \<le> length buffer")
    case True
    then obtain r where r: "x = Inr r" "4 \<le> length buffer" "4 + read_int3 (take 3 buffer) \<le> length buffer" by blast
    have "parse_plain_loop (n + 1) (st1\<lparr>ps_recv_queue := ps_recv_queue st1 @ [packet_new r]\<rparr>, buffer1) = (Inr m, (st', buffer')) \<Longrightarrow>
        length (ps_recv_queue st') + (n + 1) = length (ps_recv_queue st1) + 1 + m"
      using less.hyps [OF join_chunks_progress [OF j [unfolded r(1)] r(2,3)]] by fastforce
    with less.prems j r join_chunks_queue [OF j [unfolded r(1)]] show ?thesis
      by (subst (asm) parse_plain_loop.simps) (auto simp: Let_def err_panic_apply split: if_splits)
  next
    case False
    with less.prems j show ?thesis
      by (subst (asm) parse_plain_loop.simps) (cases x; auto simp: Let_def err_panic_apply not_less split: if_splits)
  qed
qed

lemma inflate_queue: "feed_compressed_packets Z st = (Inr u, st') \<Longrightarrow> ps_recv_queue st' = ps_recv_queue st"
proof (induction "length (ps_recv_buffer st)" arbitrary: st rule: less_induct)
  case less
  let ?b = "ps_recv_buffer st"
  have "ps_recv_queue st' = ps_recv_queue st"
    if "feed_compressed_packets Z (st\<lparr>ps_next_compressed_seq_id := a, ps_decompressed_buffer := b, ps_recv_buffer := drop (COMPRESSED_HEADER_LEN + m) ?b\<rparr>) =
      (Inr (), st')" "\<not> length ?b < COMPRESSED_HEADER_LEN + m" for a b m
    using that less.hyps [of "st\<lparr>ps_next_compressed_seq_id := a, ps_decompressed_buffer := b, ps_recv_buffer := drop (COMPRESSED_HEADER_LEN + m) ?b\<rparr>"]
    by (simp add: COMPRESSED_HEADER_LEN_def)
  note step = this
  from less.prems show ?case
    by (subst (asm) feed_compressed_packets.simps)
      (auto simp: Let_def err_panic_apply split: if_splits sum.splits dest: step)
qed

lemma parse_queue:
  "parse_decompressed st = (Inr n, st') \<Longrightarrow> length (ps_recv_queue st') = length (ps_recv_queue st) + n"
  "parse_received st = (Inr n, st') \<Longrightarrow> length (ps_recv_queue st') = length (ps_recv_queue st) + n"
  by (auto simp: parse_decompressed_def parse_received_def parse_plain_packets_def dest!: parse_plain_queue
      split: prod.splits sum.splits)

lemma feed_bytes_queue:
  "ps_feed_bytes Z d st = (Inr n, st') \<Longrightarrow> length (ps_recv_queue st') = length (ps_recv_queue st) + n"
  by (auto simp: ps_feed_bytes_def bind_st_Inr_iff modify_st_def get_st_def ret_def dest!: inflate_queue parse_queue split: if_splits)

subsection \<open>The connection\<close>

lemma prompt_lift_ps [prompt_intros]: "prompt m \<Longrightarrow> prompt (lift_ps m)"
  by (auto simp: prompt_def [of "lift_ps m"] lift_ps_def dest: promptD split: prod.splits)

lemma prompt_ps [prompt_intros]: "prompt (ps_write_packet Z d)" "prompt ps_read_packet"
proof -
  have "fst (write_compressed_loop Z plain offset st) \<noteq> Inl Blocked" for plain offset st
  proof (induction Z plain offset st rule: write_compressed_loop.induct)
    case (1 Z plain offset st)
    then show ?case
      by (subst write_compressed_loop.simps) (auto simp: Let_def err_panic_apply split: sum.splits)
  qed
  then show "prompt (ps_write_packet Z d)"
    by (auto simp: prompt_def ps_write_packet_def write_compressed_packet_def split: prod.splits)
  show "prompt ps_read_packet"
    by (simp add: prompt_def ps_read_packet_def err_panic_apply split: list.splits)
qed

lemma prompt_stream [prompt_intros]: "prompt (conn_feed_bytes V d)" "prompt conn_read_packet" "prompt (conn_write_packet V d)"
  unfolding conn_feed_bytes_def conn_read_packet_def conn_write_packet_def by (intro prompt_intros)+

lemma prompt_result_loop [prompt_intros]: "prompt (read_result_loop V r)"
proof -
  have "fst (read_result_loop V r c) \<noteq> Inl Blocked" for r c
  proof (induction V r c rule: read_result_loop.induct)
    case (1 V r c)
    obtain x c' where p: "conn_read_packet c = (x, c')" by fastforce
    obtain y r' where f: "feed_packet V (projr x) c' r = (y, r')" by fastforce
    have "x \<noteq> Inl Blocked" "y \<noteq> Inl Blocked" using promptD [OF prompt_stream(2) p] promptD [OF prompt_feed_packet f] by auto
    with 1 p f show ?case
      by (subst read_result_loop.simps, auto split: sum.splits feed_result.splits) blast
  qed
  then show ?thesis by (simp add: prompt_def)
qed

lemma prompt_next_result [prompt_intros]: "prompt (core_next_result V u)"
  unfolding core_next_result_def core_read_query_result_def Let_def by (intro prompt_intros)

lemma prompt_drain [prompt_intros]: "prompt (drain_results V r)"
proof -
  have "fst (drain_results V r c) \<noteq> Inl Blocked" for r c
  proof (induction V r c rule: drain_results.induct)
    case (1 V r c)
    obtain x c' where p: "core_next_result V False c = (x, c')" by fastforce
    with promptD [OF prompt_next_result p] have "x \<noteq> Inl Blocked" by auto
    with 1 p show ?case by (subst drain_results.simps) (auto split: sum.splits option.splits)
  qed
  then show ?thesis by (simp add: prompt_def)
qed

lemma prompt_finish [prompt_intros]: "prompt finish_unbuffered_query"
proof -
  have "fst (finish_unbuffered_query s) \<noteq> Inl Blocked" for s
  proof (induction s rule: finish_unbuffered_query.induct)
    case (1 r c)
    obtain x c' where p: "conn_read_packet c = (x, c')" by fastforce
    obtain y r' where f: "check_packet_is_eof (projr x) r = (y, r')" by fastforce
    have "x \<noteq> Inl Blocked" "y \<noteq> Inl Blocked" using promptD [OF prompt_stream(2) p] promptD [OF prompt_rows(1) f] by auto
    with 1 p f show ?case
      by (subst finish_unbuffered_query.simps, auto split: sum.splits) blast
  qed
  then show ?thesis unfolding prompt_def by blast
qed

lemma prompt_finish_case [prompt_intros]:
  "prompt (\<lambda>c. if b then (case finish_unbuffered_query (result, c) of (x, (r, c')) \<Rightarrow> (map_sum id (\<lambda>_. r) x, c')) else (Inr result, c))"
  using promptD [OF prompt_finish, of "(result, c)" for c]
  by (fastforce simp: prompt_def map_sum_def split: prod.splits sum.splits)

lemma prompt_execute [prompt_intros]: "prompt (core_execute_command V cmd arg)"
  unfolding core_execute_command_def by (intro prompt_intros)

lemma prompt_commands [prompt_intros]:
  "prompt (core_ping V)" "prompt (core_select_db V db)" "prompt (core_commit V)" "prompt (core_rollback V)" "prompt (core_close V)"
  unfolding core_ping_def core_select_db_def core_commit_def core_rollback_def core_close_def by (intro prompt_intros)+

section \<open>Waiting for input\<close>

text \<open>
  Everything the server has sent is used up: nothing is left to be read and no packet is queued.  The server
  hangs up when the stream ends or fails at some point of the input, or is gone already.
\<close>

definition drained :: "'x client \<Rightarrow> bool" where
  "drained k \<longleftrightarrow> cl_stream k \<noteq> None \<and> cl_in k = [] \<and> recv_queue (cl_inner k) = []"

fun ends_stream :: "read_event \<Rightarrow> bool" where
  "ends_stream (Recv d) \<longleftrightarrow> d = []"
| "ends_stream (ReadErr _) \<longleftrightarrow> True"

definition hangs_up :: "'x client \<Rightarrow> bool" where
  "hangs_up k \<longleftrightarrow> cl_stream k = None \<or> list_ex ends_stream (cl_in k)"

definition waits_for_input :: "('x client, 'a) rs \<Rightarrow> bool" where
  "waits_for_input m \<longleftrightarrow> (\<forall>k. let (x, k') = m k
     in (x = Inl Blocked \<longrightarrow> drained k') \<and> (hangs_up k \<longrightarrow> x \<noteq> Inl Blocked \<and> hangs_up k'))"

named_theorems waits_intros \<open>computations that wait for input only\<close>

lemma drained_not_hung: "drained k \<Longrightarrow> \<not> hangs_up k"
  by (simp add: drained_def hangs_up_def)

lemma waitsI:
  assumes "\<And>k x k'. m k = (x, k') \<Longrightarrow> (x = Inl Blocked \<longrightarrow> drained k') \<and> (hangs_up k \<longrightarrow> hangs_up k')"
  shows "waits_for_input m"
proof -
  have "(x = Inl Blocked \<longrightarrow> drained k') \<and> (hangs_up k \<longrightarrow> x \<noteq> Inl Blocked \<and> hangs_up k')" if "m k = (x, k')" for k x k'
    using assms [OF that] drained_not_hung by blast
  then show ?thesis unfolding waits_for_input_def Let_def by (simp split: prod.splits)
qed

lemma waitsD:
  assumes "waits_for_input m" and "m k = (x, k')"
  shows "(x = Inl Blocked \<longrightarrow> drained k') \<and> (hangs_up k \<longrightarrow> hangs_up k')"
  using assms(1) [unfolded waits_for_input_def, rule_format, of k] assms(2) by simp

text \<open>Computations that never wait and leave the stream and the input alone.\<close>

lemma waits_prompt:
  assumes "prompt m" and "\<And>k x k'. m k = (x, k') \<Longrightarrow> cl_stream k' = cl_stream k \<and> cl_in k' = cl_in k"
  shows "waits_for_input m"
proof (rule waitsI)
  fix k x k' assume m: "m k = (x, k')"
  with promptD [OF assms(1) m] assms(2) [OF m]
  show "(x = Inl Blocked \<longrightarrow> drained k') \<and> (hangs_up k \<longrightarrow> hangs_up k')" by (simp add: hangs_up_def)
qed

lemma waits_basic [waits_intros]:
  "waits_for_input (ret x)" "waits_for_input (err e)" "waits_for_input get_st" "waits_for_input (lift_err r)"
  "waits_for_input (lift_res (load_local_from_packet p))" "prompt m \<Longrightarrow> waits_for_input (run_reader m p)"
  by (rule waits_prompt; auto simp: st_simps lift_res_def lift_err_def run_reader_def prompt_def load_local_from_packet_def
      split: sum.splits)+

lemma waits_lifted [waits_intros]:
  "prompt n \<Longrightarrow> waits_for_input (lift_inner n)" "prompt l \<Longrightarrow> waits_for_input (on_result l)"
  by (rule waits_prompt; auto simp: lift_inner_def on_result_def err_panic_apply prompt_def [of "lift_inner n"] prompt_def [of "on_result l"]
      dest: promptD split: prod.splits option.splits)+

lemma waits_bind [waits_intros]:
  assumes "waits_for_input m" and "\<And>x. waits_for_input (f x)"
  shows "waits_for_input (bind_st m f)"
proof (rule waitsI)
  fix k x k' assume "bind_st m f k = (x, k')"
  then show "(x = Inl Blocked \<longrightarrow> drained k') \<and> (hangs_up k \<longrightarrow> hangs_up k')"
    using waitsD [OF assms(1)] waitsD [OF assms(2)] by (fastforce simp: bind_st_def split: prod.splits sum.splits)
qed

lemma waits_if [waits_intros]: "waits_for_input m \<Longrightarrow> waits_for_input m' \<Longrightarrow> waits_for_input (if b then m else m')"
  by simp

lemma waits_option_case [waits_intros]:
  "waits_for_input m \<Longrightarrow> (\<And>x. waits_for_input (f x)) \<Longrightarrow> waits_for_input (case v of None \<Rightarrow> m | Some x \<Rightarrow> f x)"
  by (simp split: option.splits)

lemma waits_sum_case [waits_intros]:
  "(\<And>e. waits_for_input (f e)) \<Longrightarrow> (\<And>x. waits_for_input (g x)) \<Longrightarrow> waits_for_input (case r of Inl e \<Rightarrow> f e | Inr x \<Rightarrow> g x)"
  by (simp split: sum.splits)

subsection \<open>Reads and writes\<close>

lemma write_all_keeps:
  "client_write_all d k = (x, k') \<Longrightarrow> cl_stream k' = cl_stream k \<and> cl_in k' = cl_in k \<and> x \<noteq> Inl Blocked"
  by (auto simp: client_write_all_def io_outcome_def err_panic_apply split: option.splits list.splits)

lemma write_loop_keeps: "pump_write_loop k = (x, k') \<Longrightarrow> cl_stream k' = cl_stream k \<and> cl_in k' = cl_in k \<and> x \<noteq> Inl Blocked"
proof (induction k rule: pump_write_loop.induct)
  case (1 k)
  obtain d c where p: "pop_send_queue (cl_inner k) = (d, c)" by fastforce
  show ?case
  proof (cases d)
    case None
    with p 1(2) show ?thesis by (subst (asm) pump_write_loop.simps) auto
  next
    case (Some b)
    obtain y k1 where w: "client_write_all b (k\<lparr>cl_inner := c\<rparr>) = (y, k1)" by fastforce
    from 1 p Some w write_all_keeps [OF w] show ?thesis
      by (subst (asm) (2) pump_write_loop.simps) (auto split: sum.splits)
  qed
qed

lemma waits_pump_write [waits_intros]: "waits_for_input pump_write"
proof (rule waitsI)
  fix k x and k' :: "'a client"
  assume "pump_write k = (x, k')"
  then have "cl_stream k' = cl_stream k \<and> cl_in k' = cl_in k \<and> x \<noteq> Inl Blocked"
    by (auto simp: pump_write_def bind_st_def client_flush_def io_outcome_def err_panic_apply dest!: write_loop_keeps
        split: prod.splits sum.splits option.splits list.splits)
  then show "(x = Inl Blocked \<longrightarrow> drained k') \<and> (hangs_up k \<longrightarrow> hangs_up k')" by (simp add: hangs_up_def)
qed

lemma client_read_event:
  assumes "client_read k = (x, k')"
  shows "cl_inner k' = cl_inner k \<and> cl_stream k' = cl_stream k \<and> (x = Inl Blocked \<longrightarrow> cl_stream k \<noteq> None \<and> cl_in k' = []) \<and>
    (\<forall>e. x = Inl e \<longrightarrow> k' = k) \<and> (\<forall>d. x = Inr (Inr d) \<longrightarrow> d \<noteq> [] \<longrightarrow> hangs_up k \<longrightarrow> hangs_up k')"
  using assms
  by (auto simp: client_read_def err_panic_apply hangs_up_def READ_BUF_def split: option.splits list.splits read_event.splits if_splits)

lemma pump_read_waits:
  "pump_read V k = (x, k') \<Longrightarrow>
    (x = Inl Blocked \<and> recv_queue (cl_inner k) = [] \<longrightarrow> drained k') \<and> (hangs_up k \<longrightarrow> hangs_up k')"
proof (induction V k rule: pump_read.induct)
  case (1 V k)
  obtain y k1 where r: "client_read k = (y, k1)" by fastforce
  note r1 = client_read_event [OF r]
  show ?case
  proof (cases "\<exists>d. y = Inr (Inr d) \<and> d \<noteq> []")
    case True
    then obtain d where d: "y = Inr (Inr d)" "d \<noteq> []" by blast
    obtain z k2 where f: "lift_inner (conn_feed_bytes V d) k1 = (z, k2)" by fastforce
    have k2: "cl_stream k2 = cl_stream k1" "cl_in k2 = cl_in k1" "z \<noteq> Inl Blocked" "z = Inr 0 \<Longrightarrow> length (recv_queue (cl_inner k2)) = length (recv_queue (cl_inner k1))"
      using f promptD [OF prompt_stream(1), of V d "cl_inner k1"] feed_bytes_queue [of "env_zlib V" d "cn_packet_stream (cl_inner k1)"]
      by (auto simp: lift_inner_def conn_feed_bytes_def lift_ps_def split: prod.splits)
    have h: "hangs_up k \<Longrightarrow> hangs_up k2" using r1 d k2(1,2) unfolding hangs_up_def by metis
    show ?thesis
    proof (cases "z = Inr 0")
      case True
      then have "pump_read V k2 = (x, k')" using 1(2) r d f by (subst (asm) pump_read.simps) simp
      moreover have "(x = Inl Blocked \<and> recv_queue (cl_inner k2) = [] \<longrightarrow> drained k') \<and> (hangs_up k2 \<longrightarrow> hangs_up k')"
        using r d f True \<open>pump_read V k2 = (x, k')\<close> by (intro 1(1)) auto
      ultimately show ?thesis using k2(4) [OF True] r1 h by auto
    next
      case False
      with 1(2) r d f k2(3) h show ?thesis
        by (subst (asm) pump_read.simps) (auto split: sum.splits)
    qed
  next
    case False
    with 1(2) r r1 show ?thesis
      by (subst (asm) pump_read.simps) (auto simp: err_panic_apply drop_stream_def hangs_up_def drained_def split: sum.splits)
  qed
qed

lemma waits_read_packet [waits_intros]: "waits_for_input (client_read_packet V)"
proof (rule waitsI)
  fix k x and k' :: "'a client"
  assume "client_read_packet V k = (x, k')"
  then show "(x = Inl Blocked \<longrightarrow> drained k') \<and> (hangs_up k \<longrightarrow> hangs_up k')"
  proof (induction V k rule: client_read_packet.induct)
    case (1 V k)
    show ?case
    proof (cases "recv_queue (cl_inner k)")
      case (Cons p q)
      with 1(2) show ?thesis by (simp add: read_queued hangs_up_def) auto
    next
      case Nil
      then have c: "lift_inner conn_read_packet k = (Inl (Fail NeedMoreData), k)"
        by (simp add: lift_inner_def conn_read_packet_Nil)
      obtain y k1 where p: "pump_read V k = (y, k1)" by fastforce
      note w = pump_read_waits [OF p]
      show ?thesis
      proof (cases y)
        case (Inl e)
        with 1(2) c p w Nil show ?thesis by (subst (asm) client_read_packet.simps) auto
      next
        case (Inr u)
        then have r: "client_read_packet V k1 = (x, k')" using 1(2) c p by (subst (asm) client_read_packet.simps) simp
        have "(x = Inl Blocked \<longrightarrow> drained k') \<and> (hangs_up k1 \<longrightarrow> hangs_up k')"
          by (rule 1(1) [OF c [symmetric] _ _ _ p [symmetric]]) (use Inr r in simp_all)
        with w show ?thesis by blast
      qed
    qed
  qed
qed

subsection \<open>Results\<close>

lemma waits_write_packets [waits_intros]: "waits_for_input (write_packets V ds)"
  by (induction ds) (simp_all add: waits_intros prompt_intros)

lemma waits_send_file [waits_intros]: "waits_for_input (send_load_local_file W p)"
  unfolding send_load_local_file_def Let_def by (intro waits_intros prompt_intros)

text \<open>A step of the loops below: read a packet, and what is done with it.\<close>

lemma waits_ok_packet [waits_intros]: "waits_for_input (client_read_ok_packet V)"
  unfolding client_read_ok_packet_def by (intro waits_intros prompt_intros)

lemma waits_result_loop: "waits_for_input (client_result_loop W first r)"
proof (rule waitsI)
  fix k x and k' :: "'a client"
  assume "client_result_loop W first r k = (x, k')"
  then show "(x = Inl Blocked \<longrightarrow> drained k') \<and> (hangs_up k \<longrightarrow> hangs_up k')"
  proof (induction W first r k rule: client_result_loop.induct)
    case (1 W first r k)
    obtain y k1 where p: "client_read_packet (w_env W) k = (y, k1)" by fastforce
    note w = waitsD [OF waits_read_packet p]
    show ?case
    proof (cases y)
      case (Inl e)
      with 1(3) p w show ?thesis by (subst (asm) client_result_loop.simps) auto
    next
      case y: (Inr packet)
      show ?thesis
      proof (cases "first \<and> is_load_local_packet packet")
        case True
        obtain z k2 where f: "send_load_local_file W packet k1 = (z, k2)" by fastforce
        note v = waitsD [OF waits_send_file f]
        from 1(3) p y True f v w 1(1) [OF p [symmetric] y True f [symmetric]] show ?thesis
          by (subst (asm) client_result_loop.simps) (auto split: sum.splits)
      next
        case False
        obtain z r1 where f: "feed_packet (w_env W) packet (cl_inner k1) r = (z, r1)" by fastforce
        have "z \<noteq> Inl Blocked" by (rule promptD [OF prompt_feed_packet f])
        with 1(3) p y False f w 1(2) [OF p [symmetric] y False f [symmetric]] show ?thesis
          by (subst (asm) client_result_loop.simps) (auto simp: hangs_up_def split: sum.splits feed_result.splits)
      qed
    qed
  qed
qed

lemma waits_query_result [waits_intros]: "waits_for_input (client_read_query_result W u)"
  unfolding client_read_query_result_def by (rule waits_result_loop)

lemma waits_finish [waits_intros]: "waits_for_input (client_finish_unbuffered_query V)"
proof (rule waitsI)
  fix k x and k' :: "'a client"
  assume "client_finish_unbuffered_query V k = (x, k')"
  then show "(x = Inl Blocked \<longrightarrow> drained k') \<and> (hangs_up k \<longrightarrow> hangs_up k')"
  proof (induction V k rule: client_finish_unbuffered_query.induct)
    case (1 V k)
    obtain y k1 where p: "client_read_packet V k = (y, k1)" by fastforce
    obtain z k2 where f: "on_result (read_rowdata_packet_unbuffered V (projr y)) k1 = (z, k2)" by fastforce
    note w = waitsD [OF waits_read_packet p] waitsD [OF waits_lifted(2) [OF prompt_rowdata] f]
    have "unbuffered_active k \<Longrightarrow> y = Inr (projr y) \<Longrightarrow> z = Inr b \<Longrightarrow> client_finish_unbuffered_query V k2 = (x, k') \<Longrightarrow>
        (x = Inl Blocked \<longrightarrow> drained k') \<and> (hangs_up k2 \<longrightarrow> hangs_up k')" for b
      by (rule 1(1) [OF _ p [symmetric] _ f [symmetric]]) simp_all
    with 1(2) p f w show ?case
      by (subst (asm) client_finish_unbuffered_query.simps) (auto split: sum.splits if_splits)
  qed
qed

lemma waits_next_row [waits_intros]: "waits_for_input (next_unbuffered_row V)"
proof (rule waitsI)
  fix k x and k' :: "'a client"
  assume "next_unbuffered_row V k = (x, k')"
  then show "(x = Inl Blocked \<longrightarrow> drained k') \<and> (hangs_up k \<longrightarrow> hangs_up k')"
  proof (induction V k rule: next_unbuffered_row.induct)
    case (1 V k)
    obtain y k1 where p: "client_read_packet V k = (y, k1)" by fastforce
    obtain z k2 where f: "on_result (read_rowdata_packet_unbuffered V (projr y)) k1 = (z, k2)" by fastforce
    note w = waitsD [OF waits_read_packet p] waitsD [OF waits_lifted(2) [OF prompt_rowdata] f]
    have "unbuffered_active k \<Longrightarrow> y = Inr (projr y) \<Longrightarrow> z = Inr None \<Longrightarrow> next_unbuffered_row V k2 = (x, k') \<Longrightarrow>
        (x = Inl Blocked \<longrightarrow> drained k') \<and> (hangs_up k2 \<longrightarrow> hangs_up k')"
      by (rule 1(1) [OF _ p [symmetric] _ f [symmetric]]) simp_all
    with 1(2) p f w show ?case
      by (subst (asm) next_unbuffered_row.simps) (auto split: sum.splits if_splits option.splits)
  qed
qed

subsection \<open>Operations\<close>

lemma waits_query [waits_intros]: "waits_for_input (client_query W sql u)"
  unfolding client_query_def by (intro waits_intros prompt_intros)

lemma waits_simple_command [waits_intros]: "prompt m \<Longrightarrow> waits_for_input (simple_command V m)"
  unfolding simple_command_def by (intro waits_intros prompt_intros)

lemma waits_close [waits_intros]: "waits_for_input (client_close V)"
proof -
  have "waits_for_input (modify_st (\<lambda>k :: 'a client. k\<lparr>cl_stream := None\<rparr>))"
    by (rule waitsI) (auto simp: modify_st_def hangs_up_def)
  then show ?thesis unfolding client_close_def by (intro waits_intros prompt_intros)
qed

lemma waits_rollback_dirty [waits_intros]: "waits_for_input (rollback_dirty_transaction W)"
proof -
  have "waits_for_input (modify_st (\<lambda>k :: 'a client. k\<lparr>cl_transaction_dirty := False\<rparr>))"
    by (rule waitsI) (auto simp: modify_st_def hangs_up_def)
  then show ?thesis unfolding rollback_dirty_transaction_def by (intro waits_intros)
qed

lemma waits_tx_end [waits_intros]: "waits_for_input (tx_end W sql tx)"
proof (rule waitsI)
  fix k x k' assume "tx_end W sql tx k = (x, k')"
  then obtain y k1 where q: "client_query W sql False k = (y, k1)" "x = map_sum id (\<lambda>_. ()) y" "k' = k1"
    by (auto simp: tx_end_def tx_drop_def split: prod.splits)
  with waitsD [OF waits_query q(1)] show "(x = Inl Blocked \<longrightarrow> drained k') \<and> (hangs_up k \<longrightarrow> hangs_up k')"
    by (cases y) auto
qed

section \<open>Connecting\<close>

text \<open>
  The login is weaker.  Its loop reads from the stream whenever the state machine asks for a packet, also
  when the packet is queued already, so it can wait with a packet in the queue.  It still waits only on an
  open stream whose input is used up.
\<close>

definition waits_on_stream :: "('x client, 'a) rs \<Rightarrow> bool" where
  "waits_on_stream m \<longleftrightarrow> (\<forall>k. let (x, k') = m k
     in (x = Inl Blocked \<longrightarrow> cl_stream k' \<noteq> None \<and> cl_in k' = []) \<and> (hangs_up k \<longrightarrow> x \<noteq> Inl Blocked \<and> hangs_up k'))"

named_theorems stream_intros \<open>computations that wait on an open stream only\<close>

lemma stream_waitsI:
  assumes "\<And>k x k'. m k = (x, k') \<Longrightarrow> (x = Inl Blocked \<longrightarrow> cl_stream k' \<noteq> None \<and> cl_in k' = []) \<and> (hangs_up k \<longrightarrow> hangs_up k')"
  shows "waits_on_stream m"
proof -
  have "(x = Inl Blocked \<longrightarrow> cl_stream k' \<noteq> None \<and> cl_in k' = []) \<and> (hangs_up k \<longrightarrow> x \<noteq> Inl Blocked \<and> hangs_up k')"
    if "m k = (x, k')" for k x k'
    using assms [OF that] by (auto simp: hangs_up_def)
  then show ?thesis unfolding waits_on_stream_def Let_def by (simp split: prod.splits)
qed

lemma stream_waitsD:
  assumes "waits_on_stream m" and "m k = (x, k')"
  shows "(x = Inl Blocked \<longrightarrow> cl_stream k' \<noteq> None \<and> cl_in k' = []) \<and> (hangs_up k \<longrightarrow> hangs_up k')"
  using assms(1) [unfolded waits_on_stream_def, rule_format, of k] assms(2) by simp

lemma waits_stream: "waits_for_input m \<Longrightarrow> waits_on_stream m"
  by (rule stream_waitsI) (auto dest: waitsD simp: drained_def)

lemma stream_bind [stream_intros]:
  assumes "waits_on_stream m" and "\<And>x. waits_on_stream (f x)"
  shows "waits_on_stream (bind_st m f)"
proof (rule stream_waitsI)
  fix k x k' assume "bind_st m f k = (x, k')"
  then show "(x = Inl Blocked \<longrightarrow> cl_stream k' \<noteq> None \<and> cl_in k' = []) \<and> (hangs_up k \<longrightarrow> hangs_up k')"
    using stream_waitsD [OF assms(1)] stream_waitsD [OF assms(2)] by (fastforce simp: bind_st_def split: prod.splits sum.splits)
qed

lemma stream_if [stream_intros]: "waits_on_stream m \<Longrightarrow> waits_on_stream m' \<Longrightarrow> waits_on_stream (if b then m else m')"
  by simp

lemma stream_basic [stream_intros]:
  "waits_on_stream (ret x)" "waits_on_stream get_st" "waits_on_stream pump_write" "prompt n \<Longrightarrow> waits_on_stream (lift_inner n)"
  by (intro waits_stream waits_intros; assumption)+

lemma stream_pump_read [stream_intros]: "waits_on_stream (pump_read V)"
proof (rule stream_waitsI)
  fix k x and k' :: "'a client"
  assume "pump_read V k = (x, k')"
  then show "(x = Inl Blocked \<longrightarrow> cl_stream k' \<noteq> None \<and> cl_in k' = []) \<and> (hangs_up k \<longrightarrow> hangs_up k')"
  proof (induction V k rule: pump_read.induct)
    case (1 V k)
    have h: "hangs_up k \<longrightarrow> hangs_up k'" using pump_read_waits [OF "1.prems"] by blast
    obtain y k1 where r: "client_read k = (y, k1)" by fastforce
    note r1 = client_read_event [OF r]
    show ?case
    proof (cases "\<exists>d. y = Inr (Inr d) \<and> d \<noteq> []")
      case True
      then obtain d where d: "y = Inr (Inr d)" "d \<noteq> []" by blast
      obtain z k2 where f: "lift_inner (conn_feed_bytes V d) k1 = (z, k2)" by fastforce
      have z: "z \<noteq> Inl Blocked"
        using f promptD [OF prompt_stream(1), of V d "cl_inner k1"] by (auto simp: lift_inner_def split: prod.splits)
      have "pump_read V k2 = (x, k') \<Longrightarrow> z = Inr 0 \<Longrightarrow> x = Inl Blocked \<longrightarrow> cl_stream k' \<noteq> None \<and> cl_in k' = []"
        using "1.IH" [OF r [symmetric] d(1) refl d(2) f [symmetric]] by auto
      with "1.prems" r d f z h show ?thesis
        by (subst (asm) pump_read.simps) (auto split: sum.splits if_splits)
    next
      case False
      with "1.prems" r r1 h show ?thesis
        by (subst (asm) pump_read.simps) (auto simp: err_panic_apply split: sum.splits)
    qed
  qed
qed

subsection \<open>The state machine of the login\<close>

lemma prompt_split [prompt_intros]: "(\<And>a b. prompt (f a b)) \<Longrightarrow> prompt (case x of (a, b) \<Rightarrow> f a b)"
  by (cases x) simp

lemma prompt_on_packet [prompt_intros]: "prompt m \<Longrightarrow> prompt (on_packet m p)"
  by (auto simp: prompt_def on_packet_def throw_def ret_def split: prod.splits sum.splits) (metis fst_conv)

lemma prompt_login_basic [prompt_intros]:
  "prompt read_string" "prompt (lift_res (check_error p))" "prompt (from_second d)" "prompt (set_phase ph)" "prompt (reply V d ph)"
  "prompt (bytes_at d i n)"
proof -
  show "prompt read_string" by (simp add: prompt_def read_string_def Let_def err_panic_apply split: option.splits)
  show "prompt (lift_res (check_error p))" by (simp add: prompt_def lift_res_def check_error_def)
  show "prompt (from_second d)" "prompt (bytes_at d i n)" unfolding from_second_def bytes_at_def by (intro prompt_intros)+
  show ph: "prompt (set_phase ph)" for ph :: auth_phase and c :: "'a connection" unfolding set_phase_def by (intro prompt_intros)
  show "prompt (reply V d ph)" unfolding reply_def set_phase_def by (intro prompt_intros)
qed

lemma prompt_write_auth [prompt_intros]: "prompt (write_auth_packet V flags)"
proof -
  have "make_auth_response K plugin password salt secure \<noteq> Inl Blocked" for K plugin password salt secure
    by (cases plugin) (auto simp: ed25519_password_def clamp_scalar_def Let_def bind_res_def split: if_splits sum.splits)
  then have "prompt (lift_res (make_auth_response K plugin password salt secure))" for K plugin password salt secure
    by (simp add: prompt_def lift_res_def)
  then show ?thesis unfolding write_auth_packet_def by (intro prompt_intros)
qed

lemma prompt_auth_switch [prompt_intros]: "prompt (process_auth_switch V p)"
proof -
  have "prompt (case plugin of MysqlNativePassword \<Rightarrow> a | CachingSha2Password \<Rightarrow> b | Sha256Password \<Rightarrow> c | MysqlClearPassword \<Rightarrow> d | _ \<Rightarrow> e)"
    if "prompt a" "prompt b" "prompt c" "prompt d" "prompt e" for plugin and a b c d e :: "('a connection, auth_state) rs"
    using that by (cases plugin) simp_all
  then show ?thesis unfolding process_auth_switch_def Let_def by (intro prompt_intros) (simp_all add: prompt_intros)
qed

lemma prompt_auth_steps [prompt_intros]:
  "prompt (process_caching_sha2_fast V p)" "prompt (process_caching_sha2_public_key V p)" "prompt (process_sha256_continue V p)"
  unfolding process_caching_sha2_fast_def process_caching_sha2_public_key_def process_sha256_continue_def Let_def
  by (intro prompt_intros)+

lemma prompt_auth_initial [prompt_intros]: "prompt (process_auth_initial V p)"
proof -
  have "prompt (case cn_auth_plugin_name c of CachingSha2Password \<Rightarrow> process_caching_sha2_fast V p
      | Sha256Password \<Rightarrow> process_sha256_continue V p
      | q \<Rightarrow> err (plugin_error (''Received extra packet for auth method '' @ plugin_debug V q)))" for c
    by (cases "cn_auth_plugin_name c") (simp_all add: prompt_intros)
  then show ?thesis unfolding process_auth_initial_def by (intro prompt_intros)
qed

lemma prompt_login [prompt_intros]:
  "prompt (request_authentication_start V)" "prompt (request_authentication_send_credentials V)"
  "prompt (request_authentication_continue V)" "prompt get_server_information"
proof -
  show "prompt (request_authentication_start V)" "prompt (request_authentication_send_credentials V)"
    unfolding request_authentication_start_def request_authentication_send_credentials_def Let_def by (intro prompt_intros)+
  have "prompt (case ph of AP_Initial \<Rightarrow> a | AP_CachingSha2FastSuccess \<Rightarrow> b | AP_CachingSha2PublicKey \<Rightarrow> c | AP_Sha256Password \<Rightarrow> d)"
    if "prompt a" "prompt b" "prompt c" "prompt d" for ph and a b c d :: "('a connection, auth_state) rs"
    using that by (cases ph) simp_all
  then show "prompt (request_authentication_continue V)"
    unfolding request_authentication_continue_def by (intro prompt_intros) (simp_all add: prompt_intros)
  show "prompt get_server_information"
    unfolding get_server_information_def hs_version_def hs_salt_def hs_extended_def hs_plugin_def Let_def by (intro prompt_intros)
qed

lemma stream_login_loop: "waits_on_stream (authenticate_loop V st)"
proof (rule stream_waitsI)
  fix k x and k' :: "'a client"
  assume "authenticate_loop V st k = (x, k')"
  then show "(x = Inl Blocked \<longrightarrow> cl_stream k' \<noteq> None \<and> cl_in k' = []) \<and> (hangs_up k \<longrightarrow> hangs_up k')"
  proof (induction V st k rule: authenticate_loop.induct)
    case (1 V st k)
    show ?case
    proof (cases st)
      case NeedRead
      obtain y k1 where r: "pump_read V k = (y, k1)" by fastforce
      obtain z k2 where c: "lift_inner (request_authentication_continue V) k1 = (z, k2)" by fastforce
      note w = stream_waitsD [OF stream_pump_read r] stream_waitsD [OF stream_basic(4) [OF prompt_login(3)] c]
      from 1 NeedRead r c w show ?thesis
        by (subst (asm) (3) authenticate_loop.simps) (auto split: sum.splits)
    next
      case Send
      obtain y k1 where p: "pump_write k = (y, k1)" by fastforce
      from 1 Send p stream_waitsD [OF stream_basic(3) p] show ?thesis
        by (subst (asm) (3) authenticate_loop.simps) (auto split: sum.splits)
    next
      case Success
      with 1(3) show ?thesis by (subst (asm) authenticate_loop.simps) auto
    qed
  qed
qed

lemma stream_upgrade [stream_intros]: "waits_on_stream (upgrade_to_tls W L)"
proof (rule stream_waitsI)
  fix k x k' assume "upgrade_to_tls W L k = (x, k')"
  then show "(x = Inl Blocked \<longrightarrow> cl_stream k' \<noteq> None \<and> cl_in k' = []) \<and> (hangs_up k \<longrightarrow> hangs_up k')"
    by (cases "build_tls_config W L (cn_options (cl_inner k))"; cases "server_name_from_host L (co_host (cn_options (cl_inner k)))")
      (auto simp: upgrade_to_tls_def st_simps lift_err_def hangs_up_def split: option.splits connection_stream.splits)
qed

lemma stream_authenticate [stream_intros]: "waits_on_stream (authenticate W L)"
  unfolding authenticate_def by (intro stream_intros stream_login_loop prompt_intros)

lemma prompt_set_character_set [prompt_intros]: "prompt (set_character_set V name collation)"
  unfolding set_character_set_def Let_def by (intro prompt_intros)

lemma waits_post_setup: "waits_for_input (post_connect_setup W options)"
proof -
  have "waits_for_input (opt_query W q)" for q unfolding opt_query_def by (intro waits_intros)
  then show ?thesis unfolding post_connect_setup_def by (intro waits_intros prompt_intros)
qed

lemma stream_connect: "waits_on_stream (connect_over W L options)"
proof -
  have "waits_on_stream (modify_st (\<lambda>k. if co_compress options \<and> cn_server_capabilities (cl_inner k) AND COMPRESS \<noteq> 0
      then k\<lparr>cl_inner := core_enable_compression (cl_inner k)\<rparr> else k))"
    by (rule stream_waitsI) (auto simp: modify_st_def hangs_up_def)
  then show ?thesis
    unfolding connect_over_def by (intro stream_intros prompt_intros waits_stream [OF waits_post_setup])
qed

text \<open>C6: The operations on a connection end or wait for the server only.  A query (buffered or not), an execute
  with arguments, the next result set, the next row of an unbuffered query, ping, select_db, commit, rollback,
  close, and the begin and the end of a transaction return a value or an error, or wait; they wait only on an open stream
  when all that the server has sent has been read and no packet is left in the queue; and when the
  server hangs up, by the end of the stream or by a failure, none of them waits for ever.  For the
  connect itself, from the greeting to the last statement of the options, the same holds except for the queue: it waits
  only on an open stream when everything has been read from it, and never when the server hangs up, but it can wait
  while a packet is queued (\<open>login_waits_though_answered\<close> in Client_Connect).  The TLS handshake is a call of the library that returns.\<close>

theorem operations_wait_for_input:
  "waits_for_input (client_query W sql u) \<and> waits_for_input (client_execute W sql args) \<and> waits_for_input (client_next_result W u) \<and>
   waits_for_input (next_unbuffered_row V) \<and> waits_for_input (client_ping V) \<and> waits_for_input (client_select_db V db) \<and>
   waits_for_input (client_commit V) \<and> waits_for_input (client_rollback V) \<and> waits_for_input (client_close V) \<and>
   waits_for_input (tx_begin_with W options) \<and> waits_for_input (tx_commit W tx) \<and> waits_for_input (tx_rollback W tx) \<and>
   waits_on_stream (connect_over W L connect_opts)"
  unfolding client_execute_def client_next_result_def client_ping_def client_select_db_def client_commit_def client_rollback_def
    tx_begin_with_def tx_commit_def tx_rollback_def
  by (intro conjI stream_connect waits_intros prompt_intros)

end
