(* ===== verification/Cursor.thy ===== *)
theory Cursor
  imports Client_Exchange
begin

text \<open>
  The cursors of \<^verbatim>\<open>mysql/src/cursor.rs\<close>: the buffered cursor, the unbuffered cursor and their variants with
  rows as dictionaries.  A cursor borrows the connection, which is a field of its state.  The regular
  expression that recognises bulk inserts is the parameter \<open>re\<close>: the three captured groups of a match.
  Row counts are \<open>i64\<close> and wrap around.  A \<open>HashMap\<close> is a map.
\<close>

section \<open>State\<close>

record 'x cursor =
  cu_connection :: "'x client"
  cu_warning_count :: u16
  cu_description :: "column_description list option"
  cu_row_number :: nat
  cu_row_count :: int
  cu_array_size :: nat
  cu_executed :: "string option"
  cu_result :: "'x mysql_result option"
  cu_rows :: "'x mysql_value list list option"
  cu_closed :: bool

type_synonym captures = "string \<Rightarrow> (string \<times> string \<times> string) option"

definition cursor_new :: "'x client \<Rightarrow> 'x cursor" where
  "cursor_new k = \<lparr>cu_connection = k, cu_warning_count = 0, cu_description = None, cu_row_number = 0,
     cu_row_count = - 1, cu_array_size = 1, cu_executed = None, cu_result = None, cu_rows = None, cu_closed = False\<rparr>"

definition on_conn :: "('x client, 'a) rs \<Rightarrow> ('x cursor, 'a) rs" where
  "on_conn m cu = (case m (cu_connection cu) of (r, k) \<Rightarrow> (r, cu\<lparr>cu_connection := k\<rparr>))"

definition cursor_closed_error :: error where
  "cursor_closed_error = ProgrammingError CR_COMMANDS_OUT_OF_SYNC ''Cursor closed''"

definition execute_first_error :: error where
  "execute_first_error = ProgrammingError CR_NO_RESULT_SET ''execute() first''"

definition cu_check_closed :: "('x cursor, unit) rs" where
  "cu_check_closed cu = (if cu_closed cu then err cursor_closed_error cu else (Inr (), cu))"

definition cu_check_executed :: "('x cursor, unit) rs" where
  "cu_check_executed cu = (if cu_executed cu = None then err execute_first_error cu else (Inr (), cu))"

section \<open>Result sets\<close>

definition refresh_result :: "'x cursor \<Rightarrow> 'x cursor" where
  "refresh_result cu =
     (case cn_result (cl_inner (cu_connection cu)) of
        None \<Rightarrow> cu
      | Some result \<Rightarrow> cu\<lparr>cu_row_count := mr_affected_rows result, cu_warning_count := mr_warning_count result,
          cu_description := mr_description result, cu_rows := mr_rows result, cu_result := Some result,
          cu_row_number := 0\<rparr>)"

definition cu_next_set :: "'x world \<Rightarrow> ('x cursor, bool) rs" where
  "cu_next_set W cu =
     (case cu_result cu of
        None \<Rightarrow> (Inr False, cu)
      | Some current_result \<Rightarrow>
          (if \<not> mr_has_next current_result then (Inr False, cu)
           else
             (case on_conn (client_next_result W False) cu of
                (Inl e, cu') \<Rightarrow> (Inl e, cu')
              | (Inr _, cu') \<Rightarrow>
                  (let cu'' = refresh_result cu'
                   in (Inr (case cu_result cu'' of Some r \<Rightarrow> mr_has_next r | None \<Rightarrow> False), cu'')))))"

lemma finish_unbuffered_le:
  "client_finish_unbuffered_query V k = (Inr u, k') \<Longrightarrow> k' = k \<or> (k', k) \<in> shorter"
proof (induction k rule: wf_induct_rule [OF wf_shorter])
  case (1 k)
  show ?case
  proof (cases "unbuffered_active k")
    case True
    then obtain p k1 row k2 where s: "client_read_packet V k = (Inr p, k1)"
        "on_result (read_rowdata_packet_unbuffered V p) k1 = (Inr row, k2)" "client_finish_unbuffered_query V k2 = (Inr u, k')"
      using 1(2) by (subst (asm) client_finish_unbuffered_query.simps) (auto split: prod.splits sum.splits)
    have "(k2, k) \<in> shorter" using client_read_packet_shrinks [OF s(1)] on_result_shorter [OF s(2)] by blast
    with 1(1) s(3) shorter_trans show ?thesis by blast
  next
    case False
    with 1(2) show ?thesis by (subst (asm) client_finish_unbuffered_query.simps) simp
  qed
qed

lemma next_result_shrinks:
  assumes "client_next_result W u k = (Inr n, k')"
  shows "(k', k) \<in> shorter"
proof -
  obtain k1 where "client_finish_unbuffered_query (w_env W) k = (Inr (), k1)" "client_read_query_result W u k1 = (Inr n, k')"
    using assms by (auto simp: client_next_result_def bind_st_Inr_iff)
  then show ?thesis
    using finish_unbuffered_le client_read_query_result_shrinks shorter_trans by blast
qed

lemma refresh_result_connection [simp]: "cu_connection (refresh_result cu) = cu_connection cu"
  by (simp add: refresh_result_def split: option.split)

lemma cu_next_set_shrinks:
  "cu_next_set W cu = (Inr True, cu') \<Longrightarrow> (cu_connection cu', cu_connection cu) \<in> shorter"
  by (auto simp: cu_next_set_def on_conn_def Let_def dest!: next_result_shrinks split: option.splits if_splits prod.splits sum.splits)

text \<open>\<open>while self.next_set().await? {}\<close>.\<close>

function drain_sets :: "'x world \<Rightarrow> ('x cursor, unit) rs" where
  "drain_sets W cu =
     (case cu_next_set W cu of
        (Inl e, cu') \<Rightarrow> (Inl e, cu')
      | (Inr again, cu') \<Rightarrow> (if again then drain_sets W cu' else (Inr (), cu')))"
  by pat_completeness auto
termination
  by (relation "inv_image shorter (\<lambda>(_, cu). cu_connection cu)") (auto dest!: sym [of "(_, _)"] cu_next_set_shrinks)

declare drain_sets.simps [simp del]

definition cu_close :: "'x world \<Rightarrow> ('x cursor, unit) rs" where
  "cu_close W =
     bind_st get_st (\<lambda>cu.
     if cu_closed cu then ret ()
     else bind_st (drain_sets W) (\<lambda>_. modify_st (\<lambda>cu. cu\<lparr>cu_closed := True\<rparr>)))"

definition cu_drop :: "'x cursor \<Rightarrow> 'x cursor" where
  "cu_drop cu = (if \<not> cu_closed cu then cu\<lparr>cu_closed := True\<rparr> else cu)"

section \<open>Executing\<close>

definition cu_mogrify :: "'x env \<Rightarrow> string \<Rightarrow> 'x mysql_value list option \<Rightarrow> ('x cursor, string) rs" where
  "cu_mogrify V query args =
     bind_st cu_check_closed (\<lambda>_.
     bind_st get_st (\<lambda>cu. lift_err (client_mogrify V (cu_connection cu) query args)))"

definition cu_execute :: "'x world \<Rightarrow> string \<Rightarrow> 'x mysql_value list option \<Rightarrow> ('x cursor, int) rs" where
  "cu_execute W query args =
     bind_st cu_check_closed (\<lambda>_.
     bind_st (drain_sets W) (\<lambda>_.
     bind_st get_st (\<lambda>cu.
     bind_st (lift_err (client_mogrify (w_env W) (cu_connection cu) query args)) (\<lambda>query.
     bind_st (on_conn (client_query W query False)) (\<lambda>affected.
     bind_st (modify_st (\<lambda>cu. (refresh_result cu)\<lparr>cu_executed := Some query\<rparr>)) (\<lambda>_. ret affected))))))"

definition add_i64 :: "int \<Rightarrow> int \<Rightarrow> int" where
  "add_i64 a b = sint (word_of_int (a + b) :: 64 word)"

text \<open>The loops below are shared by the buffered and the unbuffered cursor, which differ in \<open>execute\<close>.\<close>

fun execute_each :: "(string \<Rightarrow> 'v list option \<Rightarrow> ('s, int) rs) \<Rightarrow> string \<Rightarrow> int \<Rightarrow> 'v list list \<Rightarrow> ('s, int) rs" where
  "execute_each exe query tot [] = ret tot"
| "execute_each exe query tot (args # args_list) =
     bind_st (exe query (Some args)) (\<lambda>n. execute_each exe query (add_i64 tot n) args_list)"

definition MAX_STMT_LEN :: nat where
  "MAX_STMT_LEN = 1024000"

definition row_too_long :: error where
  "row_too_long = DataError CR_INVALID_PARAMETER_NO ''execute_many row exceeds maximum query length''"

fun bulk_loop :: "(string \<Rightarrow> 'v list option \<Rightarrow> ('s, int) rs) \<Rightarrow> (string \<Rightarrow> 'v list option \<Rightarrow> ('s, string) rs) \<Rightarrow>
    string \<Rightarrow> string \<Rightarrow> string \<Rightarrow> nat \<Rightarrow> string \<Rightarrow> int \<Rightarrow> 'v list list \<Rightarrow> ('s, int) rs" where
  "bulk_loop exe mog prefix values postfix i sql rows [] =
     bind_st (exe (sql @ postfix) None) (\<lambda>n. ret (add_i64 rows n))"
| "bulk_loop exe mog prefix values postfix i sql rows (args # args_list) =
     bind_st (mog values (Some args)) (\<lambda>value_str.
     bind_st
       (if MAX_STMT_LEN < length sql + length value_str + length postfix + (if 0 < i then 1 else 0) then
          (if i = 0 then err row_too_long
           else bind_st (exe (sql @ postfix) None) (\<lambda>n. ret (prefix, add_i64 rows n)))
        else ret (sql, rows)) (\<lambda>(sql, rows).
     bulk_loop exe mog prefix values postfix (i + 1)
       ((if 0 < i then sql @ '','' else sql) @ value_str) rows args_list))"

definition conn_mogrify :: "'x env \<Rightarrow> string \<Rightarrow> 'x mysql_value list option \<Rightarrow> ('x cursor, string) rs" where
  "conn_mogrify V query args =
     bind_st get_st (\<lambda>cu. lift_err (client_mogrify V (cu_connection cu) query args))"

definition do_execute_many :: "'x world \<Rightarrow> string \<Rightarrow> string \<Rightarrow> string \<Rightarrow> 'x mysql_value list list \<Rightarrow> ('x cursor, int) rs" where
  "do_execute_many W prefix values postfix args_list =
     bind_st cu_check_closed (\<lambda>_.
     bind_st (bulk_loop (cu_execute W) (conn_mogrify (w_env W)) prefix values postfix 0 prefix 0 args_list) (\<lambda>rows.
     bind_st (modify_st (\<lambda>cu. cu\<lparr>cu_row_count := rows\<rparr>)) (\<lambda>_. ret rows)))"

definition cu_execute_many :: "captures \<Rightarrow> 'x world \<Rightarrow> string \<Rightarrow> 'x mysql_value list list \<Rightarrow> ('x cursor, int) rs" where
  "cu_execute_many re W query args_list =
     bind_st cu_check_closed (\<lambda>_.
     if args_list = [] then ret 0
     else
       (case re query of
          Some (prefix, values, postfix) \<Rightarrow> do_execute_many W prefix values postfix args_list
        | None \<Rightarrow>
            bind_st (execute_each (cu_execute W) query 0 args_list) (\<lambda>tot.
            bind_st (modify_st (\<lambda>cu. cu\<lparr>cu_row_count := tot\<rparr>)) (\<lambda>_. ret tot))))"

section \<open>Fetching\<close>

definition cu_fetch_one :: "('x cursor, 'x mysql_value list option) rs" where
  "cu_fetch_one =
     bind_st cu_check_executed (\<lambda>_.
     bind_st get_st (\<lambda>cu.
     case cu_rows cu of
       None \<Rightarrow> ret None
     | Some rows \<Rightarrow>
         (if length rows \<le> cu_row_number cu then ret None
          else
            bind_st (modify_st (\<lambda>cu. cu\<lparr>cu_row_number := cu_row_number cu + 1\<rparr>)) (\<lambda>_.
            ret (Some (rows ! cu_row_number cu))))))"

text \<open>A sum above \<open>usize::MAX\<close> wraps around to an end before the start of the slice, or is caught: a panic.\<close>

definition cu_fetch_many :: "nat option \<Rightarrow> ('x cursor, 'x mysql_value list list) rs" where
  "cu_fetch_many req =
     bind_st cu_check_executed (\<lambda>_.
     bind_st get_st (\<lambda>cu.
     case cu_rows cu of
       None \<Rightarrow> ret []
     | Some rows \<Rightarrow>
         (let n = (case req of Some m \<Rightarrow> m | None \<Rightarrow> cu_array_size cu)
          in if usize_max < cu_row_number cu + n then panic
             else
               (let end_pos = min (cu_row_number cu + n) (length rows)
                in if end_pos < cu_row_number cu then panic
                   else
                     bind_st (modify_st (\<lambda>cu. cu\<lparr>cu_row_number := end_pos\<rparr>)) (\<lambda>_.
                     ret (slice_of (cu_row_number cu) end_pos rows))))))"

definition cu_fetch_all :: "('x cursor, 'x mysql_value list list) rs" where
  "cu_fetch_all =
     bind_st cu_check_executed (\<lambda>_.
     bind_st get_st (\<lambda>cu.
     case cu_rows cu of
       None \<Rightarrow> ret []
     | Some rows \<Rightarrow>
         (if length rows < cu_row_number cu then panic
          else
            bind_st (modify_st (\<lambda>cu. cu\<lparr>cu_row_number := length rows\<rparr>)) (\<lambda>_.
            ret (drop (cu_row_number cu) rows)))))"

definition unknown_scroll_mode :: "string \<Rightarrow> error" where
  "unknown_scroll_mode mode = ProgrammingError CR_INVALID_PARAMETER_NO (''unknown scroll mode '' @ mode)"

definition out_of_range :: error where
  "out_of_range = ProgrammingError CR_INVALID_PARAMETER_NO ''out of range''"

text \<open>A relative position beyond the range of \<open>isize\<close> wraps to a negative one: out of range in either reading.\<close>

definition cu_scroll :: "int \<Rightarrow> string \<Rightarrow> ('x cursor, unit) rs" where
  "cu_scroll val mode =
     bind_st cu_check_executed (\<lambda>_.
     bind_st get_st (\<lambda>cu.
     case cu_rows cu of
       None \<Rightarrow> err (ProgrammingError CR_NO_RESULT_SET ''No result set'')
     | Some rows \<Rightarrow>
         (if mode \<noteq> ''relative'' \<and> mode \<noteq> ''absolute'' then err (unknown_scroll_mode mode)
          else
            (let new_pos = (if mode = ''relative'' then int (cu_row_number cu) + val else val)
             in if new_pos < 0 \<or> length rows \<le> nat new_pos then err out_of_range
                else modify_st (\<lambda>cu. cu\<lparr>cu_row_number := nat new_pos\<rparr>)))))"

section \<open>Procedures\<close>

definition BACKTICK :: char where
  "BACKTICK = CHR 0x60"

text \<open>\<open>@`_{}_{}`\<close>.\<close>

definition proc_var :: "string \<Rightarrow> nat \<Rightarrow> string" where
  "proc_var name i = ''@'' @ [BACKTICK] @ ''_'' @ name @ ''_'' @ dec i @ [BACKTICK]"

fun set_parts :: "'x env \<Rightarrow> 'x client \<Rightarrow> string \<Rightarrow> nat \<Rightarrow> 'x mysql_value list \<Rightarrow> error + string list" where
  "set_parts V k name i [] = Inr []"
| "set_parts V k name i (arg # args) =
     bind_res (literal V (cl_inner k) arg) (\<lambda>lit.
     bind_res (set_parts V k name (i + 1) args) (\<lambda>parts. Inr ((proc_var name i @ ''='' @ lit) # parts)))"

text \<open>The values of the row replace the arguments as far as both go.\<close>

fun replace_slots :: "'v list \<Rightarrow> 'v list \<Rightarrow> 'v list" where
  "replace_slots (a # args) (v # vs) = v # replace_slots args vs"
| "replace_slots args vs = args"

definition cu_call_procedure :: "'x world \<Rightarrow> string \<Rightarrow> 'x mysql_value list \<Rightarrow> ('x cursor, 'x mysql_value list) rs" where
  "cu_call_procedure W procname args =
     bind_st cu_check_closed (\<lambda>_.
     let name = replace_char BACKTICK [BACKTICK, BACKTICK] procname;
         idx = [0..<length args]
     in
       bind_st
         (if args \<noteq> [] then
            bind_st get_st (\<lambda>cu.
            bind_st (lift_err (set_parts (w_env W) (cu_connection cu) name 0 args)) (\<lambda>parts.
            bind_st (cu_execute W (''SET '' @ join_with '','' parts) None) (\<lambda>_. ret ())))
          else ret ()) (\<lambda>_.
       bind_st (cu_execute W (''CALL '' @ [BACKTICK] @ name @ [BACKTICK] @ ''('' @ join_with '','' (map (proc_var name) idx) @ '')'') None) (\<lambda>_.
       bind_st (drain_sets W) (\<lambda>_.
       if args = [] then ret []
       else
         bind_st (cu_execute W (''SELECT '' @
           join_with '','' (map (\<lambda>i. proc_var name i @ '' AS '' @ [BACKTICK] @ dec i @ [BACKTICK]) idx)) None) (\<lambda>_.
         bind_st cu_fetch_one (\<lambda>row.
         case row of
           None \<Rightarrow> err (ProgrammingError CR_NO_RESULT_SET ''Failed to fetch procedure output variables'')
         | Some vals \<Rightarrow> ret (replace_slots args vals)))))))"

section \<open>Rows as dictionaries\<close>

type_synonym 'x row_dict = "string \<rightharpoonup> 'x mysql_value"

text \<open>A later column of the same name replaces an earlier one.\<close>

definition row_dict :: "string list \<Rightarrow> 'x mysql_value list \<Rightarrow> 'x row_dict" where
  "row_dict names row = fold (\<lambda>(f, v) dict. dict(f \<mapsto> v)) (zip names row) Map.empty"

definition description_names :: "column_description list option \<Rightarrow> string list" where
  "description_names desc = (case desc of Some ds \<Rightarrow> map cd_name ds | None \<Rightarrow> [])"

record 'x dict_cursor =
  dc_inner :: "'x cursor"
  dc_fields :: "string list"
  dc_fields_dirty :: bool

definition dict_cursor_new :: "'x cursor \<Rightarrow> 'x dict_cursor" where
  "dict_cursor_new cu = \<lparr>dc_inner = cu, dc_fields = [], dc_fields_dirty = True\<rparr>"

definition on_cursor :: "('x cursor, 'a) rs \<Rightarrow> ('x dict_cursor, 'a) rs" where
  "on_cursor m dc = (case m (dc_inner dc) of (r, cu) \<Rightarrow> (r, dc\<lparr>dc_inner := cu\<rparr>))"

definition build_fields :: "'x dict_cursor \<Rightarrow> 'x dict_cursor" where
  "build_fields dc = dc\<lparr>dc_fields := description_names (cu_description (dc_inner dc))\<rparr>"

definition ensure_fields :: "'x dict_cursor \<Rightarrow> 'x dict_cursor" where
  "ensure_fields dc = (if dc_fields_dirty dc then (build_fields dc)\<lparr>dc_fields_dirty := False\<rparr> else dc)"

definition dc_execute :: "'x world \<Rightarrow> string \<Rightarrow> 'x mysql_value list option \<Rightarrow> ('x dict_cursor, int) rs" where
  "dc_execute W query args =
     bind_st (on_cursor (cu_execute W query args)) (\<lambda>affected.
     bind_st (modify_st (\<lambda>dc. dc\<lparr>dc_fields_dirty := True\<rparr>)) (\<lambda>_. ret affected))"

definition dc_execute_many :: "captures \<Rightarrow> 'x world \<Rightarrow> string \<Rightarrow> 'x mysql_value list list \<Rightarrow> ('x dict_cursor, int) rs" where
  "dc_execute_many re W query args_list = on_cursor (cu_execute_many re W query args_list)"

definition dc_call_procedure :: "'x world \<Rightarrow> string \<Rightarrow> 'x mysql_value list \<Rightarrow> ('x dict_cursor, 'x mysql_value list) rs" where
  "dc_call_procedure W procname args = on_cursor (cu_call_procedure W procname args)"

definition dc_close :: "'x world \<Rightarrow> ('x dict_cursor, unit) rs" where
  "dc_close W = on_cursor (cu_close W)"

definition dc_next_set :: "'x world \<Rightarrow> ('x dict_cursor, bool) rs" where
  "dc_next_set W =
     bind_st (on_cursor (cu_next_set W)) (\<lambda>has_next.
     bind_st (modify_st (\<lambda>dc. dc\<lparr>dc_fields_dirty := True\<rparr>)) (\<lambda>_. ret has_next))"

definition dc_mogrify :: "'x env \<Rightarrow> string \<Rightarrow> 'x mysql_value list option \<Rightarrow> ('x dict_cursor, string) rs" where
  "dc_mogrify V query args = on_cursor (cu_mogrify V query args)"

definition dc_fetch_one :: "('x dict_cursor, 'x row_dict option) rs" where
  "dc_fetch_one =
     bind_st (modify_st ensure_fields) (\<lambda>_.
     bind_st (on_cursor cu_fetch_one) (\<lambda>row.
     bind_st get_st (\<lambda>dc. ret (map_option (row_dict (dc_fields dc)) row))))"

text \<open>The loop over \<open>0..size\<close>, which stops at the first missing row.\<close>

fun dc_fetch_loop :: "nat \<Rightarrow> ('x dict_cursor, 'x row_dict list) rs" where
  "dc_fetch_loop 0 = ret []"
| "dc_fetch_loop (Suc n) =
     bind_st dc_fetch_one (\<lambda>row. case row of
       None \<Rightarrow> ret [] | Some d \<Rightarrow> bind_st (dc_fetch_loop n) (\<lambda>ds. ret (d # ds)))"

definition dc_fetch_many :: "nat option \<Rightarrow> ('x dict_cursor, 'x row_dict list) rs" where
  "dc_fetch_many req =
     bind_st get_st (\<lambda>dc.
     dc_fetch_loop (case req of Some n \<Rightarrow> n | None \<Rightarrow> cu_array_size (dc_inner dc)))"

definition rows_left :: "'x cursor \<Rightarrow> 'x mysql_value list list" where
  "rows_left cu = (case cu_rows cu of Some rows \<Rightarrow> drop (cu_row_number cu) rows | None \<Rightarrow> [])"

lemma cu_fetch_one_eq:
  "cu_fetch_one cu =
     (if cu_executed cu = None then (Inl (Fail execute_first_error), cu)
      else (case rows_left cu of
          [] \<Rightarrow> (Inr None, cu)
        | row # _ \<Rightarrow> (Inr (Some row), cu\<lparr>cu_row_number := cu_row_number cu + 1\<rparr>)))"
proof (cases "cu_rows cu")
  case (Some rows)
  show ?thesis
  proof (cases "length rows \<le> cu_row_number cu")
    case False
    then have "drop (cu_row_number cu) rows = rows ! cu_row_number cu # drop (Suc (cu_row_number cu)) rows"
      by (simp add: Cons_nth_drop_Suc)
    with False Some show ?thesis
      by (simp add: cu_fetch_one_def cu_check_executed_def st_simps rows_left_def)
  qed (use Some in \<open>simp add: cu_fetch_one_def cu_check_executed_def st_simps rows_left_def\<close>)
qed (simp add: cu_fetch_one_def cu_check_executed_def st_simps rows_left_def)

lemma ensure_fields_inner [simp]: "dc_inner (ensure_fields dc) = dc_inner dc"
  by (simp add: ensure_fields_def build_fields_def)

lemma rows_left_step:
  "rows_left cu = row # rest \<Longrightarrow> rows_left (cu\<lparr>cu_row_number := cu_row_number cu + 1\<rparr>) = rest"
  by (auto simp: rows_left_def drop_Suc split: option.splits) (metis drop_Suc list.sel(3) tl_drop)

lemma dc_fetch_one_eq:
  "dc_fetch_one dc =
     (case cu_fetch_one (dc_inner dc) of (r, cu) \<Rightarrow>
        (map_sum id (map_option (row_dict (dc_fields (ensure_fields dc)))) r, (ensure_fields dc)\<lparr>dc_inner := cu\<rparr>))"
  by (auto simp: dc_fetch_one_def st_simps on_cursor_def split: prod.splits sum.splits)

function dc_fetch_all :: "('x dict_cursor, 'x row_dict list) rs" where
  "dc_fetch_all dc =
     (case dc_fetch_one dc of
        (Inl e, dc') \<Rightarrow> (Inl e, dc')
      | (Inr None, dc') \<Rightarrow> (Inr [], dc')
      | (Inr (Some d), dc') \<Rightarrow>
          (case dc_fetch_all dc' of (Inl e, dc'') \<Rightarrow> (Inl e, dc'') | (Inr ds, dc'') \<Rightarrow> (Inr (d # ds), dc'')))"
  by pat_completeness auto
termination
proof (relation "measure (\<lambda>dc. length (rows_left (dc_inner dc)))", goal_cases)
  case (2 dc x dc' y d)
  then show ?case
    by (auto simp: dc_fetch_one_eq cu_fetch_one_eq split: if_splits list.splits prod.splits dest!: rows_left_step)
qed simp

declare dc_fetch_all.simps [simp del]

definition dc_scroll :: "int \<Rightarrow> string \<Rightarrow> ('x dict_cursor, unit) rs" where
  "dc_scroll val mode = on_cursor (cu_scroll val mode)"

end
