(* ===== verification/Cursor_Unbuffered.thy ===== *)
theory Cursor_Unbuffered
  imports Cursor
begin

text \<open>
  The unbuffered cursors of \<^verbatim>\<open>mysql/src/cursor.rs\<close>, which read every row from the server when it is fetched,
  with the termination of their loops: every row that is returned has used up input.
\<close>

section \<open>The unbuffered cursor\<close>

record 'x ucursor =
  uc_connection :: "'x client"
  uc_array_size :: nat
  uc_row_number :: nat
  uc_row_count :: int
  uc_description :: "column_description list option"
  uc_executed :: bool
  uc_closed :: bool

definition ucursor_new :: "'x client \<Rightarrow> 'x ucursor" where
  "ucursor_new k = \<lparr>uc_connection = k, uc_array_size = 1, uc_row_number = 0, uc_row_count = - 1,
     uc_description = None, uc_executed = False, uc_closed = False\<rparr>"

definition on_uconn :: "('x client, 'a) rs \<Rightarrow> ('x ucursor, 'a) rs" where
  "on_uconn m uc = (case m (uc_connection uc) of (r, k) \<Rightarrow> (r, uc\<lparr>uc_connection := k\<rparr>))"

definition uc_check_closed :: "('x ucursor, unit) rs" where
  "uc_check_closed uc = (if uc_closed uc then err cursor_closed_error uc else (Inr (), uc))"

definition uc_check_executed :: "('x ucursor, unit) rs" where
  "uc_check_executed uc = (if \<not> uc_executed uc then err execute_first_error uc else (Inr (), uc))"

definition uc_close :: "'x env \<Rightarrow> ('x ucursor, unit) rs" where
  "uc_close V =
     bind_st get_st (\<lambda>uc.
     if uc_closed uc then ret ()
     else
       bind_st (on_uconn (client_finish_unbuffered_query V)) (\<lambda>_.
       modify_st (\<lambda>uc. uc\<lparr>uc_closed := True\<rparr>)))"

definition uc_drop :: "'x ucursor \<Rightarrow> 'x ucursor" where
  "uc_drop uc = (if \<not> uc_closed uc then uc\<lparr>uc_closed := True\<rparr> else uc)"

definition refresh_description :: "'x ucursor \<Rightarrow> 'x ucursor" where
  "refresh_description uc =
     uc\<lparr>uc_description := Option.bind (cn_result (cl_inner (uc_connection uc))) mr_description\<rparr>"

definition uconn_mogrify :: "'x env \<Rightarrow> string \<Rightarrow> 'x mysql_value list option \<Rightarrow> ('x ucursor, string) rs" where
  "uconn_mogrify V query args =
     bind_st get_st (\<lambda>uc. lift_err (client_mogrify V (uc_connection uc) query args))"

definition uc_mogrify :: "'x env \<Rightarrow> string \<Rightarrow> 'x mysql_value list option \<Rightarrow> ('x ucursor, string) rs" where
  "uc_mogrify V query args = bind_st uc_check_closed (\<lambda>_. uconn_mogrify V query args)"

definition uc_execute :: "'x world \<Rightarrow> string \<Rightarrow> 'x mysql_value list option \<Rightarrow> ('x ucursor, int) rs" where
  "uc_execute W query args =
     bind_st uc_check_closed (\<lambda>_.
     bind_st (uconn_mogrify (w_env W) query args) (\<lambda>query.
     bind_st (on_uconn (client_query W query True)) (\<lambda>affected.
     bind_st (modify_st (\<lambda>uc. refresh_description (uc\<lparr>uc_executed := True, uc_row_number := 0, uc_row_count := affected\<rparr>))) (\<lambda>_.
     ret affected))))"

definition uc_execute_many :: "captures \<Rightarrow> 'x world \<Rightarrow> string \<Rightarrow> 'x mysql_value list list \<Rightarrow> ('x ucursor, int) rs" where
  "uc_execute_many re W query args_list =
     bind_st uc_check_closed (\<lambda>_.
     if args_list = [] then ret 0
     else
       bind_st
         (case re query of
            Some (prefix, values, postfix) \<Rightarrow>
              bulk_loop (uc_execute W) (uconn_mogrify (w_env W)) prefix values postfix 0 prefix 0 args_list
          | None \<Rightarrow> execute_each (uc_execute W) query 0 args_list) (\<lambda>n.
       bind_st (modify_st (\<lambda>uc. uc\<lparr>uc_row_count := n\<rparr>)) (\<lambda>_. ret n)))"

section \<open>Fetching\<close>

text \<open>One row of the server, counted.\<close>

definition uc_next_row :: "'x env \<Rightarrow> ('x ucursor, 'x mysql_value list option) rs" where
  "uc_next_row V =
     bind_st (on_uconn (next_unbuffered_row V)) (\<lambda>row.
     bind_st (modify_st (\<lambda>uc. if row \<noteq> None then uc\<lparr>uc_row_number := uc_row_number uc + 1\<rparr> else uc)) (\<lambda>_. ret row))"

definition uc_fetch_one :: "'x env \<Rightarrow> ('x ucursor, 'x mysql_value list option) rs" where
  "uc_fetch_one V = bind_st uc_check_closed (\<lambda>_. bind_st uc_check_executed (\<lambda>_. uc_next_row V))"

fun uc_fetch_loop :: "'x env \<Rightarrow> nat \<Rightarrow> ('x ucursor, 'x mysql_value list list) rs" where
  "uc_fetch_loop V 0 = ret []"
| "uc_fetch_loop V (Suc n) =
     bind_st (uc_next_row V) (\<lambda>row. case row of
       None \<Rightarrow> ret [] | Some r \<Rightarrow> bind_st (uc_fetch_loop V n) (\<lambda>rs. ret (r # rs)))"

definition uc_fetch_many :: "'x env \<Rightarrow> nat option \<Rightarrow> ('x ucursor, 'x mysql_value list list) rs" where
  "uc_fetch_many V req =
     bind_st uc_check_closed (\<lambda>_.
     bind_st uc_check_executed (\<lambda>_.
     bind_st get_st (\<lambda>uc.
     uc_fetch_loop V (case req of Some n \<Rightarrow> n | None \<Rightarrow> uc_array_size uc))))"

lemma next_unbuffered_row_shrinks:
  "next_unbuffered_row V k = (Inr (Some row), k') \<Longrightarrow> (k', k) \<in> shorter"
proof (induction k rule: wf_induct_rule [OF wf_shorter])
  case (1 k)
  obtain x k1 where rd: "client_read_packet V k = (x, k1)" by fastforce
  show ?case
  proof (cases "unbuffered_active k \<and> (\<exists>p. x = Inr p)")
    case True
    then obtain p where p: "unbuffered_active k" "x = Inr p" by blast
    obtain y k2 where o: "on_result (read_rowdata_packet_unbuffered V p) k1 = (y, k2)" by fastforce
    have s: "(k2, k) \<in> shorter"
      using client_read_packet_shrinks [of V k p k1] rd p on_result_shorter [OF o] by blast
    note unf = next_unbuffered_row.simps [of V k, unfolded rd p(2) prod.case sum.case o]
    show ?thesis
      using 1(2) 1(1) [OF s] p(1) s shorter_trans unfolding unf by (auto split: sum.splits option.splits)
  next
    case False
    with 1(2) rd show ?thesis by (subst (asm) next_unbuffered_row.simps) (auto split: if_splits sum.splits)
  qed
qed

lemma uc_next_row_shrinks:
  "uc_next_row V uc = (Inr (Some row), uc') \<Longrightarrow> (uc_connection uc', uc_connection uc) \<in> shorter"
  by (auto simp: uc_next_row_def st_simps on_uconn_def dest!: next_unbuffered_row_shrinks split: prod.splits sum.splits)

function uc_fetch_rest :: "'x env \<Rightarrow> ('x ucursor, 'x mysql_value list list) rs" where
  "uc_fetch_rest V uc =
     (case uc_next_row V uc of
        (Inl e, uc') \<Rightarrow> (Inl e, uc')
      | (Inr None, uc') \<Rightarrow> (Inr [], uc')
      | (Inr (Some r), uc') \<Rightarrow>
          (case uc_fetch_rest V uc' of (Inl e, uc'') \<Rightarrow> (Inl e, uc'') | (Inr rs, uc'') \<Rightarrow> (Inr (r # rs), uc'')))"
  by pat_completeness auto
termination
  by (relation "inv_image shorter (\<lambda>(_, uc). uc_connection uc)") (auto dest!: sym [of "(_, _)"] uc_next_row_shrinks)

declare uc_fetch_rest.simps [simp del]

definition uc_fetch_all :: "'x env \<Rightarrow> ('x ucursor, 'x mysql_value list list) rs" where
  "uc_fetch_all V = bind_st uc_check_closed (\<lambda>_. bind_st uc_check_executed (\<lambda>_. uc_fetch_rest V))"

section \<open>Moving\<close>

definition backwards_error :: error where
  "backwards_error = NotSupportedError CR_UNKNOWN_ERROR ''Backwards scrolling not supported by this cursor''"

text \<open>The number of rows to skip; \<open>value as usize\<close> of a negative value is its two's complement.\<close>

definition scroll_skip :: "int \<Rightarrow> string \<Rightarrow> nat \<Rightarrow> error + nat" where
  "scroll_skip val mode row_number =
     (if mode = ''relative'' then (if val < 0 then Inl backwards_error else Inr (nat val))
      else if mode = ''absolute'' then
        (let target = nat (val mod 2 ^ 64)
         in if target < row_number then Inl backwards_error else Inr (target - row_number))
      else Inl (unknown_scroll_mode mode))"

fun skip_rows :: "'x env \<Rightarrow> nat \<Rightarrow> ('x ucursor, unit) rs" where
  "skip_rows V 0 = ret ()"
| "skip_rows V (Suc n) =
     bind_st (uc_next_row V) (\<lambda>row. if row = None then err out_of_range else skip_rows V n)"

definition uc_scroll :: "'x env \<Rightarrow> int \<Rightarrow> string \<Rightarrow> ('x ucursor, unit) rs" where
  "uc_scroll V val mode =
     bind_st uc_check_closed (\<lambda>_.
     bind_st uc_check_executed (\<lambda>_.
     bind_st get_st (\<lambda>uc.
     bind_st (lift_err (scroll_skip val mode (uc_row_number uc))) (\<lambda>skip. skip_rows V skip))))"

definition uc_next_set :: "'x world \<Rightarrow> ('x ucursor, bool) rs" where
  "uc_next_set W =
     bind_st uc_check_closed (\<lambda>_.
     bind_st (on_uconn (client_finish_unbuffered_query (w_env W))) (\<lambda>_.
     bind_st get_st (\<lambda>uc.
     if \<not> (case cn_result (cl_inner (uc_connection uc)) of Some r \<Rightarrow> mr_has_next r | None \<Rightarrow> False) then ret False
     else
       bind_st (on_uconn (client_next_result W True)) (\<lambda>_.
       bind_st (modify_st (\<lambda>uc. refresh_description (uc\<lparr>uc_row_number := 0\<rparr>))) (\<lambda>_. ret True)))))"

section \<open>Rows as dictionaries\<close>

record 'x udict_cursor =
  ud_inner :: "'x ucursor"
  ud_fields :: "string list"
  ud_fields_dirty :: bool

definition udict_cursor_new :: "'x ucursor \<Rightarrow> 'x udict_cursor" where
  "udict_cursor_new uc = \<lparr>ud_inner = uc, ud_fields = [], ud_fields_dirty = True\<rparr>"

definition on_ucursor :: "('x ucursor, 'a) rs \<Rightarrow> ('x udict_cursor, 'a) rs" where
  "on_ucursor m ud = (case m (ud_inner ud) of (r, uc) \<Rightarrow> (r, ud\<lparr>ud_inner := uc\<rparr>))"

definition ud_ensure_fields :: "'x udict_cursor \<Rightarrow> 'x udict_cursor" where
  "ud_ensure_fields ud =
     (if ud_fields_dirty ud
      then ud\<lparr>ud_fields := description_names (uc_description (ud_inner ud)), ud_fields_dirty := False\<rparr> else ud)"

definition ud_execute :: "'x world \<Rightarrow> string \<Rightarrow> 'x mysql_value list option \<Rightarrow> ('x udict_cursor, int) rs" where
  "ud_execute W query args =
     bind_st (on_ucursor (uc_execute W query args)) (\<lambda>affected.
     bind_st (modify_st (\<lambda>ud. ud\<lparr>ud_fields_dirty := True\<rparr>)) (\<lambda>_. ret affected))"

definition ud_execute_many :: "captures \<Rightarrow> 'x world \<Rightarrow> string \<Rightarrow> 'x mysql_value list list \<Rightarrow> ('x udict_cursor, int) rs" where
  "ud_execute_many re W query args_list = on_ucursor (uc_execute_many re W query args_list)"

definition ud_close :: "'x env \<Rightarrow> ('x udict_cursor, unit) rs" where
  "ud_close V = on_ucursor (uc_close V)"

definition ud_next_set :: "'x world \<Rightarrow> ('x udict_cursor, bool) rs" where
  "ud_next_set W =
     bind_st (on_ucursor (uc_next_set W)) (\<lambda>has_next.
     bind_st (modify_st (\<lambda>ud. ud\<lparr>ud_fields_dirty := True\<rparr>)) (\<lambda>_. ret has_next))"

definition ud_mogrify :: "'x env \<Rightarrow> string \<Rightarrow> 'x mysql_value list option \<Rightarrow> ('x udict_cursor, string) rs" where
  "ud_mogrify V query args = on_ucursor (uc_mogrify V query args)"

definition ud_fetch_one :: "'x env \<Rightarrow> ('x udict_cursor, 'x row_dict option) rs" where
  "ud_fetch_one V =
     bind_st (modify_st ud_ensure_fields) (\<lambda>_.
     bind_st (on_ucursor (uc_fetch_one V)) (\<lambda>row.
     bind_st get_st (\<lambda>ud. ret (map_option (row_dict (ud_fields ud)) row))))"

fun ud_fetch_loop :: "'x env \<Rightarrow> nat \<Rightarrow> ('x udict_cursor, 'x row_dict list) rs" where
  "ud_fetch_loop V 0 = ret []"
| "ud_fetch_loop V (Suc n) =
     bind_st (ud_fetch_one V) (\<lambda>row. case row of
       None \<Rightarrow> ret [] | Some d \<Rightarrow> bind_st (ud_fetch_loop V n) (\<lambda>ds. ret (d # ds)))"

definition ud_fetch_many :: "'x env \<Rightarrow> nat option \<Rightarrow> ('x udict_cursor, 'x row_dict list) rs" where
  "ud_fetch_many V req =
     bind_st get_st (\<lambda>ud.
     ud_fetch_loop V (case req of Some n \<Rightarrow> n | None \<Rightarrow> uc_array_size (ud_inner ud)))"

lemma ud_fetch_one_shrinks:
  "ud_fetch_one V ud = (Inr (Some d), ud') \<Longrightarrow> (uc_connection (ud_inner ud'), uc_connection (ud_inner ud)) \<in> shorter"
  by (auto simp: ud_fetch_one_def uc_fetch_one_def uc_check_closed_def uc_check_executed_def st_simps on_ucursor_def
      ud_ensure_fields_def dest!: uc_next_row_shrinks split: prod.splits sum.splits if_splits)

function ud_fetch_all :: "'x env \<Rightarrow> ('x udict_cursor, 'x row_dict list) rs" where
  "ud_fetch_all V ud =
     (case ud_fetch_one V ud of
        (Inl e, ud') \<Rightarrow> (Inl e, ud')
      | (Inr None, ud') \<Rightarrow> (Inr [], ud')
      | (Inr (Some d), ud') \<Rightarrow>
          (case ud_fetch_all V ud' of (Inl e, ud'') \<Rightarrow> (Inl e, ud'') | (Inr ds, ud'') \<Rightarrow> (Inr (d # ds), ud'')))"
  by pat_completeness auto
termination
  by (relation "inv_image shorter (\<lambda>(_, ud). uc_connection (ud_inner ud))")
    (auto dest!: sym [of "(_, _)"] ud_fetch_one_shrinks)

declare ud_fetch_all.simps [simp del]

definition ud_scroll :: "'x env \<Rightarrow> int \<Rightarrow> string \<Rightarrow> ('x udict_cursor, unit) rs" where
  "ud_scroll V val mode = on_ucursor (uc_scroll V val mode)"

end
