(* ===== verification/Row_Source.thy ===== *)
theory Row_Source
  imports Errors
begin

text \<open>
  The contract of the four cursors: fetching takes rows from the front of the list of those not yet fetched.
  \<open>row_fetcher\<close> is the interface that a program uses; \<open>row_source\<close> is the way three of the cursors implement it, a
  loop over a step that gives the next row.
\<close>

section \<open>Requests\<close>

datatype fetch_op = FetchOne | FetchMany nat | FetchAll

text \<open>What a request takes, and what is left.\<close>

fun abs_fetch :: "fetch_op \<Rightarrow> 'r list \<Rightarrow> 'r list \<times> 'r list" where
  "abs_fetch FetchOne xs = (take 1 xs, drop 1 xs)"
| "abs_fetch (FetchMany n) xs = (take n xs, drop n xs)"
| "abs_fetch FetchAll xs = (xs, [])"

fun abs_fetches :: "fetch_op list \<Rightarrow> 'r list \<Rightarrow> 'r list list \<times> 'r list" where
  "abs_fetches [] xs = ([], xs)"
| "abs_fetches (req # reqs) xs =
     (case abs_fetch req xs of (ys, zs) \<Rightarrow> case abs_fetches reqs zs of (yss, rest) \<Rightarrow> (ys # yss, rest))"

lemma abs_fetch_append: "fst (abs_fetch req xs) @ snd (abs_fetch req xs) = xs"
  by (cases req) (simp_all del: take_Suc drop_Suc One_nat_def)

lemma abs_fetches_append: "concat (fst (abs_fetches reqs xs)) @ snd (abs_fetches reqs xs) = xs"
proof (induction reqs arbitrary: xs)
  case (Cons req reqs)
  show ?case
    using Cons [of "snd (abs_fetch req xs)"] abs_fetch_append [of req xs]
    by (auto split: prod.splits)
qed simp

lemma abs_fetch_map: "abs_fetch req (map f xs) = map_prod (map f) (map f) (abs_fetch req xs)"
  by (cases req) (simp_all add: take_map drop_map)

lemma abs_fetches_map: "abs_fetches reqs (map f xs) = map_prod (map (map f)) (map f) (abs_fetches reqs xs)"
  by (induction reqs arbitrary: xs) (auto simp: abs_fetch_map split: prod.splits)

text \<open>A request on a cursor, given its three operations, and a sequence of requests.\<close>

fun fetch_by :: "('s, 'r option) rs \<Rightarrow> (nat \<Rightarrow> ('s, 'r list) rs) \<Rightarrow> ('s, 'r list) rs \<Rightarrow> fetch_op \<Rightarrow> ('s, 'r list) rs" where
  "fetch_by one many every FetchOne = bind_st one (\<lambda>row. ret (case row of Some r \<Rightarrow> [r] | None \<Rightarrow> []))"
| "fetch_by one many every (FetchMany n) = many n"
| "fetch_by one many every FetchAll = every"

fun fetches_by :: "('s, 'r option) rs \<Rightarrow> (nat \<Rightarrow> ('s, 'r list) rs) \<Rightarrow> ('s, 'r list) rs \<Rightarrow> fetch_op list \<Rightarrow> ('s, 'r list list) rs" where
  "fetches_by one many every [] = ret []"
| "fetches_by one many every (req # reqs) =
     bind_st (fetch_by one many every req) (\<lambda>rs. bind_st (fetches_by one many every reqs) (\<lambda>rss. ret (rs # rss)))"

definition size_ok :: "(nat \<Rightarrow> bool) \<Rightarrow> fetch_op \<Rightarrow> bool" where
  "size_ok ok req \<longleftrightarrow> (case req of FetchMany n \<Rightarrow> ok n | _ \<Rightarrow> True)"

section \<open>The interface\<close>

locale row_fetcher =
  fixes one :: "('s, 'r option) rs"
    and many :: "nat \<Rightarrow> ('s, 'r list) rs"
    and every :: "('s, 'r list) rs"
    and avail :: "'s \<Rightarrow> 'r list \<Rightarrow> bool"
    and ok :: "nat \<Rightarrow> bool"
  assumes one_takes: "avail s xs \<Longrightarrow>
      \<exists>s'. one s = (Inr (case xs of [] \<Rightarrow> None | x # _ \<Rightarrow> Some x), s') \<and> avail s' (drop 1 xs)"
    and many_takes: "avail s xs \<Longrightarrow> ok n \<Longrightarrow> \<exists>s'. many n s = (Inr (take n xs), s') \<and> avail s' (drop n xs)"
    and every_takes: "avail s xs \<Longrightarrow> \<exists>s'. every s = (Inr xs, s') \<and> avail s' []"
begin

lemma fetch_takes:
  assumes "avail s xs" and "size_ok ok req"
  shows "\<exists>s'. fetch_by one many every req s = (Inr (fst (abs_fetch req xs)), s') \<and> avail s' (snd (abs_fetch req xs))"
proof (cases req)
  case FetchOne
  with one_takes [OF assms(1)] show ?thesis by (cases xs) (auto simp: st_simps)
next
  case (FetchMany n)
  with many_takes [OF assms(1)] assms(2) show ?thesis by (simp add: size_ok_def)
next
  case FetchAll
  with every_takes [OF assms(1)] show ?thesis by simp
qed

lemma fetches_take:
  assumes "avail s xs" and "list_all (size_ok ok) reqs"
  shows "\<exists>s'. fetches_by one many every reqs s = (Inr (fst (abs_fetches reqs xs)), s') \<and> avail s' (snd (abs_fetches reqs xs))"
  using assms
proof (induction reqs arbitrary: s xs)
  case (Cons req reqs)
  from fetch_takes [OF Cons.prems(1)] Cons.prems(2) obtain s1 where
    s1: "fetch_by one many every req s = (Inr (fst (abs_fetch req xs)), s1)" "avail s1 (snd (abs_fetch req xs))" by auto
  from Cons.IH [OF s1(2)] Cons.prems(2) obtain s2 where
    "fetches_by one many every reqs s1 = (Inr (fst (abs_fetches reqs (snd (abs_fetch req xs)))), s2)"
      "avail s2 (snd (abs_fetches reqs (snd (abs_fetch req xs))))" by auto
  with s1(1) show ?case by (auto simp: st_simps split: prod.splits)
qed (simp add: ret_def)

end

section \<open>Fetching with a loop\<close>

text \<open>\<open>ended\<close> holds after the step has reported that there are no more rows.\<close>

locale row_source =
  fixes next_row :: "('s, 'r option) rs"
    and avail :: "'s \<Rightarrow> 'r list \<Rightarrow> bool"
    and ended :: "'s \<Rightarrow> bool"
    and fetch_loop :: "nat \<Rightarrow> ('s, 'r list) rs"
    and fetch_rest :: "('s, 'r list) rs"
  assumes next_Cons: "avail s (x # xs) \<Longrightarrow> \<exists>s'. next_row s = (Inr (Some x), s') \<and> avail s' xs"
    and next_Nil: "avail s [] \<Longrightarrow> \<exists>s'. next_row s = (Inr None, s') \<and> avail s' [] \<and> ended s'"
    and loop_0: "fetch_loop 0 = ret []"
    and loop_Suc: "fetch_loop (Suc n) =
      bind_st next_row (\<lambda>row. case row of None \<Rightarrow> ret [] | Some r \<Rightarrow> bind_st (fetch_loop n) (\<lambda>rs. ret (r # rs)))"
    and rest_eq: "fetch_rest s =
      (case next_row s of
         (Inl e, s') \<Rightarrow> (Inl e, s')
       | (Inr None, s') \<Rightarrow> (Inr [], s')
       | (Inr (Some r), s') \<Rightarrow>
           (case fetch_rest s' of (Inl e, s'') \<Rightarrow> (Inl e, s'') | (Inr rs, s'') \<Rightarrow> (Inr (r # rs), s'')))"
begin

lemma next_takes:
  "avail s xs \<Longrightarrow> \<exists>s'. next_row s = (Inr (case xs of [] \<Rightarrow> None | x # _ \<Rightarrow> Some x), s') \<and> avail s' (drop 1 xs)"
  using next_Cons [of s "hd xs" "tl xs"] next_Nil [of s] by (cases xs) auto

lemma loop_takes: "avail s xs \<Longrightarrow> \<exists>s'. fetch_loop n s = (Inr (take n xs), s') \<and> avail s' (drop n xs)"
proof (induction n arbitrary: s xs)
  case 0
  then show ?case by (simp add: loop_0 ret_def)
next
  case (Suc n)
  show ?case
  proof (cases xs)
    case Nil
    with Suc.prems next_Nil [of s] show ?thesis by (auto simp: loop_Suc st_simps)
  next
    case (Cons x ys)
    from next_Cons [OF Suc.prems [unfolded Cons]] obtain s1 where s1: "next_row s = (Inr (Some x), s1)" "avail s1 ys" by blast
    from Suc.IH [OF s1(2)] s1(1) show ?thesis by (auto simp: loop_Suc st_simps Cons)
  qed
qed

lemma rest_takes: "avail s xs \<Longrightarrow> \<exists>s'. fetch_rest s = (Inr xs, s') \<and> avail s' [] \<and> ended s'"
proof (induction xs arbitrary: s)
  case Nil
  from next_Nil [OF Nil] show ?case by (subst rest_eq) auto
next
  case (Cons x xs)
  from next_Cons [OF Cons.prems] obtain s1 where s1: "next_row s = (Inr (Some x), s1)" "avail s1 xs" by blast
  from Cons.IH [OF s1(2)] s1(1) show ?case by (subst rest_eq) auto
qed

end

sublocale row_source \<subseteq> row_fetcher next_row fetch_loop fetch_rest avail "\<lambda>_. True"
  using next_takes loop_takes rest_takes by unfold_locales blast+

end
