(* ===== verification/Cursor_Correct.thy ===== *)
theory Cursor_Correct
  imports Cursor_Unbuffered Row_Source
begin

text \<open>
  What the cursors guarantee: all four satisfy the contract \<open>row_fetcher\<close>, so fetching consumes the rows in order (a
  refinement of an abstract row list), and the unbuffered cursors give the rows of the buffered ones.
\<close>

section \<open>Unbuffered reading of a result set\<close>

text \<open>The packets of a result set up to the first row.\<close>

definition header_packets :: "bytes list \<Rightarrow> u16 \<Rightarrow> u16 \<Rightarrow> bytes list" where
  "header_packets cols w1 s1 = lenenc_int (length cols) # cols @ [eof_packet w1 s1]"

lemma resultset_split:
  "resultset_packets cols rows w1 s1 w2 s2 = header_packets cols w1 s1 @ map text_row rows @ [eof_packet w2 s2]"
  by (simp add: resultset_packets_def header_packets_def)

text \<open>A result whose rows are still to be read from the server.\<close>

definition streaming :: "'x env \<Rightarrow> 'x connection \<Rightarrow> field_descriptor_packet list \<Rightarrow> 'x mysql_result \<Rightarrow> bool" where
  "streaming V c fs r \<longleftrightarrow> mr_unbuffered_active r \<and> mr_converters r = map (\<lambda>f. build_converter V f c) fs \<and>
     mr_description r = Some (map description fs)"

lemma feed_header:
  assumes "list_all2 (\<lambda>d f. field_parse (env_encodings V) d (cn_encoding conn) = Inr f) cols fs"
    and "cols \<noteq> []" and "length cols < 2 ^ 64"
  shows "\<exists>r. feed_packets V conn (header_packets cols w1 s1) (result_new\<lparr>mr_unbuffered_active := True\<rparr>) =
    (Inr (FR_UnbufferedReady, []), r) \<and> streaming V conn fs r \<and> mr_affected_rows r = 0"
proof -
  let ?r = "result_new\<lparr>mr_unbuffered_active := True\<rparr> :: 'a mysql_result"
  have len: "length fs = length cols" using assms(1) by (simp add: list_all2_lengthD)
  have n: "unat (word_of_nat (length cols) :: u64) = length cols" using assms(3) by (simp add: unat_of_nat)
  let ?r1 = "?r\<lparr>mr_field_count := word_of_nat (length cols), mr_fields := [], mr_converters := [],
    mr_description := None, mr_rows := None, mr_read_state := RS_Descriptions\<rparr>"
  let ?r2 = "?r1\<lparr>mr_converters := map (\<lambda>f. build_converter V f conn) fs, mr_fields := fs\<rparr>"
  have i: "mr_read_state ?r = RS_Initial" "0 < length cols" using assms(2) by (simp_all add: result_new_def)
  have "feed_packets V conn (header_packets cols w1 s1) ?r = feed_packets V conn (cols @ [eof_packet w1 s1]) ?r1"
    using feed_count [OF i assms(3), of V conn] by (simp add: header_packets_def bind_st_def)
  also have "\<dots> = feed_packets V conn [eof_packet w1 s1] ?r2"
    using feed_columns [OF _ assms(1), of ?r1] n by simp
  also have "\<dots> = (Inr (FR_UnbufferedReady, []),
      (stored_eof w1 s1 ?r2)\<lparr>mr_description := Some (map description fs), mr_read_state := RS_UnbufferedReady\<rparr>)"
    using feed_columns_end [of ?r2 V w1 s1 conn] n len by (simp add: st_simps)
  finally show ?thesis
    by (simp add: streaming_def store_eof_def result_new_def)
qed

lemma rowdata_row:
  assumes "streaming V c fs r" and "row_ok (length fs) cells"
  shows "\<exists>r'. read_rowdata_packet_unbuffered V (packet_new (text_row cells)) r = (Inr (Some (decode_row V c fs cells)), r') \<and>
    streaming V c fs r'"
proof -
  let ?r = "r\<lparr>mr_affected_rows := 1\<rparr>"
  have "cells \<noteq> []" using assms(2) by (simp add: row_ok_def)
  then have "check_packet_is_eof (packet_new (text_row cells)) r = (Inr False, r)"
    by (simp add: check_packet_is_eof_def text_row_kind ret_def)
  moreover have "read_row_from_packet V (packet_new (text_row cells)) ?r = (Inr (decode_row V c fs cells), ?r)"
    using assms by (intro read_row_text_row) (simp_all add: streaming_def)
  ultimately show ?thesis
    using assms(1) by (simp add: read_rowdata_packet_unbuffered_def st_simps streaming_def)
qed

lemma rowdata_end:
  "mr_unbuffered_active r \<Longrightarrow> read_rowdata_packet_unbuffered V (packet_new (eof_packet w s)) r =
     (Inr None, (stored_eof w s r)\<lparr>mr_unbuffered_active := False, mr_read_state := RS_Done\<rparr>)"
  using check_eof_eof [of w s r] by (simp add: read_rowdata_packet_unbuffered_def st_simps)

text \<open>The client while it streams.\<close>

definition client_streams :: "'x env \<Rightarrow> 'x connection \<Rightarrow> field_descriptor_packet list \<Rightarrow> 'x client \<Rightarrow> bool" where
  "client_streams V c fs k \<longleftrightarrow> (\<exists>r. cn_result (cl_inner k) = Some r \<and> streaming V c fs r)"

definition set_res :: "'x mysql_result \<Rightarrow> 'x client \<Rightarrow> 'x client" where
  "set_res r k = k\<lparr>cl_inner := (cl_inner k)\<lparr>cn_result := Some r\<rparr>\<rparr>"

lemma set_res_sees [simp]: "client_sees fin ps es (set_res r k) = client_sees fin ps es k"
  by (simp add: client_sees_def Let_def set_res_def)

lemma receives_result: "receives k k' \<Longrightarrow> cn_result (cl_inner k') = cn_result (cl_inner k)"
  by (auto simp: receives_def)

lemma stream_row:
  assumes "client_streams V c fs k" and "row_ok (length fs) cells" and "client_sees fin (text_row cells # ps) es k"
  shows "\<exists>k1 r. next_unbuffered_row V k = (Inr (Some (decode_row V c fs cells)), set_res r k1) \<and>
    receives k k1 \<and> client_sees fin ps es k1 \<and> streaming V c fs r"
proof -
  obtain r where r: "cn_result (cl_inner k) = Some r" "streaming V c fs r"
    using assms(1) by (auto simp: client_streams_def)
  obtain k1 where k1: "client_read_packet V k = (Inr (packet_new (text_row cells)), k1)" "client_sees fin ps es k1" "receives k k1"
    using assms(3) by (rule net_source.next_seesE)
  obtain r' where r': "read_rowdata_packet_unbuffered V (packet_new (text_row cells)) r = (Inr (Some (decode_row V c fs cells)), r')"
      "streaming V c fs r'"
    using rowdata_row [OF r(2) assms(2)] by blast
  have "unbuffered_active k" using r by (simp add: unbuffered_active_def streaming_def)
  then have "next_unbuffered_row V k = (Inr (Some (decode_row V c fs cells)), set_res r' k1)"
    using k1(1) r'(1) receives_result [OF k1(3)] r(1)
    by (subst next_unbuffered_row.simps) (simp add: on_result_def set_res_def)
  with k1 r' show ?thesis by blast
qed

lemma stream_end:
  assumes "client_streams V c fs k" and "client_sees fin [eof_packet w s] es k"
  shows "\<exists>k1 r. next_unbuffered_row V k = (Inr None, set_res r k1) \<and> receives k k1 \<and> client_sees fin [] es k1 \<and>
    \<not> mr_unbuffered_active r \<and> mr_has_next r = bit s 3"
proof -
  obtain r where r: "cn_result (cl_inner k) = Some r" "streaming V c fs r"
    using assms(1) by (auto simp: client_streams_def)
  obtain k1 where k1: "client_read_packet V k = (Inr (packet_new (eof_packet w s)), k1)" "client_sees fin [] es k1" "receives k k1"
    using assms(2) by (rule net_source.next_seesE)
  let ?r = "(stored_eof w s r)\<lparr>mr_unbuffered_active := False, mr_read_state := RS_Done\<rparr>"
  have a: "unbuffered_active k" "\<not> unbuffered_active (set_res ?r k1)"
    using r by (simp_all add: unbuffered_active_def streaming_def set_res_def)
  have "next_unbuffered_row V k = next_unbuffered_row V (set_res ?r k1)"
    using k1(1) rowdata_end [of r V w s] receives_result [OF k1(3)] r a(1)
    by (subst next_unbuffered_row.simps) (simp add: on_result_def set_res_def streaming_def)
  also have "\<dots> = (Inr None, set_res ?r k1)" using a(2) by (subst next_unbuffered_row.simps) simp
  finally show ?thesis using k1 by (intro exI [of _ k1] exI [of _ ?r]) (simp add: store_eof_def)
qed

text \<open>What reading leaves alone.\<close>

definition same_link :: "'x client \<Rightarrow> 'x client \<Rightarrow> bool" where
  "same_link k k' \<longleftrightarrow> cl_stream k' = cl_stream k \<and> cl_wfail k' = cl_wfail k \<and> cl_out k' = cl_out k \<and>
     cn_closed (cl_inner k') = cn_closed (cl_inner k) \<and>
     ps_send_queue (cn_packet_stream (cl_inner k')) = ps_send_queue (cn_packet_stream (cl_inner k))"

lemma same_link_trans: "same_link k k' \<Longrightarrow> same_link k' k'' \<Longrightarrow> same_link k k''"
  by (simp add: same_link_def)

lemma same_link_receives: "receives k k' \<Longrightarrow> same_link k (set_res r k')"
  by (auto simp: receives_def same_link_def set_res_def)

lemma same_link_idle:
  assumes "same_link k k'" and "client_idle k" and "client_sees fin [] es k'" and "settled (cn_result (cl_inner k'))"
  shows "client_idle k'"
  using assms sees_nothing [OF assms(3)] by (simp add: same_link_def client_idle_def Let_def)

lemma uc_next_row_step:
  "next_unbuffered_row V (uc_connection uc) = (Inr (Some row), k') \<Longrightarrow>
     uc_next_row V uc = (Inr (Some row), uc\<lparr>uc_connection := k', uc_row_number := uc_row_number uc + 1\<rparr>)"
  "next_unbuffered_row V (uc_connection uc) = (Inr None, k') \<Longrightarrow> uc_next_row V uc = (Inr None, uc\<lparr>uc_connection := k'\<rparr>)"
  by (simp_all add: uc_next_row_def st_simps on_uconn_def)

text \<open>The connection once the end of the rows has been read.\<close>

definition streamed :: "u8 \<Rightarrow> u16 \<Rightarrow> read_event list \<Rightarrow> 'x client \<Rightarrow> bool" where
  "streamed fin s es k \<longleftrightarrow> client_sees fin [] es k \<and>
     (\<exists>r. cn_result (cl_inner k) = Some r \<and> \<not> mr_unbuffered_active r \<and> mr_has_next r = bit s 3)"

text \<open>
  The rows that an unbuffered cursor has left: those the server still sends on the connection \<open>k\<close> in whose
  state they were asked for.
\<close>

definition uc_left :: "'x env \<Rightarrow> 'x connection \<Rightarrow> field_descriptor_packet list \<Rightarrow> u8 \<Rightarrow> u16 \<Rightarrow> u16 \<Rightarrow> read_event list \<Rightarrow>
    'x client \<Rightarrow> 'x ucursor \<Rightarrow> 'x mysql_value list list \<Rightarrow> bool" where
  "uc_left V c fs fin w s es k uc xs \<longleftrightarrow>
     \<not> uc_closed uc \<and> uc_executed uc \<and> same_link k (uc_connection uc) \<and>
     ((\<exists>rows. xs = map (decode_row V c fs) rows \<and> list_all (row_ok (length fs)) rows \<and>
         client_streams V c fs (uc_connection uc) \<and>
         client_sees fin (map text_row rows @ [eof_packet w s]) es (uc_connection uc)) \<or>
      xs = [] \<and> streamed fin s es (uc_connection uc))"

lemma uc_left_Cons:
  assumes "uc_left V c fs fin w s es k uc (x # xs)"
  shows "\<exists>uc'. uc_next_row V uc = (Inr (Some x), uc') \<and> uc_left V c fs fin w s es k uc' xs"
proof -
  from assms obtain cells rows where rows: "x = decode_row V c fs cells" "xs = map (decode_row V c fs) rows"
      "row_ok (length fs) cells" "list_all (row_ok (length fs)) rows" "client_streams V c fs (uc_connection uc)"
      "client_sees fin (text_row cells # map text_row rows @ [eof_packet w s]) es (uc_connection uc)"
    and open_uc: "\<not> uc_closed uc" "uc_executed uc" "same_link k (uc_connection uc)"
    by (auto simp: uc_left_def Cons_eq_map_conv)
  from stream_row [OF rows(5,3,6)] obtain k1 r where
    k1: "next_unbuffered_row V (uc_connection uc) = (Inr (Some x), set_res r k1)" "receives (uc_connection uc) k1"
      "client_sees fin (map text_row rows @ [eof_packet w s]) es k1" "streaming V c fs r"
    unfolding rows(1) by blast
  have "client_streams V c fs (set_res r k1)" using k1(4) by (simp add: client_streams_def set_res_def)
  with k1 rows open_uc same_link_trans [OF open_uc(3) same_link_receives [OF k1(2), of r]] show ?thesis
    unfolding uc_next_row_step(1) [OF k1(1)] by (auto simp: uc_left_def)
qed

lemma uc_left_Nil:
  assumes "uc_left V c fs fin w s es k uc []"
  shows "\<exists>uc'. uc_next_row V uc = (Inr None, uc') \<and> uc_left V c fs fin w s es k uc' [] \<and> streamed fin s es (uc_connection uc')"
proof (cases "streamed fin s es (uc_connection uc)")
  case True
  then have "next_unbuffered_row V (uc_connection uc) = (Inr None, uc_connection uc)"
    by (subst next_unbuffered_row.simps) (auto simp: streamed_def unbuffered_active_def)
  with assms True show ?thesis using uc_next_row_step(2) [of V uc "uc_connection uc"] by simp
next
  case False
  with assms have uc: "client_streams V c fs (uc_connection uc)" "client_sees fin [eof_packet w s] es (uc_connection uc)"
      "\<not> uc_closed uc" "uc_executed uc" "same_link k (uc_connection uc)"
    by (auto simp: uc_left_def)
  from stream_end [OF uc(1,2)] obtain k1 r where
    k1: "next_unbuffered_row V (uc_connection uc) = (Inr None, set_res r k1)" "receives (uc_connection uc) k1" "client_sees fin [] es k1"
      "\<not> mr_unbuffered_active r" "mr_has_next r = bit s 3" by blast
  then have "streamed fin s es (set_res r k1)" by (simp add: streamed_def) (simp add: set_res_def)
  with uc same_link_trans [OF uc(5) same_link_receives [OF k1(2), of r]] show ?thesis
    unfolding uc_next_row_step(2) [OF k1(1)] by (auto simp: uc_left_def)
qed

section \<open>The contract of the cursors\<close>

interpretation stream_rows: row_source "uc_next_row V" "uc_left V c fs fin w s es k" "\<lambda>uc. streamed fin s es (uc_connection uc)"
    "uc_fetch_loop V" "uc_fetch_rest V"
  for V c fs fin w s es k
  by unfold_locales (auto intro: uc_left_Cons uc_left_Nil simp: uc_fetch_rest.simps [of V])

lemma uc_fetch_open:
  assumes "uc_left V c fs fin w s es k uc xs"
  shows "uc_fetch_one V uc = uc_next_row V uc" "uc_fetch_many V (Some n) uc = uc_fetch_loop V n uc"
    "uc_fetch_all V uc = uc_fetch_rest V uc"
  using assms
  by (simp_all add: uc_left_def uc_fetch_one_def uc_fetch_many_def uc_fetch_all_def uc_check_closed_def uc_check_executed_def st_simps)

interpretation unbuffered: row_fetcher "uc_fetch_one V" "\<lambda>n. uc_fetch_many V (Some n)" "uc_fetch_all V" "uc_left V c fs fin w s es k" "\<lambda>_. True"
  for V c fs fin w s es k
  by unfold_locales (simp_all only: uc_fetch_open stream_rows.one_takes stream_rows.many_takes stream_rows.every_takes)

text \<open>The dictionary cursors have the rows of the cursor inside, keyed by the names of the columns.\<close>

definition dc_left :: "string list \<Rightarrow> 'x dict_cursor \<Rightarrow> 'x row_dict list \<Rightarrow> bool" where
  "dc_left names dc xs \<longleftrightarrow> cu_executed (dc_inner dc) \<noteq> None \<and> dc_fields (ensure_fields dc) = names \<and>
     xs = map (row_dict names) (rows_left (dc_inner dc))"

definition ud_left :: "'x env \<Rightarrow> 'x connection \<Rightarrow> field_descriptor_packet list \<Rightarrow> u8 \<Rightarrow> u16 \<Rightarrow> u16 \<Rightarrow> read_event list \<Rightarrow>
    'x client \<Rightarrow> string list \<Rightarrow> 'x udict_cursor \<Rightarrow> 'x row_dict list \<Rightarrow> bool" where
  "ud_left V c fs fin w s es k names ud xs \<longleftrightarrow> ud_fields (ud_ensure_fields ud) = names \<and>
     (\<exists>ys. xs = map (row_dict names) ys \<and> uc_left V c fs fin w s es k (ud_inner ud) ys)"

lemma ensure_fields_again: "dc_fields (ensure_fields ((ensure_fields dc)\<lparr>dc_inner := cu\<rparr>)) = dc_fields (ensure_fields dc)"
  by (simp add: ensure_fields_def build_fields_def)

lemma ud_ensure_fields_again:
  "ud_fields (ud_ensure_fields ((ud_ensure_fields ud)\<lparr>ud_inner := uc\<rparr>)) = ud_fields (ud_ensure_fields ud)"
  "ud_inner (ud_ensure_fields ud) = ud_inner ud"
  by (simp_all add: ud_ensure_fields_def)

lemma ud_leftI:
  "uc_left V c fs fin w s es k uc ys \<Longrightarrow> ud_fields (ud_ensure_fields ud) = names \<Longrightarrow> uc = ud_inner ud \<Longrightarrow>
     ud_left V c fs fin w s es k names ud (map (row_dict names) ys)"
  by (auto simp: ud_left_def)

lemma ud_fetch_one_step:
  "uc_fetch_one V (ud_inner ud) = (Inr row, uc) \<Longrightarrow>
     ud_fetch_one V ud = (Inr (map_option (row_dict (ud_fields (ud_ensure_fields ud))) row), (ud_ensure_fields ud)\<lparr>ud_inner := uc\<rparr>)"
  by (simp add: ud_fetch_one_def st_simps on_ucursor_def ud_ensure_fields_again)

interpretation dict_rows: row_source dc_fetch_one "dc_left names" "\<lambda>_. True" dc_fetch_loop dc_fetch_all
  for names
proof (unfold_locales, goal_cases)
  case (1 dc x xs)
  then obtain row rest where "rows_left (dc_inner dc) = row # rest" "x = row_dict names row" "xs = map (row_dict names) rest"
    by (auto simp: dc_left_def Cons_eq_map_conv)
  with 1 show ?case
    by (auto simp: dc_left_def dc_fetch_one_eq cu_fetch_one_eq ensure_fields_again rows_left_step [simplified])
next
  case (2 dc)
  then show ?case by (auto simp: dc_left_def dc_fetch_one_eq cu_fetch_one_eq ensure_fields_again)
qed (auto simp: dc_fetch_all.simps)

interpretation udict_rows: row_source "ud_fetch_one V" "ud_left V c fs fin w s es k names" "\<lambda>_. True" "ud_fetch_loop V" "ud_fetch_all V"
  for V c fs fin w s es k names
proof (unfold_locales, goal_cases)
  case (1 ud x xs)
  then obtain y ys where y: "x = row_dict names y" "xs = map (row_dict names) ys" "uc_left V c fs fin w s es k (ud_inner ud) (y # ys)"
    by (auto simp: ud_left_def Cons_eq_map_conv)
  from uc_left_Cons [OF y(3)] obtain uc where "uc_next_row V (ud_inner ud) = (Inr (Some y), uc)" "uc_left V c fs fin w s es k uc ys"
    by blast
  with 1 y show ?case
    by (auto simp: ud_left_def ud_fetch_one_step uc_fetch_open [OF y(3)] ud_ensure_fields_again)
next
  case (2 ud)
  then have l: "uc_left V c fs fin w s es k (ud_inner ud) []" by (auto simp: ud_left_def)
  from uc_left_Nil [OF l] obtain uc where "uc_next_row V (ud_inner ud) = (Inr None, uc)" "uc_left V c fs fin w s es k uc []"
    by blast
  with 2 show ?case
    by (auto simp: ud_left_def ud_fetch_one_step uc_fetch_open [OF l] ud_ensure_fields_again)
qed (auto simp: ud_fetch_all.simps [of V])

text \<open>The position of a buffered cursor is inside the rows, and there are fewer rows than addresses.\<close>

definition cursor_wf :: "'x cursor \<Rightarrow> bool" where
  "cursor_wf cu \<longleftrightarrow> (\<forall>rows. cu_rows cu = Some rows \<longrightarrow> cu_row_number cu \<le> length rows \<and> length rows < 2 ^ 63)"

lemma drop_Cons_less: "drop n xs = y # ys \<Longrightarrow> n < length xs"
  by (rule ccontr) simp

definition small :: "nat \<Rightarrow> bool" where
  "small n \<longleftrightarrow> n < 2 ^ 63"

definition cu_left :: "'x cursor \<Rightarrow> 'x mysql_value list list \<Rightarrow> bool" where
  "cu_left cu xs \<longleftrightarrow> cursor_wf cu \<and> cu_executed cu \<noteq> None \<and> xs = rows_left cu"

lemma cu_left_one:
  assumes "cu_left cu xs"
  shows "\<exists>cu'. cu_fetch_one cu = (Inr (case xs of [] \<Rightarrow> None | x # _ \<Rightarrow> Some x), cu') \<and> cu_left cu' (drop 1 xs)"
proof (cases "rows_left cu")
  case (Cons row rest)
  then obtain rows where "cu_rows cu = Some rows" "cu_row_number cu < length rows"
    by (cases "cu_rows cu") (auto simp: rows_left_def dest: drop_Cons_less)
  with assms Cons rows_left_step [OF Cons] show ?thesis
    by (auto simp: cu_left_def cu_fetch_one_eq cursor_wf_def)
qed (use assms in \<open>auto simp: cu_left_def cu_fetch_one_eq\<close>)

lemma cu_left_many:
  assumes "cu_left cu xs" and "small n"
  shows "\<exists>cu'. cu_fetch_many (Some n) cu = (Inr (take n xs), cu') \<and> cu_left cu' (drop n xs)"
proof (cases "cu_rows cu")
  case (Some rows)
  have b: "cu_row_number cu \<le> length rows" "cu_row_number cu + n \<le> usize_max" "min (cu_row_number cu + n) (length rows) \<ge> cu_row_number cu"
    using assms Some by (auto simp: cu_left_def cursor_wf_def small_def usize_max_def)
  have "slice_of (cu_row_number cu) (min (cu_row_number cu + n) (length rows)) rows = take n (drop (cu_row_number cu) rows)"
    by (simp add: slice_of_def take_drop min_def add.commute)
  moreover have "drop (min (cu_row_number cu + n) (length rows)) rows = drop n (drop (cu_row_number cu) rows)"
    by (simp add: min_def add.commute)
  ultimately show ?thesis
    using assms(1) Some b
    by (simp add: cu_left_def cu_fetch_many_def cu_check_executed_def st_simps Let_def rows_left_def cursor_wf_def)
qed (use assms in \<open>simp add: cu_left_def cu_fetch_many_def cu_check_executed_def st_simps rows_left_def\<close>)

lemma cu_left_every:
  assumes "cu_left cu xs"
  shows "\<exists>cu'. cu_fetch_all cu = (Inr xs, cu') \<and> cu_left cu' []"
  using assms
  by (cases "cu_rows cu") (auto simp: cu_left_def cu_fetch_all_def cu_check_executed_def st_simps rows_left_def cursor_wf_def)

interpretation buffered: row_fetcher cu_fetch_one "\<lambda>n. cu_fetch_many (Some n)" cu_fetch_all cu_left small
  by unfold_locales (rule cu_left_one cu_left_many cu_left_every; assumption)+

text \<open>A sequence of requests on each of the cursors.\<close>

definition cu_fetches :: "fetch_op list \<Rightarrow> ('x cursor, 'x mysql_value list list list) rs" where
  "cu_fetches = fetches_by cu_fetch_one (\<lambda>n. cu_fetch_many (Some n)) cu_fetch_all"

definition uc_fetches :: "'x env \<Rightarrow> fetch_op list \<Rightarrow> ('x ucursor, 'x mysql_value list list list) rs" where
  "uc_fetches V = fetches_by (uc_fetch_one V) (\<lambda>n. uc_fetch_many V (Some n)) (uc_fetch_all V)"

definition dc_fetches :: "fetch_op list \<Rightarrow> ('x dict_cursor, 'x row_dict list list) rs" where
  "dc_fetches = fetches_by dc_fetch_one (\<lambda>n. dc_fetch_many (Some n)) dc_fetch_all"

definition ud_fetches :: "'x env \<Rightarrow> fetch_op list \<Rightarrow> ('x udict_cursor, 'x row_dict list list) rs" where
  "ud_fetches V = fetches_by (ud_fetch_one V) (\<lambda>n. ud_fetch_many V (Some n)) (ud_fetch_all V)"

lemma dict_many_loop: "dc_fetch_many (Some n) = dc_fetch_loop n" "ud_fetch_many V (Some n) = ud_fetch_loop V n"
  by (rule ext, simp add: dc_fetch_many_def ud_fetch_many_def st_simps)+

text \<open>C9: Fetching refines consuming the list of rows.  After a statement, any sequence of \<open>fetch_one\<close>, \<open>fetch_many\<close> and
  \<open>fetch_all\<close> returns what taking rows from the front of the list of remaining rows gives: no row is skipped,
  repeated or reordered, nothing fails, and the cursor's position always denotes the list that is left.\<close>

theorem fetches_refine:
  assumes "cursor_wf cu" and "cu_executed cu \<noteq> None" and "list_all (size_ok small) reqs"
  shows "\<exists>cu'. cu_fetches reqs cu = (Inr (fst (abs_fetches reqs (rows_left cu))), cu') \<and>
    rows_left cu' = snd (abs_fetches reqs (rows_left cu)) \<and>
    concat (fst (abs_fetches reqs (rows_left cu))) @ rows_left cu' = rows_left cu \<and> cursor_wf cu'"
proof -
  have "cu_left cu (rows_left cu)" using assms by (simp add: cu_left_def)
  from buffered.fetches_take [OF this assms(3)] show ?thesis
    using abs_fetches_append [of reqs "rows_left cu"] by (auto simp: cu_fetches_def cu_left_def)
qed

theorem fetches_refine_witness:
  "\<exists>cu'. cu_fetches [FetchOne, FetchMany 5]
      ((cursor_new sample_client)\<lparr>cu_executed := Some ''x'', cu_rows := Some [[VInt 1], [VInt 2], [VInt 3]]\<rparr>) =
    (Inr [[[VInt 1]], [[VInt 2], [VInt 3]]], cu')"
  using fetches_refine [of "(cursor_new sample_client)\<lparr>cu_executed := Some ''x'', cu_rows := Some [[VInt 1], [VInt 2], [VInt 3]]\<rparr>"
      "[FetchOne, FetchMany 5]"]
  by (auto simp: cursor_wf_def size_ok_def small_def cursor_new_def rows_left_def)

section \<open>All cursors give the same rows\<close>

lemma buffered_execute:
  assumes "client_idle k" and "reply_ok (w_env W) (cl_inner k) rp"
    and "cl_in k = map Recv segs @ es" and "arrives COM_QUERY (as_bytes sql) (reply_packets rp) segs"
  shows "\<exists>cu. cu_execute W sql None (cursor_new k) = (Inr (reply_affected rp), cu) \<and> cu_executed cu = Some sql \<and>
    rows_left cu = reply_rows (w_env W) (cl_inner k) rp \<and> (small (length (rows_left cu)) \<longrightarrow> cursor_wf cu) \<and>
    cu_description cu = reply_description (w_env W) (cl_inner k) rp \<and> cu_row_number cu = 0 \<and> client_idle (cu_connection cu) \<and>
    cl_in (cu_connection cu) = es \<and> cl_out (cu_connection cu) = cl_out k @ frames 0 (COM_QUERY # as_bytes sql)"
proof -
  obtain k' where k': "client_query W sql False k = (Inr (reply_affected rp), k')" "client_idle k'" "cl_in k' = es"
      "cl_out k' = cl_out k @ frames 0 (COM_QUERY # as_bytes sql)" "client_rows k' = reply_rows (w_env W) (cl_inner k) rp"
      "client_description k' = reply_description (w_env W) (cl_inner k) rp"
    using query_reply [OF assms] by blast
  have d: "drain_sets W (cursor_new k) = (Inr (), cursor_new k)"
    by (subst drain_sets.simps) (simp add: cu_next_set_def cursor_new_def)
  let ?cu = "(refresh_result ((cursor_new k)\<lparr>cu_connection := k'\<rparr>))\<lparr>cu_executed := Some sql\<rparr>"
  have "cu_execute W sql None (cursor_new k) = (Inr (reply_affected rp), ?cu)"
    using d k'(1)
    by (simp add: cu_execute_def st_simps cu_check_closed_def client_mogrify_def mogrify_query_def lift_err_def on_conn_def)
      (simp add: cursor_new_def st_simps)
  moreover have "rows_left ?cu = client_rows k'" "cu_description ?cu = client_description k'" "cu_connection ?cu = k'"
      "small (length (rows_left ?cu)) \<longrightarrow> cursor_wf ?cu" "cu_row_number ?cu = 0"
    by (auto simp: refresh_result_def cursor_new_def client_rows_def client_description_def rows_of_def rows_left_def cursor_wf_def
        small_def split: option.splits)
  ultimately show ?thesis using k' by (intro exI [of _ ?cu]) simp
qed

text \<open>Reading the header of a result set on behalf of an unbuffered cursor.\<close>

lemma unbuffered_header:
  assumes "reply_ok (w_env W) (cl_inner k) (RowsReply cols rows w1 s1 w2 s2)"
    and "client_sees fin (resultset_packets cols rows w1 s1 w2 s2) es k"
  shows "\<exists>k' r. client_read_query_result W True k = store_client_result r k' \<and> mr_affected_rows r = 0 \<and>
    streaming (w_env W) (cl_inner k) (parse_columns (w_env W) (cl_inner k) cols) r \<and>
    client_sees fin (map text_row rows @ [eof_packet w2 s2]) es k' \<and> receives k k'"
proof -
  let ?V = "w_env W"
  let ?fs = "parse_columns ?V (cl_inner k) cols"
  let ?r0 = "result_new\<lparr>mr_unbuffered_active := True\<rparr>"
  let ?hd = "header_packets cols w1 s1"
  have cols: "list_all2 (\<lambda>d f. field_parse (env_encodings ?V) d (cn_encoding (cl_inner k)) = Inr f) cols ?fs" "cols \<noteq> []" "length cols < 2 ^ 64"
    using assms(1) by (simp_all add: reply_ok_def parse_columns_ok)
  obtain r where r: "feed_packets ?V (cl_inner k) ?hd ?r0 = (Inr (FR_UnbufferedReady, []), r)" "streaming ?V (cl_inner k) ?fs r"
      "mr_affected_rows r = 0"
    using feed_header [OF cols, of w1 s1] by blast
  have sees: "client_sees fin (?hd @ map text_row rows @ [eof_packet w2 s2]) es k" using assms(2) by (simp add: resultset_split)
  obtain k1 where k1: "client_result_loop W False ?r0 k = store_client_result r k1"
      "client_sees fin ([] @ map text_row rows @ [eof_packet w2 s2]) es k1" "receives k k1"
    using net_loop.loop_feeds [OF r(1) _ sees receives_refl] by auto
  obtain p ps where "?hd = p # ps" "\<not> is_load_local_packet (packet_new p)"
    using reply_first [of ?V "cl_inner k" "RowsReply cols rows w1 s1 w2 s2"] assms(1)
    by (auto simp: reply_ok_def resultset_packets_def header_packets_def)
  then have "client_result_loop W True ?r0 k = client_result_loop W False ?r0 k"
    using sees by (auto intro: client_result_loop_first)
  with k1 r show ?thesis by (auto simp: client_read_query_result_def)
qed

lemma unbuffered_execute:
  assumes "client_idle k" and "reply_ok (w_env W) (cl_inner k) (RowsReply cols rows w1 s1 w2 s2)" and "cl_in k = map Recv segs @ es"
    and "arrives COM_QUERY (as_bytes sql) (resultset_packets cols rows w1 s1 w2 s2) segs"
  shows "\<exists>uc c fin. uc_execute W sql None (ucursor_new k) = (Inr 0, uc) \<and> same_codec (cl_inner k) c \<and>
    uc_left (w_env W) c (parse_columns (w_env W) c cols) fin w2 s2 es (uc_connection uc) uc
      (map (decode_row (w_env W) c (parse_columns (w_env W) c cols)) rows) \<and>
    uc_description uc = Some (map description (parse_columns (w_env W) c cols)) \<and>
    cl_stream (uc_connection uc) = cl_stream k \<and> cl_wfail (uc_connection uc) = cl_wfail k \<and>
    cn_closed (cl_inner (uc_connection uc)) = cn_closed (cl_inner k) \<and>
    ps_send_queue (cn_packet_stream (cl_inner (uc_connection uc))) = [] \<and>
    cl_out (uc_connection uc) = cl_out k @ frames 0 (COM_QUERY # as_bytes sql)"
proof -
  let ?V = "w_env W"
  let ?s = "sent_command COM_QUERY (as_bytes sql) k"
  let ?c = "cl_inner ?s"
  let ?fs = "parse_columns ?V ?c cols"
  note cod = sent_command_codec [of k COM_QUERY "as_bytes sql"]
  have ok: "reply_ok ?V ?c (RowsReply cols rows w1 s1 w2 s2)" using assms(2) same_codec_reply_ok [OF cod] by simp
  define fin where "fin = foldl seq_after (seq_after 0 (COM_QUERY # as_bytes sql)) (resultset_packets cols rows w1 s1 w2 s2)"
  have "resultset_packets cols rows w1 s1 w2 s2 \<noteq> []" by (simp add: resultset_packets_def)
  then have "client_sees fin (resultset_packets cols rows w1 s1 w2 s2) es ?s"
    unfolding fin_def using assms(2) by (intro sent_command_sees [OF assms(1,3,4)]) (simp_all add: reply_ok_def)
  from unbuffered_header [OF ok this] obtain k1 r where
    k1: "client_read_query_result W True ?s = store_client_result r k1" "mr_affected_rows r = 0" "streaming ?V ?c ?fs r"
      "client_sees fin (map text_row rows @ [eof_packet w2 s2]) es k1" "receives ?s k1" by blast
  let ?k = "k1\<lparr>cl_inner := core_set_result r (cl_inner k1)\<rparr>"
  let ?uc = "refresh_description ((ucursor_new k)\<lparr>uc_connection := ?k, uc_executed := True, uc_row_number := 0, uc_row_count := 0\<rparr>)"
  have "client_query W sql True k = (Inr 0, ?k)"
    using client_query_idle [OF assms(1)] k1(1,2) by (simp add: store_client_result_def)
  then have e: "uc_execute W sql None (ucursor_new k) = (Inr 0, ?uc)"
    by (simp add: uc_execute_def uconn_mogrify_def st_simps uc_check_closed_def client_mogrify_def mogrify_query_def lift_err_def
        on_uconn_def) (simp add: ucursor_new_def st_simps)
  have "list_all (row_ok (length ?fs)) rows" using ok by (simp add: reply_ok_def) (simp add: parse_columns_def)
  moreover have "client_streams ?V ?c ?fs ?k" using k1(3) by (simp add: client_streams_def core_set_result_def)
  moreover have "client_sees fin (map text_row rows @ [eof_packet w2 s2]) es ?k"
    using k1(4) by (simp add: client_sees_def core_set_result_def)
  ultimately have l: "uc_left ?V ?c ?fs fin w2 s2 es ?k ?uc (map (decode_row ?V ?c ?fs) rows)"
    by (auto simp: uc_left_def refresh_description_def ucursor_new_def same_link_def)
  have "uc_description ?uc = Some (map description ?fs)" "uc_connection ?uc = ?k"
    using k1(3) by (simp_all add: refresh_description_def core_set_result_def streaming_def)
  moreover have "cl_stream ?k = cl_stream k" "cl_wfail ?k = cl_wfail k" "cn_closed (cl_inner ?k) = cn_closed (cl_inner k)"
      "ps_send_queue (cn_packet_stream (cl_inner ?k)) = []" "cl_out ?k = cl_out k @ frames 0 (COM_QUERY # as_bytes sql)"
    using receives_sel [OF k1(5)] by (auto simp: sent_command_def core_set_result_def)
  ultimately show ?thesis using e l cod by (intro exI [of _ ?uc] exI [of _ ?c] exI [of _ fin]) (simp only:)
qed

text \<open>C7: The unbuffered cursor is equivalent to the buffered one.  For a statement answered by a result set, executing it
  and fetching all rows through an unbuffered cursor, which reads each row from the network when it is
  asked for, gives exactly the rows that the buffered cursor gives, decoded from the server's reply, sends the
  same bytes, consumes the same input and leaves the connection idle.\<close>

theorem unbuffered_equals_buffered:
  assumes "client_idle k" and "reply_ok (w_env W) (cl_inner k) (RowsReply cols rows w1 s1 w2 s2)"
    and "cl_in k = map Recv segs @ es"
    and "arrives COM_QUERY (as_bytes sql) (resultset_packets cols rows w1 s1 w2 s2) segs"
  shows "\<exists>res cu uc. bind_st (cu_execute W sql None) (\<lambda>_. cu_fetch_all) (cursor_new k) = (Inr res, cu) \<and>
    bind_st (uc_execute W sql None) (\<lambda>_. uc_fetch_all (w_env W)) (ucursor_new k) = (Inr res, uc) \<and>
    res = map (decode_row (w_env W) (cl_inner k) (parse_columns (w_env W) (cl_inner k) cols)) rows \<and>
    cl_out (uc_connection uc) = cl_out (cu_connection cu) \<and> cl_in (uc_connection uc) = es \<and> cl_in (cu_connection cu) = es \<and>
    client_idle (cu_connection cu) \<and> client_idle (uc_connection uc)"
proof -
  let ?rp = "RowsReply cols rows w1 s1 w2 s2"
  let ?rows = "\<lambda>c. map (decode_row (w_env W) c (parse_columns (w_env W) c cols)) rows"
  from buffered_execute [OF assms(1-3), of sql] assms(4) obtain cu where
    cu: "cu_execute W sql None (cursor_new k) = (Inr 0, cu)" "cu_executed cu = Some sql" "rows_left cu = ?rows (cl_inner k)"
      "client_idle (cu_connection cu)" "cl_in (cu_connection cu) = es" "cl_out (cu_connection cu) = cl_out k @ frames 0 (COM_QUERY # as_bytes sql)"
      "cu_row_number cu = 0" by auto
  then obtain cu' where cu': "cu_fetch_all cu = (Inr (?rows (cl_inner k)), cu')" "cu_connection cu' = cu_connection cu"
    by (cases "cu_rows cu") (auto simp: cu_fetch_all_def cu_check_executed_def st_simps rows_left_def)
  from unbuffered_execute [OF assms] obtain uc c fin where
    uc: "uc_execute W sql None (ucursor_new k) = (Inr 0, uc)" "same_codec (cl_inner k) c"
      "uc_left (w_env W) c (parse_columns (w_env W) c cols) fin w2 s2 es (uc_connection uc) uc (?rows c)"
      "cl_stream (uc_connection uc) = cl_stream k" "cl_wfail (uc_connection uc) = cl_wfail k"
      "cn_closed (cl_inner (uc_connection uc)) = cn_closed (cl_inner k)" "ps_send_queue (cn_packet_stream (cl_inner (uc_connection uc))) = []"
      "cl_out (uc_connection uc) = cl_out k @ frames 0 (COM_QUERY # as_bytes sql)" by blast
  from stream_rows.rest_takes [OF uc(3)] obtain uc' where
    uc': "uc_fetch_all (w_env W) uc = (Inr (?rows c), uc')" "streamed fin s2 es (uc_connection uc')" "same_link (uc_connection uc) (uc_connection uc')"
    using uc_fetch_open(3) [OF uc(3)] by (auto simp: uc_left_def)
  have rows: "?rows c = ?rows (cl_inner k)" using same_codec_rows [OF uc(2), of "w_env W" ?rp] by simp
  have "\<not> bit s2 3" using assms(2) by (simp add: reply_ok_def)
  then have "client_idle (uc_connection uc')" "cl_in (uc_connection uc') = es"
    using uc'(2,3) uc(4-7) assms(1) sees_nothing [of fin es "uc_connection uc'"]
    by (auto simp: streamed_def client_idle_def Let_def same_link_def settled_def)
  with cu cu' uc uc' rows show ?thesis
    by (intro exI [of _ "?rows (cl_inner k)"] exI [of _ cu'] exI [of _ uc']) (simp add: bind_st_def same_link_def)
qed

text \<open>A statement and its answer in one segment.\<close>

lemma sample_select:
  "\<exists>segs. client_idle (sample_client\<lparr>cl_in := map Recv segs\<rparr>) \<and>
    reply_ok (w_env sample_world) (cl_inner (sample_client\<lparr>cl_in := map Recv segs\<rparr>)) (RowsReply [sample_column] [[Some [52, 50]], [None]] 0 2 0 2) \<and>
    arrives COM_QUERY (as_bytes ''SELECT a FROM t'') (resultset_packets [sample_column] [[Some [52, 50]], [None]] 0 2 0 2) segs"
proof -
  let ?rows = "stream_of (seq_after 0 (COM_QUERY # as_bytes ''SELECT a FROM t'')) (reply_packets sample_rows_reply)"
  let ?k = "sample_client\<lparr>cl_in := map Recv [?rows]\<rparr>"
  have c: "cl_inner ?k = sample_conn" "w_env sample_world = sample_env"
    by (simp_all add: sample_client_def sample_world_def)
  have "?rows \<noteq> []"
    using frames_length [of "lenenc_int 1" "seq_after 0 (COM_QUERY # as_bytes ''SELECT a FROM t'')"]
    by (auto simp: sample_rows_reply_def resultset_packets_def)
  then have "arrives COM_QUERY (as_bytes ''SELECT a FROM t'') (resultset_packets [sample_column] [[Some [52, 50]], [None]] 0 2 0 2) [?rows]"
    by (auto simp: arrives_def sample_rows_reply_def)
  moreover have "reply_ok (w_env sample_world) (cl_inner ?k) (RowsReply [sample_column] [[Some [52, 50]], [None]] 0 2 0 2)"
    using sample_rows_reply_ok unfolding c by (simp add: sample_rows_reply_def)
  ultimately show ?thesis using sample_client_idle [of "map Recv [?rows]"] by (intro exI [of _ "[?rows]"]) blast
qed

theorem unbuffered_equals_buffered_witness:
  "\<exists>segs uc. bind_st (uc_execute sample_world ''SELECT a FROM t'' None) (\<lambda>_. uc_fetch_all sample_env)
      (ucursor_new (sample_client\<lparr>cl_in := map Recv segs\<rparr>)) = (Inr [[VInt 42], [VNull]], uc) \<and> client_idle (uc_connection uc)"
proof -
  obtain segs where h: "client_idle (sample_client\<lparr>cl_in := map Recv segs\<rparr>)"
      "reply_ok (w_env sample_world) (cl_inner (sample_client\<lparr>cl_in := map Recv segs\<rparr>)) (RowsReply [sample_column] [[Some [52, 50]], [None]] 0 2 0 2)"
      "arrives COM_QUERY (as_bytes ''SELECT a FROM t'') (resultset_packets [sample_column] [[Some [52, 50]], [None]] 0 2 0 2) segs"
    using sample_select by blast
  have c: "cl_inner (sample_client\<lparr>cl_in := map Recv segs\<rparr>) = sample_conn" "w_env sample_world = sample_env"
    by (simp_all add: sample_client_def sample_world_def)
  have h2: "cl_in (sample_client\<lparr>cl_in := map Recv segs\<rparr>) = map Recv segs @ []" by simp
  have rows: "map (decode_row sample_env sample_conn (parse_columns sample_env sample_conn [sample_column])) [[Some [52, 50]], [None]] =
      [[VInt 42], [VNull]]"
    using sample_rows_reply_rows unfolding sample_rows_reply_def reply_rows.simps .
  from unbuffered_equals_buffered [OF h(1,2) h2 h(3)] show ?thesis unfolding c rows by blast
qed

text \<open>The answer to a sequence of requests, for the plain and for the dictionary cursors.\<close>

definition reply_fetches :: "'x env \<Rightarrow> 'x connection \<Rightarrow> bytes list \<Rightarrow> bytes option list list \<Rightarrow> fetch_op list \<Rightarrow> 'x mysql_value list list list" where
  "reply_fetches V c cols rows reqs = fst (abs_fetches reqs (map (decode_row V c (parse_columns V c cols)) rows))"

definition keyed_fetches :: "'x env \<Rightarrow> 'x connection \<Rightarrow> bytes list \<Rightarrow> bytes option list list \<Rightarrow> fetch_op list \<Rightarrow> 'x row_dict list list" where
  "keyed_fetches V c cols rows reqs =
     map (map (row_dict (map (cd_name \<circ> description) (parse_columns V c cols)))) (reply_fetches V c cols rows reqs)"

lemma bind_runs: "m s = (Inr x, s1) \<Longrightarrow> f s1 = r \<Longrightarrow> bind_st m (\<lambda>_. f) s = r"
  by (simp add: bind_st_def)

lemma any_size: "list_all (size_ok (\<lambda>_. True)) reqs"
  by (simp add: list_all_iff size_ok_def split: fetch_op.split)

lemma buffered_fetches:
  assumes "client_idle k" and "reply_ok (w_env W) (cl_inner k) (RowsReply cols rows w1 s1 w2 s2)"
    and "cl_in k = map Recv segs @ es"
    and "arrives COM_QUERY (as_bytes sql) (resultset_packets cols rows w1 s1 w2 s2) segs"
    and "small (length rows)" and "list_all (size_ok small) reqs"
  shows "\<exists>cu dc. bind_st (cu_execute W sql None) (\<lambda>_. cu_fetches reqs) (cursor_new k) =
      (Inr (reply_fetches (w_env W) (cl_inner k) cols rows reqs), cu) \<and>
    bind_st (dc_execute W sql None) (\<lambda>_. dc_fetches reqs) (dict_cursor_new (cursor_new k)) =
      (Inr (keyed_fetches (w_env W) (cl_inner k) cols rows reqs), dc)"
proof -
  let ?fs = "parse_columns (w_env W) (cl_inner k) cols"
  let ?rows = "map (decode_row (w_env W) (cl_inner k) ?fs) rows"
  let ?names = "map (cd_name \<circ> description) ?fs"
  from buffered_execute [OF assms(1-3), of sql] assms(4,5) obtain cu where
    cu: "cu_execute W sql None (cursor_new k) = (Inr 0, cu)" "cu_executed cu = Some sql" "rows_left cu = ?rows"
      "cursor_wf cu" "cu_description cu = Some (map description ?fs)" by auto
  let ?dc = "(dict_cursor_new cu)\<lparr>dc_fields_dirty := True\<rparr>"
  have dc: "dc_execute W sql None (dict_cursor_new (cursor_new k)) = (Inr 0, ?dc)"
    using cu(1) by (simp add: dc_execute_def on_cursor_def dict_cursor_new_def st_simps)
  have "cu_left cu ?rows" using cu by (simp add: cu_left_def)
  from buffered.fetches_take [OF this assms(6)] obtain cu' where 1: "cu_fetches reqs cu = (Inr (fst (abs_fetches reqs ?rows)), cu')"
    by (auto simp: cu_fetches_def)
  have "dc_left ?names ?dc (map (row_dict ?names) ?rows)"
    using cu by (simp add: dc_left_def dict_cursor_new_def ensure_fields_def build_fields_def description_names_def)
  from dict_rows.fetches_take [OF this any_size] obtain dc' where
    2: "dc_fetches reqs ?dc = (Inr (map (map (row_dict ?names)) (fst (abs_fetches reqs ?rows))), dc')"
    unfolding abs_fetches_map by (auto simp: dc_fetches_def dict_many_loop [abs_def])
  show ?thesis unfolding reply_fetches_def keyed_fetches_def
    by (intro exI conjI, rule bind_runs [where m = "cu_execute W sql None" and f = "cu_fetches reqs", OF cu(1) 1],
        rule bind_runs [where m = "dc_execute W sql None" and f = "dc_fetches reqs", OF dc 2])
qed

lemma unbuffered_fetches:
  assumes "client_idle k" and "reply_ok (w_env W) (cl_inner k) (RowsReply cols rows w1 s1 w2 s2)"
    and "cl_in k = map Recv segs @ es"
    and "arrives COM_QUERY (as_bytes sql) (resultset_packets cols rows w1 s1 w2 s2) segs"
  shows "\<exists>uc ud. bind_st (uc_execute W sql None) (\<lambda>_. uc_fetches (w_env W) reqs) (ucursor_new k) =
      (Inr (reply_fetches (w_env W) (cl_inner k) cols rows reqs), uc) \<and>
    bind_st (ud_execute W sql None) (\<lambda>_. ud_fetches (w_env W) reqs) (udict_cursor_new (ucursor_new k)) =
      (Inr (keyed_fetches (w_env W) (cl_inner k) cols rows reqs), ud)"
proof -
  let ?fs = "parse_columns (w_env W) (cl_inner k) cols"
  let ?rows = "map (decode_row (w_env W) (cl_inner k) ?fs) rows"
  let ?names = "map (cd_name \<circ> description) ?fs"
  from unbuffered_execute [OF assms] obtain uc c fin where
    uc: "uc_execute W sql None (ucursor_new k) = (Inr 0, uc)" and cod: "same_codec (cl_inner k) c" and
    left: "uc_left (w_env W) c (parse_columns (w_env W) c cols) fin w2 s2 es (uc_connection uc) uc
        (map (decode_row (w_env W) c (parse_columns (w_env W) c cols)) rows)"
      "uc_description uc = Some (map description (parse_columns (w_env W) c cols))" by blast
  note left = left [unfolded same_codec_columns [OF cod] same_codec_decode [OF cod]]
  from unbuffered.fetches_take [OF left(1) any_size] obtain uc' where
    1: "uc_fetches (w_env W) reqs uc = (Inr (fst (abs_fetches reqs ?rows)), uc')" by (auto simp: uc_fetches_def)
  let ?ud = "(udict_cursor_new uc)\<lparr>ud_fields_dirty := True\<rparr>"
  have ud: "ud_execute W sql None (udict_cursor_new (ucursor_new k)) = (Inr 0, ?ud)"
    using uc by (simp add: ud_execute_def on_ucursor_def udict_cursor_new_def st_simps)
  have "ud_fields (ud_ensure_fields ?ud) = ?names" "uc = ud_inner ?ud"
    using left(2) by (simp_all add: udict_cursor_new_def ud_ensure_fields_def description_names_def)
  with left(1) have "ud_left (w_env W) c ?fs fin w2 s2 es (uc_connection uc) ?names ?ud (map (row_dict ?names) ?rows)"
    by (intro ud_leftI)
  from udict_rows.fetches_take [OF this any_size] obtain ud' where
    2: "ud_fetches (w_env W) reqs ?ud = (Inr (map (map (row_dict ?names)) (fst (abs_fetches reqs ?rows))), ud')"
    unfolding abs_fetches_map by (auto simp: ud_fetches_def dict_many_loop [abs_def])
  show ?thesis unfolding reply_fetches_def keyed_fetches_def
    by (intro exI conjI, rule bind_runs [where m = "uc_execute W sql None" and f = "uc_fetches (w_env W) reqs", OF uc 1],
        rule bind_runs [where m = "ud_execute W sql None" and f = "ud_fetches (w_env W) reqs", OF ud 2])
qed

text \<open>C8: All four cursors agree on every way of fetching.  For a statement answered by a result set and any sequence of
  requests, the buffered and the unbuffered cursor return the same rows, taken in order from the decoded
  reply, and the dictionary cursors return the same rows as maps from the names of the columns.\<close>

theorem cursors_fetch_alike:
  assumes "client_idle k" and "reply_ok (w_env W) (cl_inner k) (RowsReply cols rows w1 s1 w2 s2)"
    and "cl_in k = map Recv segs @ es"
    and "arrives COM_QUERY (as_bytes sql) (resultset_packets cols rows w1 s1 w2 s2) segs"
    and "small (length rows)" and "list_all (size_ok small) reqs"
  shows "\<exists>cu uc dc ud.
    bind_st (cu_execute W sql None) (\<lambda>_. cu_fetches reqs) (cursor_new k) =
      (Inr (reply_fetches (w_env W) (cl_inner k) cols rows reqs), cu) \<and>
    bind_st (uc_execute W sql None) (\<lambda>_. uc_fetches (w_env W) reqs) (ucursor_new k) =
      (Inr (reply_fetches (w_env W) (cl_inner k) cols rows reqs), uc) \<and>
    bind_st (dc_execute W sql None) (\<lambda>_. dc_fetches reqs) (dict_cursor_new (cursor_new k)) =
      (Inr (keyed_fetches (w_env W) (cl_inner k) cols rows reqs), dc) \<and>
    bind_st (ud_execute W sql None) (\<lambda>_. ud_fetches (w_env W) reqs) (udict_cursor_new (ucursor_new k)) =
      (Inr (keyed_fetches (w_env W) (cl_inner k) cols rows reqs), ud)"
  using buffered_fetches [OF assms] unbuffered_fetches [OF assms(1-4)] by blast

theorem cursors_fetch_alike_witness:
  "\<exists>segs ud. bind_st (ud_execute sample_world ''SELECT a FROM t'' None) (\<lambda>_. ud_fetches sample_env [FetchOne, FetchAll])
      (udict_cursor_new (ucursor_new (sample_client\<lparr>cl_in := map Recv segs\<rparr>))) =
    (Inr (keyed_fetches sample_env sample_conn [sample_column] [[Some [52, 50]], [None]] [FetchOne, FetchAll]), ud) \<and>
    reply_fetches sample_env sample_conn [sample_column] [[Some [52, 50]], [None]] [FetchOne, FetchAll] =
      [[[VInt 42]], [[VNull]]]"
proof -
  obtain segs where h: "client_idle (sample_client\<lparr>cl_in := map Recv segs\<rparr>)"
      "reply_ok (w_env sample_world) (cl_inner (sample_client\<lparr>cl_in := map Recv segs\<rparr>)) (RowsReply [sample_column] [[Some [52, 50]], [None]] 0 2 0 2)"
      "arrives COM_QUERY (as_bytes ''SELECT a FROM t'') (resultset_packets [sample_column] [[Some [52, 50]], [None]] 0 2 0 2) segs"
    using sample_select by blast
  have c: "cl_inner (sample_client\<lparr>cl_in := map Recv segs\<rparr>) = sample_conn" "w_env sample_world = sample_env"
    by (simp_all add: sample_client_def sample_world_def)
  have "map (decode_row sample_env sample_conn (parse_columns sample_env sample_conn [sample_column])) [[Some [52, 50]], [None]] =
      [[VInt 42], [VNull]]"
    using sample_rows_reply_rows unfolding sample_rows_reply_def reply_rows.simps .
  then have "reply_fetches sample_env sample_conn [sample_column] [[Some [52, 50]], [None]] [FetchOne, FetchAll] = [[[VInt 42]], [[VNull]]]"
    by (simp add: reply_fetches_def)
  with cursors_fetch_alike [OF h(1,2) _ h(3), of "[]" "[FetchOne, FetchAll]"] show ?thesis
    by (auto simp: c small_def size_ok_def)
qed

end
