(* ===== verification/Cursor_Bulk.thy ===== *)
theory Cursor_Bulk
  imports Cursor_Unbuffered
begin

text \<open>
  The statements of \<open>execute_many\<close> (\<^verbatim>\<open>mysql/src/cursor.rs\<close>): the rows of an \<open>INSERT\<close> or \<open>REPLACE\<close> are joined into one
  statement as long as it stays within the length limit; and what the code sends behind a statement that it
  had to cut off.
\<close>

section \<open>Joining rows\<close>

text \<open>The rows that follow the first one of a statement, and a whole statement.\<close>

definition more_rows :: "string list \<Rightarrow> string" where
  "more_rows vs = concat (map ((@) '','') vs)"

definition bulk_statement :: "string \<Rightarrow> string list \<Rightarrow> string \<Rightarrow> string" where
  "bulk_statement prefix vs postfix = prefix @ join_with '','' vs @ postfix"

lemma more_rows_simps [simp]: "more_rows [] = []" "more_rows (v # vs) = '','' @ v @ more_rows vs"
  by (simp_all add: more_rows_def)

lemma join_more_rows: "join_with '','' (v # vs) = v @ more_rows vs"
  by (induction vs arbitrary: v) simp_all

text \<open>Rendering the rows gives their texts and does not change the state.\<close>

definition renders :: "(string \<Rightarrow> 'v list option \<Rightarrow> ('s, string) rs) \<Rightarrow> string \<Rightarrow> 's \<Rightarrow> 'v list list \<Rightarrow> string list \<Rightarrow> bool" where
  "renders mog values s args vs \<longleftrightarrow> list_all2 (\<lambda>a v. mog values (Some a) s = (Inr v, s)) args vs"

lemma renders_Cons [simp]:
  "renders mog values s (a # args) (v # vs) \<longleftrightarrow> mog values (Some a) s = (Inr v, s) \<and> renders mog values s args vs"
  by (simp add: renders_def)

text \<open>Rows that fit are appended without a statement being executed.\<close>

lemma bulk_rows_fit:
  assumes "renders mog values s args vs"
    and "length sql + length (more_rows vs) + length postfix \<le> MAX_STMT_LEN" and "0 < i"
  shows "bulk_loop exe mog prefix values postfix i sql rows (args @ rest) s =
    bulk_loop exe mog prefix values postfix (i + length args) (sql @ more_rows vs) rows rest s"
  using assms(1) [unfolded renders_def] assms(2,3)
proof (induction args vs arbitrary: i sql rule: list_all2_induct)
  case (Cons a args v vs)
  from Cons.hyps(1) Cons.prems Cons.IH [of "sql @ '','' @ v" "Suc i"] show ?case
    by (simp add: st_simps)
qed simp

lemma bulk_first_row:
  assumes "mog values (Some a) s = (Inr v, s)" and "length sql + length v + length postfix \<le> MAX_STMT_LEN"
  shows "bulk_loop exe mog prefix values postfix 0 sql rows (a # rest) s =
    bulk_loop exe mog prefix values postfix 1 (sql @ v) rows rest s"
  using assms by (simp add: st_simps)

lemma bulk_batch:
  assumes "renders mog values s args vs" and "args \<noteq> []"
    and "length (bulk_statement prefix vs postfix) \<le> MAX_STMT_LEN"
  shows "bulk_loop exe mog prefix values postfix 0 prefix rows (args @ rest) s =
    bulk_loop exe mog prefix values postfix (length args) (prefix @ join_with '','' vs) rows rest s"
proof -
  obtain a as v ws where av: "args = a # as" "vs = v # ws"
    using assms(1,2) by (cases args; cases vs) (auto simp: renders_def)
  with assms have h: "mog values (Some a) s = (Inr v, s)" "renders mog values s as ws"
      "length (prefix @ v) + length (more_rows ws) + length postfix \<le> MAX_STMT_LEN"
    by (simp_all add: bulk_statement_def join_more_rows)
  show ?thesis
    using bulk_first_row [of mog "values" a s v prefix postfix exe prefix rows "as @ rest"] h(1) h(3) bulk_rows_fit [OF h(2,3), of 1]
    by (simp add: av join_more_rows)
qed

text \<open>C24: Rows that fit make one statement.  If the values of all rows can be rendered and the statement stays within
  \<open>max_len\<close>, \<open>do_execute_many\<close> executes exactly one statement, the text before the values, the rendered rows
  separated by commas and the text behind them, and its count of rows becomes the result and \<open>row_count\<close>.\<close>

theorem bulk_rows_one_statement:
  assumes "\<not> cu_closed cu" and "args_list \<noteq> []"
    and "list_all2 (\<lambda>args v. client_mogrify (w_env W) (cu_connection cu) values (Some args) = Inr v) args_list vs"
    and "length (bulk_statement prefix vs postfix) \<le> MAX_STMT_LEN"
  shows "do_execute_many W prefix values postfix args_list cu =
    (case cu_execute W (bulk_statement prefix vs postfix) None cu of
       (Inl e, cu') \<Rightarrow> (Inl e, cu')
     | (Inr n, cu') \<Rightarrow> (Inr (add_i64 0 n), cu'\<lparr>cu_row_count := add_i64 0 n\<rparr>))"
proof -
  have "renders (conn_mogrify (w_env W)) values cu args_list vs"
    unfolding renders_def using assms(3) by (rule list_all2_mono) (simp add: conn_mogrify_def st_simps)
  from bulk_batch [OF this assms(2,4), of "cu_execute W" 0 "[]"] show ?thesis
    using assms(1)
    by (auto simp: do_execute_many_def bind_st_def ret_def modify_st_def cu_check_closed_def bulk_statement_def
        split: prod.splits sum.splits)
qed

text \<open>
  A row that no longer fits cuts the statement off; the next one starts with the text before the values and a
  comma, since the separator depends on the index of the row and not on the statement.
\<close>

lemma bulk_next_statement_broken:
  assumes "renders mog values s args vs" and "args \<noteq> []"
    and "length (bulk_statement prefix vs postfix) \<le> MAX_STMT_LEN" and "mog values (Some a) s = (Inr v, s)"
    and "MAX_STMT_LEN < length (bulk_statement prefix vs postfix) + length v + 1"
    and "exe (bulk_statement prefix vs postfix) None s = (Inr n, s')"
  shows "bulk_loop exe mog prefix values postfix 0 prefix rows (args @ [a]) s =
    bind_st (exe (prefix @ '','' @ v @ postfix) None) (\<lambda>n'. ret (add_i64 (add_i64 rows n) n')) s'"
  unfolding bulk_batch [OF assms(1-3)]
  using assms(2,4-6) by (simp add: bind_st_def ret_def bulk_statement_def)

theorem bulk_rows_one_statement_witness:
  "do_execute_many sample_world ''INSERT INTO t VALUES '' ''(%s)'' [] [[VInt 1], [VInt 20]] (cursor_new sample_client) =
    (case cu_execute sample_world ''INSERT INTO t VALUES (1),(20)'' None (cursor_new sample_client) of
       (Inl e, cu') \<Rightarrow> (Inl e, cu')
     | (Inr n, cu') \<Rightarrow> (Inr (add_i64 0 n), cu'\<lparr>cu_row_count := add_i64 0 n\<rparr>))"
  using bulk_rows_one_statement [of "cursor_new sample_client" "[[VInt 1], [VInt 20]]" sample_world "''(%s)''" "[''(1)'', ''(20)'']"
      "''INSERT INTO t VALUES ''" "[]"]
  by (simp add: cursor_new_def client_mogrify_def mogrify_query_def bulk_statement_def MAX_STMT_LEN_def
      escape_item_def dec_int_def dec.simps digit_char_def char_of_def bit_iff_odd)

end
