(* ===== verification/Pool.thy ===== *)
theory Pool
  imports Client_Setup Transaction
begin

text \<open>
  The connection pool of \<^verbatim>\<open>mysql/src/pool.rs\<close>.

  One manager task owns the idle connections and the count of the lent ones; callers reach it through a
  bounded request channel.  The handlers of the manager are state transformers on its record.  A handler
  takes the network that a connect in it would meet and the clock, in milliseconds; \<open>Blocked\<close> is a
  handler that waits for ever.  The callers, the channels and the manager together are a step relation,
  in which a handler is one step: it owns its state, and the others only append to the channel meanwhile.
  The connection of a lent slot may be replaced by any other in a step, so that what the callers do with
  it is not restricted.

  Shown: the pool never holds more connections than \<open>max_size\<close>; which idle connection is lent; that
  requests are answered in order, and with a connection while slots are free; that an abandoned
  transaction is rolled back before its connection is lent again; and that the slots of failed connects
  are never given back.
\<close>

section \<open>Configuration\<close>

record pool_config =
  pc_max_size :: nat
  pc_min_idle :: nat
  pc_max_idle_time :: nat
  pc_max_lifetime :: nat
  pc_acquire_timeout :: nat

definition from_secs :: "nat \<Rightarrow> nat" where
  "from_secs n = 1000 * n"

definition default_pool_config :: pool_config where
  "default_pool_config = \<lparr>pc_max_size = 10, pc_min_idle = 1, pc_max_idle_time = from_secs 600,
     pc_max_lifetime = from_secs 1800, pc_acquire_timeout = from_secs 30\<rparr>"

text \<open>\<open>Instant::elapsed\<close>: the time since an instant, at the instant \<open>now\<close>.\<close>

definition elapsed :: "nat \<Rightarrow> nat \<Rightarrow> nat" where
  "elapsed now since = now - since"

section \<open>The manager\<close>

text \<open>A request names the reply channel of an \<open>Acquire\<close> by a number.\<close>

datatype 'x pool_request = Acquire nat | Return "'x client" nat | Close

record 'x idle_connection =
  ic_conn :: "'x client"
  ic_created_at :: nat
  ic_idle_since :: nat

record 'x pool_manager =
  pm_options :: connect_options
  pm_config :: pool_config
  pm_idle :: "'x idle_connection list"
  pm_active_count :: nat

definition is_healthy :: "nat \<Rightarrow> pool_config \<Rightarrow> 'x idle_connection \<Rightarrow> bool" where
  "is_healthy now config ic \<longleftrightarrow>
     client_is_open (ic_conn ic) \<and>
     \<not> elapsed now (ic_created_at ic) \<ge> pc_max_lifetime config \<and>
     \<not> elapsed now (ic_idle_since ic) \<ge> pc_max_idle_time config"

text \<open>The loop of \<open>handle_acquire\<close> over \<open>idle.pop()\<close>: the last pushed connection comes first.\<close>

function acquire_idle :: "nat \<Rightarrow> 'x pool_manager \<Rightarrow> 'x client option \<times> 'x pool_manager" where
  "acquire_idle now m =
     (if pm_idle m = [] then (None, m)
      else
        let ic = last (pm_idle m); m' = m\<lparr>pm_idle := butlast (pm_idle m)\<rparr>
        in if is_healthy now (pm_config m') ic
           then (Some (ic_conn ic), m'\<lparr>pm_active_count := pm_active_count m' + 1\<rparr>)
           else acquire_idle now m')"
  by pat_completeness auto
termination
  by (relation "measure (\<lambda>(_, m). length (pm_idle m))") auto

declare acquire_idle.simps [simp del]

definition pool_exhausted :: error where
  "pool_exhausted = conn_host_error ''Connection pool exhausted''"

text \<open>The result is the message sent on the reply channel.\<close>

definition handle_acquire :: "'x world \<Rightarrow> tls_lib \<Rightarrow> net \<Rightarrow> nat \<Rightarrow> ('x pool_manager, error + 'x client) rs" where
  "handle_acquire W L N now m =
     (case acquire_idle now m of
        (Some conn, m') \<Rightarrow> (Inr (Inr conn), m')
      | (None, m') \<Rightarrow>
          (if pm_active_count m' < pc_max_size (pm_config m') then
             let m'' = m'\<lparr>pm_active_count := pm_active_count m' + 1\<rparr>
             in case client_connect W N L (pm_options m'') of
                  Inr conn \<Rightarrow> (Inr (Inr conn), m'')
                | Inl (Fail e) \<Rightarrow> (Inr (Inl e), m'')
                | Inl f \<Rightarrow> (Inl f, m'')
           else (Inr (Inl pool_exhausted), m')))"

definition handle_return :: "'x world \<Rightarrow> nat \<Rightarrow> 'x client \<Rightarrow> nat \<Rightarrow> ('x pool_manager, unit) rs" where
  "handle_return W now conn created_at m =
     (let m' = m\<lparr>pm_active_count := pm_active_count m - 1\<rparr>
      in if \<not> client_is_open conn then (Inr (), m')
         else
           (case rollback_dirty_transaction W conn of
              (Inl (Fail e), _) \<Rightarrow> (Inr (), m')
            | (Inl f, _) \<Rightarrow> (Inl f, m')
            | (Inr _, conn') \<Rightarrow>
                (if elapsed now created_at \<ge> pc_max_lifetime (pm_config m') then (Inr (), m')
                 else (Inr (), m'\<lparr>pm_idle := pm_idle m' @
                        [\<lparr>ic_conn = conn', ic_created_at = created_at, ic_idle_since = now\<rparr>]\<rparr>))))"

definition evict_expired :: "nat \<Rightarrow> 'x pool_manager \<Rightarrow> 'x pool_manager" where
  "evict_expired now m =
     m\<lparr>pm_idle := filter (\<lambda>ic.
         \<not> elapsed now (ic_idle_since ic) \<ge> pc_max_idle_time (pm_config m) \<and>
         \<not> elapsed now (ic_created_at ic) \<ge> pc_max_lifetime (pm_config m)) (pm_idle m)\<rparr>"

text \<open>The end of \<open>run\<close>: every idle connection is closed, whatever \<open>close\<close> returns.\<close>

fun close_idle :: "'x world \<Rightarrow> 'x idle_connection list \<Rightarrow> ('x pool_manager, unit) rs" where
  "close_idle W [] = ret ()"
| "close_idle W (ic # ics) =
     (case client_close (w_env W) (ic_conn ic) of
        (Inl Panic, _) \<Rightarrow> panic
      | (Inl Blocked, _) \<Rightarrow> blocked
      | _ \<Rightarrow> close_idle W ics)"

text \<open>
  One turn of the loop of \<open>run\<close> on a request: whether the loop goes on, and the message for a reply
  channel.
\<close>

definition run_request ::
    "'x world \<Rightarrow> tls_lib \<Rightarrow> net \<Rightarrow> nat \<Rightarrow> 'x pool_request \<Rightarrow> ('x pool_manager, bool \<times> (nat \<times> (error + 'x client)) option) rs" where
  "run_request W L N now request =
     (case request of
        Acquire i \<Rightarrow> bind_st (handle_acquire W L N now) (\<lambda>r. ret (True, Some (i, r)))
      | Return conn created_at \<Rightarrow> bind_st (handle_return W now conn created_at) (\<lambda>_. ret (True, None))
      | Close \<Rightarrow>
          bind_st get_st (\<lambda>m.
          bind_st (modify_st (\<lambda>m. m\<lparr>pm_idle := []\<rparr>)) (\<lambda>_.
          bind_st (close_idle W (pm_idle m)) (\<lambda>_. ret (False, None)))))"

section \<open>Starting a pool\<close>

text \<open>\<open>dial i\<close> is the network that the \<open>i\<close>-th connect meets, and the clock after it.\<close>

fun connect_idle :: "'x world \<Rightarrow> tls_lib \<Rightarrow> (nat \<Rightarrow> net \<times> nat) \<Rightarrow> connect_options \<Rightarrow> nat \<Rightarrow> fail + 'x idle_connection list" where
  "connect_idle W L dial options 0 = Inr []"
| "connect_idle W L dial options (Suc n) =
     (case connect_idle W L dial options n of
        Inl f \<Rightarrow> Inl f
      | Inr idle \<Rightarrow>
          (case client_connect W (fst (dial n)) L options of
             Inl f \<Rightarrow> Inl f
           | Inr conn \<Rightarrow> Inr (idle @ [\<lparr>ic_conn = conn, ic_created_at = snd (dial n), ic_idle_since = snd (dial n)\<rparr>])))"

definition pool_start ::
    "'x world \<Rightarrow> tls_lib \<Rightarrow> (nat \<Rightarrow> net \<times> nat) \<Rightarrow> connect_options \<Rightarrow> pool_config \<Rightarrow> fail + 'x pool_manager" where
  "pool_start W L dial options config =
     (if pc_max_size config = 0 then Inl (Fail (unknown_error ''max_size must be greater than 0''))
      else if pc_min_idle config > pc_max_size config then Inl (Fail (unknown_error ''min_idle must not exceed max_size''))
      else if pc_max_size config * 2 > usize_max then Inl Panic
      else
        (case connect_idle W L dial options (pc_min_idle config) of
           Inl f \<Rightarrow> Inl f
         | Inr idle \<Rightarrow> Inr \<lparr>pm_options = options, pm_config = config, pm_idle = idle, pm_active_count = 0\<rparr>))"

section \<open>Lent connections\<close>

record 'x pooled_connection =
  po_conn :: "'x client option"
  po_created_at :: nat

definition po_connection :: "'x pooled_connection \<Rightarrow> fail + 'x client" where
  "po_connection p = (case po_conn p of Some conn \<Rightarrow> Inr conn | None \<Rightarrow> Inl Panic)"

text \<open>The request that \<open>drop\<close> tries to send.\<close>

definition po_drop :: "'x pooled_connection \<Rightarrow> 'x pool_request option" where
  "po_drop p =
     (case po_conn p of
        Some conn \<Rightarrow> if client_is_open conn then Some (Return conn (po_created_at p)) else None
      | None \<Rightarrow> None)"

text \<open>\<open>discard\<close>: the closed connection, and what is left to be dropped.\<close>

definition po_discard :: "'x pooled_connection \<Rightarrow> 'x client option \<times> 'x pooled_connection" where
  "po_discard p = (map_option client_force_close (po_conn p), p\<lparr>po_conn := None\<rparr>)"

text \<open>What the wait of \<open>acquire\<close> for its reply ends with, and what \<open>acquire\<close> makes of it.\<close>

datatype 'x wait = TimedOut | ChannelClosed | Received "error + 'x client"

definition manager_gone :: error where
  "manager_gone = OperationalError CR_SERVER_LOST ''Connection pool manager is gone''"

fun acquire_result :: "nat \<Rightarrow> 'x wait \<Rightarrow> error + 'x pooled_connection" where
  "acquire_result now TimedOut = Inl (conn_host_error ''Timed out waiting for a connection from the pool'')"
| "acquire_result now ChannelClosed = Inl manager_gone"
| "acquire_result now (Received (Inl e)) = Inl e"
| "acquire_result now (Received (Inr conn)) = Inr \<lparr>po_conn = Some conn, po_created_at = now\<rparr>"

section \<open>The callers, the channels and the manager\<close>

text \<open>
  \<open>sy_manager\<close> is \<open>None\<close> once the manager has ended.  \<open>sy_waiting\<close> names the reply channels whose
  receiver exists, \<open>sy_replies\<close> holds the messages in them, \<open>sy_next\<close> is the next new channel.
\<close>

record 'x pool_system =
  sy_manager :: "'x pool_manager option"
  sy_queue :: "'x pool_request list"
  sy_next :: nat
  sy_waiting :: "nat list"
  sy_replies :: "(nat \<times> (error + 'x client)) list"
  sy_leased :: "'x pooled_connection list"
  sy_now :: nat

definition pool_capacity :: "'x pool_manager \<Rightarrow> nat" where
  "pool_capacity m = pc_max_size (pm_config m) * 2"

text \<open>\<open>send\<close> and \<open>try_send\<close> on the request channel, when there is room and the manager lives.\<close>

definition enqueue :: "'x pool_request \<Rightarrow> 'x pool_system \<Rightarrow> 'x pool_system option" where
  "enqueue request s =
     (case sy_manager s of
        None \<Rightarrow> None
      | Some m \<Rightarrow>
          if length (sy_queue s) < pool_capacity m then Some (s\<lparr>sy_queue := sy_queue s @ [request]\<rparr>) else None)"

text \<open>
  The sends of \<open>acquire\<close> and \<open>close\<close>: an error when the manager is gone, and \<open>None\<close> while they wait for
  room in the channel.
\<close>

definition already_gone :: error where
  "already_gone = OperationalError CR_SERVER_LOST ''Connection pool manager is already gone''"

definition pool_close :: "'x pool_system \<Rightarrow> error + 'x pool_system option" where
  "pool_close s = (if sy_manager s = None then Inl already_gone else Inr (enqueue Close s))"

definition send_acquire :: "'x pool_system \<Rightarrow> error + 'x pool_system option" where
  "send_acquire s =
     (if sy_manager s = None then Inl manager_gone
      else Inr (map_option (\<lambda>s'. s'\<lparr>sy_next := sy_next s + 1, sy_waiting := sy_next s # sy_waiting s\<rparr>)
        (enqueue (Acquire (sy_next s)) s)))"

text \<open>A message on a reply channel is lost when its receiver is gone.\<close>

definition deliver_reply :: "(nat \<times> (error + 'x client)) option \<Rightarrow> 'x pool_system \<Rightarrow> 'x pool_system" where
  "deliver_reply msg s =
     (case msg of
        Some (i, r) \<Rightarrow> if i \<in> set (sy_waiting s) then s\<lparr>sy_replies := (i, r) # sy_replies s\<rparr> else s
      | None \<Rightarrow> s)"

definition manager_ends :: "'x pool_system \<Rightarrow> 'x pool_system" where
  "manager_ends s = s\<lparr>sy_manager := None, sy_queue := []\<rparr>"

definition manager_turn :: "'x world \<Rightarrow> tls_lib \<Rightarrow> net \<Rightarrow> 'x pool_system \<Rightarrow> 'x pool_system option" where
  "manager_turn W L N s =
     (case (sy_manager s, sy_queue s) of
        (Some m, request # requests) \<Rightarrow>
          (case run_request W L N (sy_now s) request m of
             (Inr (True, msg), m') \<Rightarrow> Some (deliver_reply msg (s\<lparr>sy_manager := Some m', sy_queue := requests\<rparr>))
           | (Inr (False, msg), m') \<Rightarrow> Some (manager_ends s)
           | (Inl Panic, _) \<Rightarrow> Some (manager_ends s)
           | (Inl _, _) \<Rightarrow> None)
      | _ \<Rightarrow> None)"

text \<open>A caller takes its reply.\<close>

definition take_reply :: "nat \<Rightarrow> error + 'x client \<Rightarrow> 'x pool_system \<Rightarrow> 'x pool_system" where
  "take_reply i r s =
     s\<lparr>sy_waiting := removeAll i (sy_waiting s), sy_replies := remove1 (i, r) (sy_replies s),
       sy_leased := (case acquire_result (sy_now s) (Received r) of Inr p \<Rightarrow> p # sy_leased s | Inl _ \<Rightarrow> sy_leased s)\<rparr>"

text \<open>A caller gives up its wait: it timed out, was cancelled, or found the channel closed.\<close>

definition abandon_wait :: "nat \<Rightarrow> 'x pool_system \<Rightarrow> 'x pool_system" where
  "abandon_wait i s =
     s\<lparr>sy_waiting := removeAll i (sy_waiting s), sy_replies := filter (\<lambda>(j, _). j \<noteq> i) (sy_replies s)\<rparr>"

text \<open>A lent connection is dropped, by itself or by \<open>discard\<close>.\<close>

definition drop_leased :: "'x pooled_connection \<Rightarrow> 'x pool_system \<Rightarrow> 'x pool_system" where
  "drop_leased p s =
     (case po_drop p of
        None \<Rightarrow> s
      | Some request \<Rightarrow> (case enqueue request s of Some s' \<Rightarrow> s' | None \<Rightarrow> s))"

inductive pool_step :: "'x world \<Rightarrow> tls_lib \<Rightarrow> 'x pool_system \<Rightarrow> 'x pool_system \<Rightarrow> bool" for W L where
  acquiring: "send_acquire s = Inr (Some s') \<Longrightarrow> pool_step W L s s'"
| closing: "pool_close s = Inr (Some s') \<Longrightarrow> pool_step W L s s'"
| managing: "manager_turn W L N s = Some s' \<Longrightarrow> pool_step W L s s'"
| ticking: "sy_manager s = Some m \<Longrightarrow> pool_step W L s (s\<lparr>sy_manager := Some (evict_expired (sy_now s) m)\<rparr>)"
| taking: "i \<in> set (sy_waiting s) \<Longrightarrow> (i, r) \<in> set (sy_replies s) \<Longrightarrow> pool_step W L s (take_reply i r s)"
| abandoning: "pool_step W L s (abandon_wait i s)"
| using_lent: "sy_leased s = ps @ p # qs \<Longrightarrow> pool_step W L s (s\<lparr>sy_leased := ps @ p\<lparr>po_conn := Some conn\<rparr> # qs\<rparr>)"
| dropping: "sy_leased s = ps @ p # qs \<Longrightarrow> pool_step W L s (drop_leased p (s\<lparr>sy_leased := ps @ qs\<rparr>))"
| discarding: "sy_leased s = ps @ p # qs \<Longrightarrow> pool_step W L s (drop_leased (snd (po_discard p)) (s\<lparr>sy_leased := ps @ qs\<rparr>))"
| waiting: "sy_now s \<le> now \<Longrightarrow> pool_step W L s (s\<lparr>sy_now := now\<rparr>)"

definition pool_init :: "nat \<Rightarrow> 'x pool_manager \<Rightarrow> 'x pool_system" where
  "pool_init now m = \<lparr>sy_manager = Some m, sy_queue = [], sy_next = 0, sy_waiting = [], sy_replies = [], sy_leased = [],
     sy_now = now\<rparr>"

section \<open>Connections of the pool\<close>

fun is_return :: "'x pool_request \<Rightarrow> bool" where
  "is_return (Return _ _) = True"
| "is_return _ = False"

text \<open>Lent connections: with a caller, on the way to one, or on the way back.\<close>

definition lent :: "'x pool_system \<Rightarrow> nat" where
  "lent s = length (sy_leased s) + length (filter (\<lambda>(_, r). \<not> isl r) (sy_replies s)) +
     length (filter is_return (sy_queue s))"

definition idle_count :: "'x pool_system \<Rightarrow> nat" where
  "idle_count s = (case sy_manager s of Some m \<Rightarrow> length (pm_idle m) | None \<Rightarrow> 0)"

text \<open>Every connection the pool and its callers hold.\<close>

definition held :: "'x pool_system \<Rightarrow> nat" where
  "held s = lent s + idle_count s"

text \<open>The invariant: the lent connections are counted, and the count leaves room for the idle ones.\<close>

definition pool_inv :: "pool_config \<Rightarrow> 'x pool_system \<Rightarrow> bool" where
  "pool_inv config s \<longleftrightarrow> lent s \<le> pc_max_size config \<and>
     (case sy_manager s of
        None \<Rightarrow> True
      | Some m \<Rightarrow> pm_config m = config \<and> lent s \<le> pm_active_count m \<and>
          pm_active_count m + length (pm_idle m) \<le> pc_max_size config)"

lemma pool_inv_held: "pool_inv config s \<Longrightarrow> held s \<le> pc_max_size config"
  by (auto simp: pool_inv_def held_def idle_count_def split: option.splits)

section \<open>The handlers\<close>

text \<open>The connection to lend: the last pushed healthy one, with the older ones left in the pool.\<close>

definition pick_healthy :: "nat \<Rightarrow> pool_config \<Rightarrow> 'x idle_connection list \<Rightarrow> ('x idle_connection \<times> 'x idle_connection list) option" where
  "pick_healthy now config idle =
     (case dropWhile (\<lambda>ic. \<not> is_healthy now config ic) (rev idle) of
        [] \<Rightarrow> None
      | ic # older \<Rightarrow> Some (ic, rev older))"

lemma pick_healthy_Nil [simp]: "pick_healthy now config [] = None"
  by (simp add: pick_healthy_def)

lemma pick_healthy_snoc [simp]:
  "pick_healthy now config (ics @ [ic]) = (if is_healthy now config ic then Some (ic, ics) else pick_healthy now config ics)"
  by (simp add: pick_healthy_def)

lemma pick_healthy_shrinks: "pick_healthy now config idle = Some (ic, older) \<Longrightarrow> length older < length idle"
  by (induction idle rule: rev_induct) (auto split: if_splits)

lemma acquire_idle_pick:
  "acquire_idle now m =
     (case pick_healthy now (pm_config m) (pm_idle m) of
        Some (ic, older) \<Rightarrow> (Some (ic_conn ic), m\<lparr>pm_idle := older, pm_active_count := pm_active_count m + 1\<rparr>)
      | None \<Rightarrow> (None, m\<lparr>pm_idle := []\<rparr>))"
proof (induction idle \<equiv> "pm_idle m" arbitrary: m rule: rev_induct)
  case Nil
  then show ?case by (subst acquire_idle.simps) simp
next
  case (snoc ic ics)
  have idle: "pm_idle m = ics @ [ic]" using snoc(2) by simp
  show ?case
    using snoc(1) [of "m\<lparr>pm_idle := ics\<rparr>"] by (subst acquire_idle.simps) (simp add: idle Let_def split: option.split)
qed

text \<open>What a caller is answered, given the result of the connect that may be needed.\<close>

fun connect_answer :: "fail + 'x client \<Rightarrow> fail + (error + 'x client)" where
  "connect_answer (Inr conn) = Inr (Inr conn)"
| "connect_answer (Inl (Fail e)) = Inr (Inl e)"
| "connect_answer (Inl f) = Inl f"

text \<open>
  Which connection an acquire gets: the healthy idle connection pushed last, with those above it closed and those
  below it kept; without one, a new connection if fewer than \<open>max_size\<close> are counted as lent, whose failure is the
  answer and still counts; and otherwise the error that the pool is exhausted.
\<close>

lemma handle_acquire_pick:
  "handle_acquire W L N now m =
     (case pick_healthy now (pm_config m) (pm_idle m) of
        Some (ic, older) \<Rightarrow> (Inr (Inr (ic_conn ic)), m\<lparr>pm_idle := older, pm_active_count := pm_active_count m + 1\<rparr>)
      | None \<Rightarrow>
          if pc_max_size (pm_config m) \<le> pm_active_count m then (Inr (Inl pool_exhausted), m\<lparr>pm_idle := []\<rparr>)
          else (connect_answer (client_connect W N L (pm_options m)),
                m\<lparr>pm_idle := [], pm_active_count := pm_active_count m + 1\<rparr>))"
  by (auto simp: handle_acquire_def acquire_idle_pick Let_def split: option.splits sum.splits fail.splits)

lemma handle_acquire_counts:
  assumes "handle_acquire W L N now m = (Inr r, m')"
    and "pm_active_count m + length (pm_idle m) \<le> pc_max_size (pm_config m)"
  shows "pm_config m' = pm_config m" and "pm_active_count m' + length (pm_idle m') \<le> pc_max_size (pm_config m)"
    and "pm_active_count m + of_bool (\<not> isl r) \<le> pm_active_count m'"
  using assms pick_healthy_shrinks [of now "pm_config m" "pm_idle m"]
  by (auto simp: handle_acquire_pick split: option.splits if_splits)

lemma handle_return_counts:
  assumes "handle_return W now conn created_at m = (Inr u, m')"
  shows "pm_config m' = pm_config m" and "pm_active_count m' = pm_active_count m - 1"
    and "length (pm_idle m') \<le> length (pm_idle m) + 1"
  using assms by (auto simp: handle_return_def Let_def split: if_splits prod.splits sum.splits fail.splits)

lemma evict_expired_fields:
  "pm_config (evict_expired now m) = pm_config m" "pm_active_count (evict_expired now m) = pm_active_count m"
  "length (pm_idle (evict_expired now m)) \<le> length (pm_idle m)"
  by (simp_all add: evict_expired_def)

section \<open>The bound on connections\<close>

lemma deliver_reply_fields [simp]:
  "sy_manager (deliver_reply msg s) = sy_manager s" "sy_queue (deliver_reply msg s) = sy_queue s"
  "sy_leased (deliver_reply msg s) = sy_leased s"
  by (simp_all add: deliver_reply_def split: option.split)

lemma deliver_reply_lent:
  "lent (deliver_reply msg s) \<le> lent s + of_bool (\<exists>i k. msg = Some (i, Inr k))"
  by (auto simp: deliver_reply_def lent_def isl_def split: option.split) (metis sum.exhaust)

lemma lent_remove_reply: "lent (s\<lparr>sy_replies := filter P (sy_replies s)\<rparr>) \<le> lent s"
proof -
  have "length (filter Q (filter P xs)) \<le> length (filter Q xs)" for Q xs
    by (induction xs) auto
  then show ?thesis by (simp add: lent_def)
qed

lemma enqueue_fields:
  assumes "enqueue request s = Some s'"
  shows "s' = s\<lparr>sy_queue := sy_queue s @ [request]\<rparr>" and "lent s' = lent s + of_bool (is_return request)"
  using assms by (auto simp: enqueue_def lent_def split: option.splits if_splits)

lemma drop_leased_fields:
  "sy_manager (drop_leased p s) = sy_manager s" "lent (drop_leased p s) \<le> lent s + 1"
  by (auto simp: drop_leased_def dest: enqueue_fields split: option.splits)

lemma filter_remove1_le: "x \<in> set xs \<Longrightarrow> P x \<Longrightarrow> Suc (length (filter P (remove1 x xs))) = length (filter P xs)"
  by (induction xs) auto

lemma filter_remove1_no: "\<not> P x \<Longrightarrow> filter P (remove1 x xs) = filter P xs"
  by (induction xs) auto

lemma take_reply_lent: "(i, r) \<in> set (sy_replies s) \<Longrightarrow> lent (take_reply i r s) = lent s"
proof (cases r)
  case (Inl e)
  then show ?thesis by (simp add: take_reply_def lent_def filter_remove1_no)
next
  case (Inr k)
  moreover assume "(i, r) \<in> set (sy_replies s)"
  ultimately show ?thesis
    using filter_remove1_le [of "(i, r)" "sy_replies s" "\<lambda>(_, r). \<not> isl r"] by (simp add: take_reply_def lent_def)
qed

lemma abandon_wait_lent: "lent (abandon_wait i s) \<le> lent s"
  using lent_remove_reply [of "\<lambda>(j, _). j \<noteq> i" s] by (simp add: abandon_wait_def lent_def)

lemma manager_turn_cases:
  assumes "manager_turn W L N s = Some s'"
  obtains (ends) m where "sy_manager s = Some m" "s' = manager_ends s"
  | (acquire) m i r q m' where "sy_manager s = Some m" "sy_queue s = Acquire i # q"
      "handle_acquire W L N (sy_now s) m = (Inr r, m')"
      "s' = deliver_reply (Some (i, r)) (s\<lparr>sy_manager := Some m', sy_queue := q\<rparr>)"
  | (return) m conn created_at q m' where "sy_manager s = Some m" "sy_queue s = Return conn created_at # q"
      "handle_return W (sy_now s) conn created_at m = (Inr (), m')" "s' = s\<lparr>sy_manager := Some m', sy_queue := q\<rparr>"
proof -
  from assms obtain m request q where m: "sy_manager s = Some m" "sy_queue s = request # q"
    by (auto simp: manager_turn_def split: option.splits list.splits)
  obtain res m' where res: "run_request W L N (sy_now s) request m = (res, m')" by fastforce
  show ?thesis
  proof (cases request)
    case (Acquire i)
    then show ?thesis
      using assms res m that
      by (auto simp: manager_turn_def run_request_def bind_st_def ret_def split: prod.splits sum.splits fail.splits)
  next
    case (Return conn created_at)
    then show ?thesis
      using assms res m that
      by (auto simp: manager_turn_def run_request_def bind_st_def ret_def deliver_reply_def
          split: prod.splits sum.splits fail.splits)
  next
    case Close
    then show ?thesis
      using assms res m that(1)
      by (auto simp: manager_turn_def run_request_def bind_st_def ret_def split: prod.splits sum.splits fail.splits)
  qed
qed

lemma turn_keeps_inv:
  assumes "manager_turn W L N s = Some s'" and "pool_inv config s"
  shows "pool_inv config s'"
  using assms(1)
proof (cases rule: manager_turn_cases)
  case ends
  then show ?thesis using assms(2) by (simp add: pool_inv_def manager_ends_def lent_def)
next
  case (acquire m i r q m')
  have "(\<exists>j k. Some (i, r) = Some (j, Inr k)) \<longleftrightarrow> \<not> isl r" by (cases r) auto
  moreover have "lent (s\<lparr>sy_manager := Some m', sy_queue := q\<rparr>) = lent s" by (simp add: lent_def acquire(2))
  ultimately have "lent s' \<le> lent s + of_bool (\<not> isl r)"
    using deliver_reply_lent [of "Some (i, r)" "s\<lparr>sy_manager := Some m', sy_queue := q\<rparr>"] by (simp add: acquire(4))
  with handle_acquire_counts [OF acquire(3)] assms(2) acquire(1) show ?thesis
    by (simp add: pool_inv_def acquire(4))
next
  case (return m conn created_at q m')
  have "Suc (lent s') = lent s" by (simp add: lent_def return(2,4))
  with handle_return_counts [OF return(3)] assms(2) return(1,4) show ?thesis
    by (auto simp: pool_inv_def)
qed

text \<open>Every step but those of the manager keeps the manager, and lends no connection.\<close>

lemma caller_step:
  assumes "pool_step W L s s'"
  shows "(\<exists>N. manager_turn W L N s = Some s') \<or> (\<exists>m. sy_manager s = Some m \<and> s' = s\<lparr>sy_manager := Some (evict_expired (sy_now s) m)\<rparr>) \<or>
    sy_manager s' = sy_manager s \<and> lent s' \<le> lent s"
  using assms
proof cases
  case acquiring
  then show ?thesis by (auto simp: send_acquire_def lent_def dest!: enqueue_fields(1) split: if_splits)
next
  case closing
  then show ?thesis by (auto simp: pool_close_def dest: enqueue_fields split: if_splits)
next
  case (taking i r)
  then show ?thesis using take_reply_lent [of i r s] by (simp add: take_reply_def)
next
  case (abandoning i)
  then show ?thesis using abandon_wait_lent [of i s] by (simp add: abandon_wait_def)
next
  case (dropping ps p qs)
  then have "lent (s\<lparr>sy_leased := ps @ qs\<rparr>) + 1 = lent s" by (simp add: lent_def)
  with dropping drop_leased_fields [of p "s\<lparr>sy_leased := ps @ qs\<rparr>"] show ?thesis by auto
next
  case (discarding ps p qs)
  then have "lent (s\<lparr>sy_leased := ps @ qs\<rparr>) + 1 = lent s" by (simp add: lent_def)
  with discarding drop_leased_fields [of "snd (po_discard p)" "s\<lparr>sy_leased := ps @ qs\<rparr>"] show ?thesis by auto
qed (auto simp: lent_def)

lemma step_keeps_inv:
  assumes "pool_step W L s s'" and "pool_inv config s"
  shows "pool_inv config s'"
  using caller_step [OF assms(1)]
proof (elim disjE exE conjE)
  fix N
  assume "manager_turn W L N s = Some s'"
  then show ?thesis using assms(2) by (rule turn_keeps_inv)
next
  fix m
  assume m: "sy_manager s = Some m" and s': "s' = s\<lparr>sy_manager := Some (evict_expired (sy_now s) m)\<rparr>"
  have "lent s' = lent s" by (simp add: lent_def s')
  then show ?thesis using assms(2) m evict_expired_fields [of "sy_now s" m] by (simp add: pool_inv_def s')
next
  assume "sy_manager s' = sy_manager s" and "lent s' \<le> lent s"
  then show ?thesis using assms(2) by (auto simp: pool_inv_def split: option.splits)
qed

lemma connect_idle_length: "connect_idle W L dial options n = Inr idle \<Longrightarrow> length idle = n"
  by (induction n arbitrary: idle) (auto split: sum.splits)

lemma start_inv: "pool_start W L dial options config = Inr m \<Longrightarrow> pool_inv config (pool_init now m)"
  by (auto simp: pool_start_def pool_init_def pool_inv_def lent_def dest: connect_idle_length split: if_splits sum.splits)

text \<open>The states of a pool that was started.\<close>

inductive pool_reachable :: "'x world \<Rightarrow> tls_lib \<Rightarrow> pool_config \<Rightarrow> 'x pool_system \<Rightarrow> bool" for W L config where
  start: "pool_start W L dial options config = Inr m \<Longrightarrow> pool_reachable W L config (pool_init now m)"
| step: "pool_reachable W L config s \<Longrightarrow> pool_step W L s s' \<Longrightarrow> pool_reachable W L config s'"

lemma reachable_inv: "pool_reachable W L config s \<Longrightarrow> pool_inv config s"
  by (induction rule: pool_reachable.induct) (auto intro: start_inv step_keeps_inv)

text \<open>C10: A pool never holds more connections than \<open>max_size\<close>: whatever callers do and however the steps interleave,
  the idle connections, the lent ones, those in reply channels and those on their way back are at most
  \<open>max_size\<close> together, and while the manager runs its count covers all that are lent and leaves room for the
  idle ones.\<close>

theorem pool_bounded:
  assumes "pool_reachable W L config s"
  shows "held s \<le> pc_max_size config \<and>
    (\<forall>m. sy_manager s = Some m \<longrightarrow> lent s \<le> pm_active_count m \<and>
      pm_active_count m + length (pm_idle m) \<le> pc_max_size config)"
  using reachable_inv [OF assms] pool_inv_held [of config s] by (auto simp: pool_inv_def)

section \<open>Lost slots\<close>

text \<open>A pool that holds nothing while every slot counts as lent.\<close>

definition drained :: "'x pool_system \<Rightarrow> bool" where
  "drained s \<longleftrightarrow> held s = 0 \<and>
     (case sy_manager s of None \<Rightarrow> True | Some m \<Rightarrow> pc_max_size (pm_config m) \<le> pm_active_count m)"

lemma drained_turn:
  assumes "manager_turn W L N s = Some s'" and "drained s"
  shows "drained s'"
  using assms(1)
proof (cases rule: manager_turn_cases)
  case ends
  then show ?thesis using assms(2) by (simp add: drained_def held_def idle_count_def manager_ends_def lent_def)
next
  case (acquire m i r q m')
  have m: "pm_idle m = []" "pc_max_size (pm_config m) \<le> pm_active_count m"
    using assms(2) acquire(1) by (auto simp: drained_def held_def idle_count_def)
  with acquire(3) have "r = Inl pool_exhausted" "m' = m" by (auto simp: handle_acquire_pick)
  with m acquire assms(2) show ?thesis
    by (auto simp: drained_def held_def idle_count_def lent_def deliver_reply_def)
next
  case (return m conn created_at q m')
  then show ?thesis using assms(2) by (simp add: drained_def held_def lent_def)
qed

lemma drained_step: "pool_step W L s s' \<Longrightarrow> drained s \<Longrightarrow> drained s'"
proof -
  assume step: "pool_step W L s s'" and dr: "drained s"
  from caller_step [OF step] show "drained s'"
  proof (elim disjE exE conjE)
    fix N
    assume "manager_turn W L N s = Some s'"
    then show ?thesis using dr by (rule drained_turn)
  next
    fix m
    assume "sy_manager s = Some m" and "s' = s\<lparr>sy_manager := Some (evict_expired (sy_now s) m)\<rparr>"
    then show ?thesis
      using dr evict_expired_fields [of "sy_now s" m] by (simp add: drained_def held_def lent_def idle_count_def)
  next
    assume "sy_manager s' = sy_manager s" and "lent s' \<le> lent s"
    then show ?thesis using dr by (simp add: drained_def held_def idle_count_def)
  qed
qed

text \<open>C38: Slots that are lost stay lost.  Once every slot of a pool counts as lent while no connection exists, as it is
  after \<open>max_size\<close> connects that failed, no step ever lends a connection again: in all later states nothing
  is held, and every acquire is answered with \<open>pool_exhausted\<close>.\<close>

theorem lost_slots_stay_lost:
  assumes "(pool_step W L)\<^sup>*\<^sup>* s s'" and "drained s" and "sy_manager s' = Some m"
  shows "held s' = 0 \<and> handle_acquire W L N now m = (Inr (Inl pool_exhausted), m)"
proof -
  from assms(1,2) have "drained s'" by (induction rule: rtranclp_induct) (auto intro: drained_step)
  with assms(3) show ?thesis
    by (auto simp: drained_def held_def idle_count_def handle_acquire_pick)
qed

section \<open>Answers\<close>

fun manager_turns :: "'x world \<Rightarrow> tls_lib \<Rightarrow> net list \<Rightarrow> 'x pool_system \<Rightarrow> 'x pool_system option" where
  "manager_turns W L [] s = Some s"
| "manager_turns W L (N # Ns) s =
     (case manager_turn W L N s of None \<Rightarrow> None | Some s' \<Rightarrow> manager_turns W L Ns s')"

definition ends :: "fail + 'a \<Rightarrow> bool" where
  "ends r \<longleftrightarrow> (case r of Inl (Fail _) \<Rightarrow> True | Inl _ \<Rightarrow> False | Inr _ \<Rightarrow> True)"

fun request_ends :: "'x world \<Rightarrow> 'x pool_request \<Rightarrow> bool" where
  "request_ends W (Acquire i) \<longleftrightarrow> True"
| "request_ends W (Return conn _) \<longleftrightarrow> ends (fst (rollback_dirty_transaction W conn))"
| "request_ends W Close \<longleftrightarrow> False"

fun acquires :: "'x pool_request list \<Rightarrow> nat list" where
  "acquires [] = []"
| "acquires (Acquire i # q) = i # acquires q"
| "acquires (_ # q) = acquires q"

lemma ends_connect_answer: "ends r \<Longrightarrow> \<exists>a. connect_answer r = Inr a"
  by (cases r rule: connect_answer.cases) (auto simp: ends_def)

lemma handle_acquire_ends:
  assumes "ends (client_connect W N L (pm_options m))"
  shows "\<exists>r m'. handle_acquire W L N now m = (Inr r, m') \<and> pm_options m' = pm_options m \<and>
    pm_config m' = pm_config m \<and> pm_active_count m' \<le> pm_active_count m + 1 \<and>
    (pm_active_count m < pc_max_size (pm_config m) \<and> \<not> isl (client_connect W N L (pm_options m)) \<longrightarrow> \<not> isl r)"
proof -
  from ends_connect_answer [OF assms] obtain a where a: "connect_answer (client_connect W N L (pm_options m)) = Inr a" ..
  have "\<not> isl (client_connect W N L (pm_options m)) \<Longrightarrow> \<not> isl a"
    using a by (cases "client_connect W N L (pm_options m)") auto
  with a show ?thesis by (auto simp: handle_acquire_pick split: option.split)
qed

lemma handle_return_ends:
  assumes "ends (fst (rollback_dirty_transaction W conn))"
  shows "\<exists>m'. handle_return W now conn created_at m = (Inr (), m') \<and> pm_options m' = pm_options m \<and>
    pm_config m' = pm_config m \<and> pm_active_count m' \<le> pm_active_count m"
proof (cases "rollback_dirty_transaction W conn")
  case (Pair r conn')
  with assms show ?thesis by (cases r) (auto simp: handle_return_def Let_def ends_def split: fail.splits)
qed

lemma acquires_Cons: "acquires (request # q) = acquires [request] @ acquires q"
  by (cases request) auto

definition answered :: "(nat \<times> (error + 'x client)) list \<Rightarrow> bool" where
  "answered rs \<longleftrightarrow> list_all (\<lambda>(_, r). \<not> isl r) rs"

lemma turn_answers:
  assumes "sy_manager s = Some m" and "sy_queue s = request # q" and "ends (client_connect W N L (pm_options m))"
    and "request_ends W request" and "set (acquires [request]) \<subseteq> set (sy_waiting s)"
  shows "\<exists>s' m' rs. manager_turn W L N s = Some s' \<and> sy_manager s' = Some m' \<and> sy_queue s' = q \<and> sy_waiting s' = sy_waiting s \<and>
    sy_replies s' = rev rs @ sy_replies s \<and> map fst rs = acquires [request] \<and>
    pm_options m' = pm_options m \<and> pm_config m' = pm_config m \<and> pm_active_count m' \<le> pm_active_count m + length rs \<and>
    (pm_active_count m + length rs \<le> pc_max_size (pm_config m) \<and> \<not> isl (client_connect W N L (pm_options m)) \<longrightarrow> answered rs)"
proof (cases request)
  case (Acquire i)
  from handle_acquire_ends [OF assms(3), of "sy_now s"] obtain r m' where
    r: "handle_acquire W L N (sy_now s) m = (Inr r, m')" "pm_options m' = pm_options m" "pm_config m' = pm_config m"
      "pm_active_count m' \<le> pm_active_count m + 1"
      "pm_active_count m < pc_max_size (pm_config m) \<and> \<not> isl (client_connect W N L (pm_options m)) \<longrightarrow> \<not> isl r"
    by blast
  let ?s = "s\<lparr>sy_manager := Some m', sy_queue := q, sy_replies := (i, r) # sy_replies s\<rparr>"
  have "manager_turn W L N s = Some ?s"
    using assms r(1) by (simp add: manager_turn_def Acquire run_request_def st_simps deliver_reply_def)
  with r show ?thesis
    by (intro exI [of _ ?s] exI [of _ m'] exI [of _ "[(i, r)]"]) (auto simp: Acquire answered_def)
next
  case (Return conn created_at)
  with assms(4) have "ends (fst (rollback_dirty_transaction W conn))" by simp
  from handle_return_ends [OF this, of "sy_now s" created_at m] obtain m' where
    m': "handle_return W (sy_now s) conn created_at m = (Inr (), m')" "pm_options m' = pm_options m"
      "pm_config m' = pm_config m" "pm_active_count m' \<le> pm_active_count m"
    by blast
  let ?s = "s\<lparr>sy_manager := Some m', sy_queue := q\<rparr>"
  have "manager_turn W L N s = Some ?s"
    using assms m'(1) by (simp add: manager_turn_def Return run_request_def st_simps deliver_reply_def)
  with m' show ?thesis
    by (intro exI [of _ ?s] exI [of _ m'] exI [of _ "[]"]) (auto simp: Return answered_def)
next
  case Close
  then show ?thesis using assms(4) by simp
qed

lemma turns_answer:
  assumes "sy_manager s = Some m" and "length Ns = length (sy_queue s)"
    and "list_all (\<lambda>N. ends (client_connect W N L (pm_options m))) Ns" and "list_all (request_ends W) (sy_queue s)"
    and "set (acquires (sy_queue s)) \<subseteq> set (sy_waiting s)"
  shows "\<exists>s' rs. manager_turns W L Ns s = Some s' \<and> sy_queue s' = [] \<and> sy_replies s' = rev rs @ sy_replies s \<and>
    map fst rs = acquires (sy_queue s) \<and>
    (pm_active_count m + length rs \<le> pc_max_size (pm_config m) \<and>
     list_all (\<lambda>N. \<not> isl (client_connect W N L (pm_options m))) Ns \<longrightarrow> answered rs)"
  using assms
proof (induction q \<equiv> "sy_queue s" arbitrary: s m Ns)
  case Nil
  then show ?case by (intro exI [of _ s] exI [of _ "[]"]) (simp add: answered_def)
next
  case (Cons request q)
  note q = Cons.hyps(2) [symmetric]
  obtain N Ns' where Ns: "Ns = N # Ns'" using Cons.prems(2) q by (cases Ns) auto
  have "ends (client_connect W N L (pm_options m))" "request_ends W request"
      "set (acquires [request]) \<subseteq> set (sy_waiting s)"
    using Cons.prems by (simp_all add: q Ns acquires_Cons [of request q])
  from turn_answers [OF Cons.prems(1) q this] obtain s1 m1 rs1 where
    s1: "manager_turn W L N s = Some s1" "sy_manager s1 = Some m1" "sy_queue s1 = q" "sy_waiting s1 = sy_waiting s"
      "sy_replies s1 = rev rs1 @ sy_replies s" "map fst rs1 = acquires [request]" "pm_options m1 = pm_options m"
      "pm_config m1 = pm_config m" "pm_active_count m1 \<le> pm_active_count m + length rs1"
      "pm_active_count m + length rs1 \<le> pc_max_size (pm_config m) \<and> \<not> isl (client_connect W N L (pm_options m)) \<longrightarrow> answered rs1"
    by blast
  from Cons.hyps(1) [of s1 m1 Ns'] Cons.prems s1 obtain s' rs where
    "manager_turns W L Ns' s1 = Some s'" "sy_queue s' = []" "sy_replies s' = rev rs @ sy_replies s1" "map fst rs = acquires q"
      "pm_active_count m1 + length rs \<le> pc_max_size (pm_config m1) \<and>
         list_all (\<lambda>N. \<not> isl (client_connect W N L (pm_options m1))) Ns' \<longrightarrow> answered rs"
    by (auto simp: q Ns acquires_Cons [of request q])
  with s1 show ?case
    by (intro exI [of _ s'] exI [of _ "rs1 @ rs"]) (auto simp: Ns q answered_def acquires_Cons [of request q])
qed

text \<open>C18: Requests are answered.  If the connects and the rollbacks that the manager starts come to an end, it works off
  its whole queue and sends each caller that still waits exactly one reply, in the order of the requests;
  and if the count of lent connections leaves room for all of them and the connects succeed, every reply is a
  connection.\<close>

theorem requests_answered:
  assumes "sy_manager s = Some m" and "length Ns = length (sy_queue s)"
    and "list_all (\<lambda>N. ends (client_connect W N L (pm_options m))) Ns" and "list_all (request_ends W) (sy_queue s)"
    and "set (acquires (sy_queue s)) \<subseteq> set (sy_waiting s)"
  shows "\<exists>s' rs. manager_turns W L Ns s = Some s' \<and> sy_queue s' = [] \<and> sy_replies s' = rev rs @ sy_replies s \<and>
    map fst rs = acquires (sy_queue s) \<and>
    (pm_active_count m + length rs \<le> pc_max_size (pm_config m) \<and>
     list_all (\<lambda>N. \<not> isl (client_connect W N L (pm_options m))) Ns \<longrightarrow> answered rs)"
  by (rule turns_answer [OF assms])

section \<open>Returned connections\<close>

text \<open>C17: An abandoned transaction does not outlive the loan.  A returned connection that is open, young enough and either
  marked dirty or in a transaction gets a \<open>ROLLBACK\<close>, and when the server accepts it the connection becomes the
  idle connection lent next, no longer dirty and with the transaction status of that reply; the slot is free
  again.  If the server's reply is an error, nothing becomes idle.\<close>

theorem returned_rolled_back:
  assumes "cl_transaction_dirty conn \<or> client_in_transaction conn" and "client_is_open conn"
    and "elapsed now created_at < pc_max_lifetime (pm_config m)"
  shows "(\<forall>rp segs xs es. served W ((''ROLLBACK'', rp, segs) # xs) es conn \<longrightarrow>
      (\<exists>conn'. handle_return W now conn created_at m =
          (Inr (), m\<lparr>pm_active_count := pm_active_count m - 1,
             pm_idle := pm_idle m @ [\<lparr>ic_conn = conn', ic_created_at = created_at, ic_idle_since = now\<rparr>]\<rparr>) \<and>
        cl_out conn' = cl_out conn @ frames 0 (COM_QUERY # as_bytes ''ROLLBACK'') \<and> \<not> cl_transaction_dirty conn' \<and>
        client_in_transaction conn' = in_trans_status (reply_status rp) \<and> served W xs es conn')) \<and>
    (\<forall>e conn'. client_query W ''ROLLBACK'' False conn = (Inl (Fail e), conn') \<longrightarrow>
      handle_return W now conn created_at m = (Inr (), m\<lparr>pm_active_count := pm_active_count m - 1\<rparr>))"
proof (intro conjI allI impI)
  fix rp segs xs es
  assume "served W ((''ROLLBACK'', rp, segs) # xs) es conn"
  from rollback_dirty_served [OF assms(1) this] obtain conn' where
    "rollback_dirty_transaction W conn = (Inr (), conn')" "served W xs es conn'" "\<not> cl_transaction_dirty conn'"
      "client_in_transaction conn' = in_trans_status (reply_status rp)"
      "cl_out conn' = cl_out conn @ sent_all [(''ROLLBACK'', rp, segs)]" by blast
  with assms(2,3) show "\<exists>conn'. handle_return W now conn created_at m =
          (Inr (), m\<lparr>pm_active_count := pm_active_count m - 1,
             pm_idle := pm_idle m @ [\<lparr>ic_conn = conn', ic_created_at = created_at, ic_idle_since = now\<rparr>]\<rparr>) \<and>
        cl_out conn' = cl_out conn @ frames 0 (COM_QUERY # as_bytes ''ROLLBACK'') \<and> \<not> cl_transaction_dirty conn' \<and>
        client_in_transaction conn' = in_trans_status (reply_status rp) \<and> served W xs es conn'"
    by (intro exI [of _ conn']) (simp add: handle_return_def sent_all_def)
next
  fix e conn'
  assume "client_query W ''ROLLBACK'' False conn = (Inl (Fail e), conn')"
  then have "rollback_dirty_transaction W conn = (Inl (Fail e), conn')"
    using assms(1) by (auto simp: rollback_dirty_transaction_def st_simps)
  with assms(2) show "handle_return W now conn created_at m = (Inr (), m\<lparr>pm_active_count := pm_active_count m - 1\<rparr>)"
    by (simp add: handle_return_def)
qed

section \<open>A pool whose server refuses connections\<close>

definition refusing_net :: net where
  "refusing_net = \<lparr>nt_unix = (\<lambda>_ _. OpenError ''refused''), nt_tcp = (\<lambda>_ _. OpenError ''refused'')\<rparr>"

definition one_slot :: pool_config where
  "one_slot = default_pool_config\<lparr>pc_max_size := 1, pc_min_idle := 0\<rparr>"

definition one_slot_manager :: "nat \<Rightarrow> int pool_manager" where
  "one_slot_manager n = \<lparr>pm_options = default_options, pm_config = one_slot, pm_idle = [], pm_active_count = n\<rparr>"

text \<open>The pool after one caller was answered, and its answer taken.\<close>

definition refused_system :: "int pool_system" where
  "refused_system = (pool_init 0 (one_slot_manager 1))\<lparr>sy_next := 1\<rparr>"

lemma refused_connect: "\<exists>e. client_connect W refusing_net L options = Inl (Fail e)"
proof -
  have "\<exists>e. open_stream W refusing_net L opts = Inl e" for opts
    by (simp add: open_stream_def refusing_net_def Let_def)
  then show ?thesis by (auto simp: client_connect_def split: sum.split) (metis sum.distinct(1))
qed

lemma refused_acquire:
  "\<exists>e. handle_acquire W L refusing_net now (one_slot_manager 0) = (Inr (Inl e), one_slot_manager 1)"
  using refused_connect [of W L default_options]
  by (auto simp: handle_acquire_pick one_slot_manager_def one_slot_def default_pool_config_def)

lemma one_slot_start: "pool_start sample_world sample_tls dial default_options one_slot = Inr (one_slot_manager 0)"
  by (simp add: pool_start_def one_slot_def one_slot_manager_def default_pool_config_def usize_max_def)

definition asked_system :: "int pool_system" where
  "asked_system = (pool_init 0 (one_slot_manager 0))\<lparr>sy_queue := [Acquire 0], sy_next := 1, sy_waiting := [0]\<rparr>"

lemma ask_step: "pool_step sample_world sample_tls (pool_init 0 (one_slot_manager 0)) asked_system"
  by (rule acquiring) (simp add: send_acquire_def enqueue_def pool_init_def asked_system_def pool_capacity_def
      one_slot_manager_def one_slot_def default_pool_config_def)

lemma refuse_steps: "(pool_step sample_world sample_tls)\<^sup>*\<^sup>* asked_system refused_system"
proof -
  from refused_acquire [of sample_world sample_tls 0] obtain e where
    e: "handle_acquire sample_world sample_tls refusing_net 0 (one_slot_manager 0) = (Inr (Inl e), one_slot_manager 1)" ..
  let ?s = "asked_system\<lparr>sy_manager := Some (one_slot_manager 1), sy_queue := [], sy_replies := [(0, Inl e)]\<rparr>"
  have "manager_turn sample_world sample_tls refusing_net asked_system = Some ?s"
    using e by (simp add: manager_turn_def asked_system_def pool_init_def run_request_def st_simps deliver_reply_def)
  then have "pool_step sample_world sample_tls asked_system ?s" by (rule managing)
  moreover have "pool_step sample_world sample_tls ?s (take_reply 0 (Inl e) ?s)"
    by (rule taking) (simp_all add: asked_system_def)
  moreover have "take_reply 0 (Inl e) ?s = refused_system"
    by (simp add: take_reply_def asked_system_def refused_system_def pool_init_def)
  ultimately show ?thesis by (metis converse_rtranclp_into_rtranclp rtranclp.rtrancl_refl)
qed

lemma asked_reachable: "pool_reachable sample_world sample_tls one_slot asked_system"
  using pool_reachable.start [OF one_slot_start] ask_step by (rule pool_reachable.step)

theorem pool_bounded_witness:
  "held asked_system \<le> 1 \<and> lent asked_system \<le> pm_active_count (one_slot_manager 0)"
  using pool_bounded [OF asked_reachable]
  by (simp add: one_slot_def asked_system_def pool_init_def)

theorem lost_slots_stay_lost_witness:
  "(pool_step sample_world sample_tls)\<^sup>*\<^sup>* asked_system refused_system \<and> held refused_system = 0 \<and>
   handle_acquire sample_world sample_tls refusing_net 5 (one_slot_manager 1) = (Inr (Inl pool_exhausted), one_slot_manager 1)"
proof -
  have "drained refused_system"
    by (simp add: drained_def held_def lent_def idle_count_def refused_system_def pool_init_def one_slot_manager_def one_slot_def)
  moreover have "sy_manager refused_system = Some (one_slot_manager 1)" by (simp add: refused_system_def pool_init_def)
  ultimately show ?thesis
    using lost_slots_stay_lost [of sample_world sample_tls refused_system refused_system "one_slot_manager 1" refusing_net 5]
      refuse_steps by simp
qed

theorem requests_answered_witness:
  "\<exists>s' e. manager_turns sample_world sample_tls [refusing_net] asked_system = Some s' \<and> sy_queue s' = [] \<and>
     sy_replies s' = [(0, e)]"
proof -
  from refused_connect [of sample_world sample_tls default_options]
  have "ends (client_connect sample_world refusing_net sample_tls (pm_options (one_slot_manager 0)))"
    by (auto simp: ends_def one_slot_manager_def)
  moreover have "sy_manager asked_system = Some (one_slot_manager 0)" "sy_queue asked_system = [Acquire 0]"
      "sy_waiting asked_system = [0]" "sy_replies asked_system = []"
    by (simp_all add: asked_system_def pool_init_def)
  ultimately obtain s' rs where "manager_turns sample_world sample_tls [refusing_net] asked_system = Some s'" "sy_queue s' = []"
      "sy_replies s' = rev rs" "map fst rs = [0]"
    using requests_answered [of asked_system "one_slot_manager 0" "[refusing_net]" sample_world sample_tls]
    by (metis (no_types, lifting) acquires.simps(1,2) append_Nil2 empty_subsetI insert_subset length_Cons list.pred_inject(1,2)
        list.set(1,2) list.set_intros(1) list.size(3) request_ends.simps(1))
  then show ?thesis by (intro exI [of _ s'] exI [of _ "snd (hd rs)"]) (cases rs; auto)
qed

theorem returned_rolled_back_witness:
  "\<exists>segs conn'. handle_return sample_world 7 (sample_client\<lparr>cl_transaction_dirty := True, cl_in := map Recv segs\<rparr>) 5
       (one_slot_manager 1) =
     (Inr (), (one_slot_manager 0)\<lparr>pm_idle := [\<lparr>ic_conn = conn', ic_created_at = 5, ic_idle_since = 7\<rparr>]\<rparr>) \<and>
     \<not> cl_transaction_dirty conn' \<and> \<not> client_in_transaction conn'"
proof -
  let ?x = "ok_exchange ''ROLLBACK'' [frames (seq_after 0 (COM_QUERY # as_bytes ''ROLLBACK'')) [0, 0, 0, 2, 0, 0, 0]]"
  let ?segs = "snd (snd ?x)"
  let ?k = "sample_client\<lparr>cl_transaction_dirty := True, cl_in := map Recv ?segs\<rparr>"
  have idle: "client_idle ?k" using sample_client_idle [of "map Recv ?segs"] by (simp add: client_idle_def)
  moreover have "w_env sample_world = sample_env" "cl_inner ?k = sample_conn"
    by (simp_all add: sample_world_def sample_client_def)
  ultimately have "served sample_world [?x] [] ?k"
    using sample_ok_exchange by (simp add: served_def) (simp add: ok_exchange_def)
  then have sv: "served sample_world ((''ROLLBACK'', OkReply 0 0 2 0 [], ?segs) # []) [] ?k" by (simp add: ok_exchange_def)
  have "client_is_open ?k" using idle by (simp add: client_idle_def Let_def client_is_open_def core_is_open_def)
  moreover have "elapsed 7 5 < pc_max_lifetime (pm_config (one_slot_manager 1))"
    by (simp add: elapsed_def one_slot_manager_def one_slot_def default_pool_config_def from_secs_def)
  moreover have "cl_transaction_dirty ?k \<or> client_in_transaction ?k" by simp
  ultimately have "\<forall>rp segs xs es. served sample_world ((''ROLLBACK'', rp, segs) # xs) es ?k \<longrightarrow>
      (\<exists>conn'. handle_return sample_world 7 ?k 5 (one_slot_manager 1) =
          (Inr (), (one_slot_manager 1)\<lparr>pm_active_count := pm_active_count (one_slot_manager 1) - 1,
             pm_idle := pm_idle (one_slot_manager 1) @ [\<lparr>ic_conn = conn', ic_created_at = 5, ic_idle_since = 7\<rparr>]\<rparr>) \<and>
        \<not> cl_transaction_dirty conn' \<and> client_in_transaction conn' = in_trans_status (reply_status rp))"
    using returned_rolled_back [of ?k 7 5 "one_slot_manager 1" sample_world] by blast
  from this [rule_format, OF sv] obtain conn' where "handle_return sample_world 7 ?k 5 (one_slot_manager 1) =
      (Inr (), (one_slot_manager 1)\<lparr>pm_active_count := pm_active_count (one_slot_manager 1) - 1,
        pm_idle := pm_idle (one_slot_manager 1) @ [\<lparr>ic_conn = conn', ic_created_at = 5, ic_idle_since = 7\<rparr>]\<rparr>)"
      "\<not> cl_transaction_dirty conn'" "client_in_transaction conn' = in_trans_status (reply_status (OkReply 0 0 2 0 []))"
    by blast
  then show ?thesis
    by (intro exI [of _ ?segs] exI [of _ conn']) (simp add: one_slot_manager_def in_trans_status_def)
qed

end
