(* ===== verification/Spec2Isabelle.thy ===== *)
theory Spec2Isabelle
  imports Option_File Server_Errors Fuzz_Targets Core_Auth Client_Connect Client_Files Client_Waits Cursor_Correct Cursor_Bulk Pool
begin

text \<open>
  A verification development for a MySQL client in Rust.

  \<^bold>\<open>The program.\<close>  The crate \<^verbatim>\<open>src/mysql-core\<close> is a protocol implementation without I/O: bytes that were received
  are fed to it, bytes to send are taken from it.  The crate \<^verbatim>\<open>src/mysql\<close> puts it on a socket with \<open>tokio\<close> and
  \<open>rustls\<close> and adds cursors, transactions and a connection pool.  From the inside out:

  \<^item> \<^verbatim>\<open>connection/packet.rs\<close> cuts payloads into frames with sequence numbers, puts them together again, and wraps them in
    the compressed framing; theories \<open>Packet_Stream\<close> (model, plain framing) and \<open>Packet_Delivery\<close> (end-to-end).
  \<^item> \<^verbatim>\<open>protocol.rs\<close> reads fields from a packet, classifies packets and decodes OK, EOF, LOCAL INFILE and column
    packets; theory \<open>Protocol\<close>.  \<^verbatim>\<open>error.rs\<close> turns ERR packets into errors; theory \<open>Errors\<close>.  \<^verbatim>\<open>constants/*.rs\<close>: theories
    \<open>Constants\<close> and \<open>Server_Errors\<close>.  \<^verbatim>\<open>charset.rs\<close>: theory \<open>Charset\<close>.  \<^verbatim>\<open>time.rs\<close>: theory \<open>Time_Helpers\<close>.
  \<^item> \<^verbatim>\<open>converters.rs\<close> renders values as SQL literals and decodes column text; theory \<open>Converters\<close>.
  \<^item> \<^verbatim>\<open>optionfile.rs\<close> parses option files; theory \<open>Option_File\<close>.
  \<^item> \<^verbatim>\<open>auth.rs\<close> computes the responses of the authentication plugins; theory \<open>Auth_Plugins\<close>.
  \<^item> \<^verbatim>\<open>connection.rs\<close> of the core holds the connection state, decodes the handshake, sends commands and reads results;
    theories \<open>Core_State\<close> and \<open>Core_Connection\<close>.  \<^verbatim>\<open>connection/result.rs\<close> is the state machine of a result set;
    theory \<open>Core_Result\<close>.  \<^verbatim>\<open>connection/auth.rs\<close> is the state machine of the authentication; theory \<open>Core_Auth\<close>.
  \<^item> \<^verbatim>\<open>mysql/src/connection.rs\<close> pumps bytes between the socket and the core; theories \<open>Client_Net\<close> (reads and writes),
    \<open>Client_Query\<close> (results, statements, commands) and \<open>Client_Setup\<close> (options, TLS, authentication, connect).
    \<open>Client_Exchange\<close>, \<open>Client_Files\<close> and \<open>Client_Connect\<close> hold what the client does with a server that answers: statements,
    files, and a whole connect; \<open>Client_Waits\<close> holds when it waits for one.
  \<^item> \<^verbatim>\<open>transaction.rs\<close>: theory \<open>Transaction\<close>.  \<^verbatim>\<open>cursor.rs\<close>: theories \<open>Cursor\<close>, \<open>Cursor_Unbuffered\<close> (models), \<open>Cursor_Correct\<close>
    and \<open>Cursor_Bulk\<close>.  \<^verbatim>\<open>pool.rs\<close>: theory \<open>Pool\<close>.
  \<^item> \<^verbatim>\<open>src/fuzz\<close> holds the fuzz targets of the core; theory \<open>Fuzz_Targets\<close>.

  \<^bold>\<open>How the code is modelled.\<close>  A struct is a record with its fields, an enum a datatype.  A method on \<open>&mut self\<close> that
  returns a \<open>Result\<close> is a state transformer \<open>('s, 'a) rs\<close> (theory \<open>Prelude\<close> and \<open>Errors\<close>): it gives a value or a failure, and
  the new state in both cases, so what a failing call leaves behind is visible.  A failure is \<open>Fail e\<close> for
  \<open>Err(e)\<close>, \<open>Panic\<close> for an index, slice or arithmetic panic, and \<open>Blocked\<close> for an await that never returns.  Bytes
  and integers of the protocol are words of their width; a \<open>usize\<close> is a \<open>nat\<close>, with the bound of 64 bits written out
  where the code can exceed it; a string is the list of its UTF-8 bytes, so lengths are those of \<open>len()\<close>.

  The network is part of the state of the client: the segments that following reads deliver, the bytes
  written, and the outcomes of following writes, a failed one after some of its bytes.  The pool is a step relation over the manager, its request
  channel, the reply channels and the lent connections, with all interleavings.

  The converters of columns are total functions; that the code behind them does not panic is shown in \<open>Converters\<close>, where the decoders
  of timestamps and times are also given with their overflow, underflow and range panics.

  \<^bold>\<open>Parameters.\<close>  Code outside the repository is an argument: the codecs of \<open>encoding_rs\<close>, \<open>chrono\<close> and
  \<open>rust_decimal\<close>, zlib, the digests, RSA and curve operations, \<open>rustls\<close> with PEM parsing, the file system, the
  environment, the clock and the regular expression engine.  What a property needs of one of them is a
  hypothesis of that property (for instance that decompression undoes compression), and its witness has a
  concrete instance.

  \<^bold>\<open>Interfaces.\<close>  \<open>wire_field\<close> (Protocol): an encoder and a reader of a packet field that undo each other, interpreted for
  every field type.  \<open>packet_transport\<close> (Packet_Stream): a writer and a feeder that deliver packets, interpreted for
  plain and compressed streams.  \<open>packet_source\<close> and \<open>result_loop\<close> (Result_Loop): where result packets come from and
  the loop that reads them, interpreted for the receive queue of the core and for the client on its stream.
  \<open>row_fetcher\<close> (Row_Source): fetching takes rows from the front of those left, interpreted for all four cursors, for
  three of them through \<open>row_source\<close>, the loop over a step that gives the next row.

  \<^bold>\<open>What is shown.\<close>  Delivery: payloads of any size within \<open>max_allowed_packet\<close> (no ERR packets) that are written
  and fed packet by packet arrive unchanged and in order, plain and compressed; packets shorter than \<open>2^24 - 1\<close> bytes
  also over any cut of a plain stream into reads (longer ones not: a cut behind a full frame truncates them); a
  client returns to each statement of a session what the server answered to it, and a connect against a
  server that answers turn by turn, each packet in reads of its own, ends with an idle client.  Decoding: handshake,
  handshake response and packets are read back as written, and no bytes of a server make decoders, the
  result reader or the authentication panic.  Invariants: the receive queue respects \<open>max_allowed_packet\<close>, results
  are well-formed, and the pool never holds more than \<open>max_size\<close> connections.  Five of the six fuzz targets pass on every input; the one for the time helpers does not, since it compares UTC with the
  zone of the machine.  Statements: string literals and
  byte literals denote their values, arguments replace exactly the placeholders, bulk rows make one
  statement.  Security: authentication responses pass the server's check, nothing but the SSL request is sent
  before TLS when it is required, certificates are verified as configured, and a request for a file is refused unless allowed.
  Cursors: fetching refines consuming the list of rows, all cursors agree on every way of fetching.
  Transactions and pool: what is sent to begin, rollback of abandoned transactions, every request answered.
  Errors: the lemmas named in the findings show where the code departs from its documentation, for instance
  truncated large packets, slots the pool loses and literals that a string can leave.

  \<^bold>\<open>Termination.\<close>  No definition uses fuel.  Loops over received bytes end because each turn uses up input: the
  measures are the bytes of the parse buffer (Packet_Stream), the queued packets and the input that is left
  (\<open>net_size\<close>, \<open>reads_left\<close>), the rows left (Cursor) and the idle connections (Pool).  A loop that would wait for
  more input than there is ends with \<open>Blocked\<close>; the properties that a call returns are proved as such, and
  \<open>Client_Waits\<close> shows that the operations on a connection wait only when all input is used up.  The login is the exception:
  it too waits only when everything has been read from the stream, but it can wait for a packet that is queued
  already (\<open>login_waits_though_answered\<close> in Client_Connect).

  \<^bold>\<open>Not modelled.\<close>  The bytes of a TLS handshake, the scheduling of
  \<open>tokio\<close> tasks beyond the interleaving of the pool, and the \<open>tracing\<close> calls.  The matching of the regular
  expression for bulk inserts.  The \<open>Hash\<close> instance of values, which only the order of a set depends on, and the debug
  dump of packets.  Accessors that return a field are the selectors of the records.  The capacity limit that \<open>tokio\<close> puts on channels.
\<close>

end
